(* ===== verification/Go_Prelude.thy ===== *)
theory Go_Prelude
  imports Main "HOL-Library.List_Lexorder" "HOL-Library.Char_ord" "HOL-Library.AList"
begin

text \<open>
  The vocabulary every other theory is written in: results of Go functions (a value, an
  error or a panic), Go strings as byte lists with the operations of the packages
  \<open>strings\<close>, \<open>strconv\<close> and \<open>slices\<close> that the program calls, nil-able slices and Go maps as
  association lists.  The theory ends with the facts about these operations that the
  components share.

  Conventions.  A Go string is the list of its bytes (\<^typ>\<open>string\<close>).  Case folding and white
  space are those of ASCII, so \<open>strings.EqualFold\<close>, \<open>strings.ToLower\<close> and \<open>strings.TrimSpace\<close>
  agree with Go on ASCII text; bytes from 128 on are left alone.  \<open>strconv.Quote\<close> and
  \<open>strconv.Unquote\<close> treat bytes from 128 on as printable text.
\<close>

section \<open>Results\<close>

text \<open>
  A Go function of type \<open>(T, error)\<close> returns a value or an error, and it may panic instead.
  \<open>Error m\<close> is a returned error with message \<open>m\<close>, \<open>Panic m\<close> a run-time panic.
\<close>

datatype fault = Error string | Panic string

type_synonym 'a res = "fault + 'a"

definition rbind :: "'e + 'a \<Rightarrow> ('a \<Rightarrow> 'e + 'b) \<Rightarrow> 'e + 'b" where
  "rbind m f = (case m of Inl e \<Rightarrow> Inl e | Inr x \<Rightarrow> f x)"

named_theorems rbind_iff \<open>when a sequence of fallible steps returns a value\<close>

lemma rbind_simps [simp]:
  "rbind (Inl e) f = Inl e"
  "rbind (Inr x) f = f x"
  by (simp_all add: rbind_def)

lemma rbind_Inr_iff [rbind_iff]: "rbind m f = Inr y \<longleftrightarrow> (\<exists>x. m = Inr x \<and> f x = Inr y)"
  by (cases m) auto

lemma rbind_Inl_iff: "rbind m f = Inl e \<longleftrightarrow> m = Inl e \<or> (\<exists>x. m = Inr x \<and> f x = Inl e)"
  by (cases m) auto

lemma rbind_cong [fundef_cong]:
  assumes "m = m'" and "\<And>x. m' = Inr x \<Longrightarrow> f x = g x"
  shows "rbind m f = rbind m' g"
  using assms by (cases m') auto

fun mapM :: "('a \<Rightarrow> 'e + 'b) \<Rightarrow> 'a list \<Rightarrow> 'e + 'b list" where
  "mapM f [] = Inr []"
| "mapM f (x # xs) = rbind (f x) (\<lambda>y. rbind (mapM f xs) (\<lambda>ys. Inr (y # ys)))"

fun foldM :: "('s \<Rightarrow> 'a \<Rightarrow> 'e + 's) \<Rightarrow> 's \<Rightarrow> 'a list \<Rightarrow> 'e + 's" where
  "foldM f s [] = Inr s"
| "foldM f s (x # xs) = rbind (f s x) (\<lambda>s'. foldM f s' xs)"

text \<open>An invariant that every step keeps, with the elements the loop has run over.\<close>

lemma foldM_invariant:
  assumes "foldM f s xs = Inr t" and "P [] s"
    and "\<And>ys y u v. P ys u \<Longrightarrow> y \<in> set xs \<Longrightarrow> f u y = Inr v \<Longrightarrow> P (ys @ [y]) v"
  shows "P xs t"
proof -
  have "P (ys @ zs) t" if "foldM f u zs = Inr t" and "P ys u" and "set zs \<subseteq> set xs" for ys zs u
    using that
  proof (induction zs arbitrary: ys u)
    case (Cons z zs)
    then obtain v where v: "f u z = Inr v" "foldM f v zs = Inr t" by (auto simp: rbind_Inr_iff)
    have "P (ys @ [z]) v" by (rule assms(3) [OF Cons.prems(2) _ v(1)]) (use Cons.prems in simp)
    from Cons.IH [OF v(2) this] Cons.prems show ?case by simp
  qed simp
  from this [of s xs "[]"] assms show ?thesis by simp
qed

lemma mapM_cong [fundef_cong]:
  assumes "xs = ys" and "\<And>x. x \<in> set ys \<Longrightarrow> f x = g x"
  shows "mapM f xs = mapM g ys"
proof -
  have "mapM f ys = mapM g ys" if "\<And>x. x \<in> set ys \<Longrightarrow> f x = g x"
    using that by (induction ys) auto
  with assms show ?thesis by simp
qed

lemma mapM_Inr_iff [rbind_iff]: "mapM f xs = Inr ys \<longleftrightarrow> list_all2 (\<lambda>x y. f x = Inr y) xs ys"
proof (induction xs arbitrary: ys)
  case Nil
  show ?case by auto
next
  case (Cons x xs)
  then show ?case by (cases ys) (auto simp: rbind_Inr_iff)
qed

lemma mapM_map: "(\<And>x. x \<in> set xs \<Longrightarrow> f (g x) = Inr (h x)) \<Longrightarrow> mapM f (map g xs) = Inr (map h xs)"
  by (induction xs) auto

section \<open>Slices and maps\<close>

text \<open>
  A Go slice may be nil, which some of the code distinguishes from an empty one:
  \<open>None\<close> is nil.  Indexing and slicing panic outside the bounds.
\<close>

type_synonym 'a slice = "'a list option"

fun elems :: "'a slice \<Rightarrow> 'a list" where
  "elems None = []"
| "elems (Some xs) = xs"

definition append_slice :: "'a slice \<Rightarrow> 'a list \<Rightarrow> 'a slice" where
  "append_slice s xs = (if s = None \<and> xs = [] then None else Some (elems s @ xs))"

definition go_slice :: "'a list \<Rightarrow> nat \<Rightarrow> nat \<Rightarrow> 'a list res" where
  "go_slice xs i j =
     (if i \<le> j \<and> j \<le> length xs then Inr (take (j - i) (drop i xs))
      else Inl (Panic ''slice bounds out of range''))"

definition go_index :: "'a list \<Rightarrow> nat \<Rightarrow> 'a res" where
  "go_index xs i = (if i < length xs then Inr (xs ! i) else Inl (Panic ''index out of range''))"

definition go_deref :: "'a option \<Rightarrow> 'a res" where
  "go_deref p = (case p of None \<Rightarrow> Inl (Panic ''nil pointer dereference'') | Some x \<Rightarrow> Inr x)"

text \<open>
  A Go map is an association list with distinct keys, read with \<^const>\<open>map_of\<close> and written
  with \<^const>\<open>AList.update\<close> and \<^const>\<open>AList.delete\<close>.  Its order stands for one of the orders
  in which \<open>range\<close> may visit the entries.
\<close>

type_synonym 'v go_map = "(string \<times> 'v) list"

abbreviation go_map_ok :: "'v go_map \<Rightarrow> bool" where
  "go_map_ok m \<equiv> distinct (map fst m)"

lemma go_map_ok_update: "go_map_ok m \<Longrightarrow> go_map_ok (AList.update k v m)"
  by (rule distinct_update)

lemma go_map_ok_delete: "go_map_ok m \<Longrightarrow> go_map_ok (AList.delete k m)"
  by (rule distinct_delete)

section \<open>Strings\<close>

abbreviation dq :: char where "dq \<equiv> CHR 0x22"
abbreviation bslash :: char where "bslash \<equiv> CHR 0x5C"
abbreviation newline :: char where "newline \<equiv> CHR 0x0A"

definition lower_char :: "char \<Rightarrow> char" where
  "lower_char c = (let n = of_char c :: nat in if 65 \<le> n \<and> n \<le> 90 then char_of (n + 32) else c)"

definition to_lower :: "string \<Rightarrow> string" where
  "to_lower s = map lower_char s"

definition equal_fold :: "string \<Rightarrow> string \<Rightarrow> bool" where
  "equal_fold a b \<longleftrightarrow> to_lower a = to_lower b"

definition is_space :: "char \<Rightarrow> bool" where
  "is_space c = (let n = of_char c :: nat in n = 32 \<or> (9 \<le> n \<and> n \<le> 13))"

definition trim_space :: "string \<Rightarrow> string" where
  "trim_space s = rev (dropWhile is_space (rev (dropWhile is_space s)))"

definition has_prefix :: "string \<Rightarrow> string \<Rightarrow> bool" where
  "has_prefix s p \<longleftrightarrow> take (length p) s = p"

definition has_suffix :: "string \<Rightarrow> string \<Rightarrow> bool" where
  "has_suffix s p \<longleftrightarrow> has_prefix (rev s) (rev p)"

definition trim_prefix :: "string \<Rightarrow> string \<Rightarrow> string" where
  "trim_prefix s p = (if has_prefix s p then drop (length p) s else s)"

definition trim_suffix :: "string \<Rightarrow> string \<Rightarrow> string" where
  "trim_suffix s p = (if has_suffix s p then take (length s - length p) s else s)"

fun index_str :: "string \<Rightarrow> string \<Rightarrow> nat option" where
  "index_str [] sub = (if sub = [] then Some 0 else None)"
| "index_str (c # cs) sub =
     (if has_prefix (c # cs) sub then Some 0 else map_option Suc (index_str cs sub))"

fun last_index_str :: "string \<Rightarrow> string \<Rightarrow> nat option" where
  "last_index_str [] sub = (if sub = [] then Some 0 else None)"
| "last_index_str (c # cs) sub =
     (case last_index_str cs sub of
        Some i \<Rightarrow> Some (Suc i)
      | None \<Rightarrow> if has_prefix (c # cs) sub then Some 0 else None)"

definition contains_str :: "string \<Rightarrow> string \<Rightarrow> bool" where
  "contains_str s sub \<longleftrightarrow> index_str s sub \<noteq> None"

lemma index_str_bound: "index_str s sub = Some i \<Longrightarrow> i + length sub \<le> length s"
proof (induction s arbitrary: i)
  case Nil
  then show ?case by (simp split: if_splits)
next
  case (Cons c cs)
  show ?case
  proof (cases "has_prefix (c # cs) sub")
    case True
    then have "length (take (length sub) (c # cs)) = length sub"
      by (simp add: has_prefix_def)
    then have "length sub \<le> length (c # cs)" by simp
    with True Cons.prems show ?thesis by simp
  next
    case False
    with Cons show ?thesis by auto
  qed
qed

text \<open>\<open>strings.Split\<close>, for the non-empty separators the program uses.\<close>

function split_str :: "string \<Rightarrow> string \<Rightarrow> string list" where
  "split_str s sep =
     (case index_str s sep of
        None \<Rightarrow> [s]
      | Some i \<Rightarrow>
          if sep = [] then map (\<lambda>c. [c]) s
          else take i s # split_str (drop (i + length sep) s) sep)"
  by pat_completeness auto
termination
proof (relation "measure (\<lambda>(s, sep). length s)")
  fix s sep :: string and i
  assume "index_str s sep = Some i" and "sep \<noteq> []"
  then have "i + length sep \<le> length s" and "0 < length sep"
    by (auto dest: index_str_bound)
  then have "length s - (i + length sep) < length s" by linarith
  then show "((drop (i + length sep) s, sep), (s, sep)) \<in> measure (\<lambda>(s, sep). length s)"
    by simp
qed simp

declare split_str.simps [simp del]

text \<open>\<open>strings.SplitN(s, sep, 2)\<close>.\<close>

definition split_n2 :: "string \<Rightarrow> string \<Rightarrow> string list" where
  "split_n2 s sep =
     (case index_str s sep of
        None \<Rightarrow> [s]
      | Some i \<Rightarrow> [take i s, drop (i + length sep) s])"

fun join_str :: "string list \<Rightarrow> string \<Rightarrow> string" where
  "join_str [] sep = []"
| "join_str [x] sep = x"
| "join_str (x # y # ys) sep = x @ sep @ join_str (y # ys) sep"

definition replace_all :: "string \<Rightarrow> string \<Rightarrow> string \<Rightarrow> string" where
  "replace_all s old new = join_str (split_str s old) new"

text \<open>\<open>strings.Compare\<close> and \<open><\<close> on strings are the bytewise lexicographic order, which is the
  order of \<^typ>\<open>string\<close> here.\<close>

fun nat_string :: "nat \<Rightarrow> string" where
  "nat_string n =
     (if n < 10 then [char_of (n + 48)] else nat_string (n div 10) @ [char_of (n mod 10 + 48)])"

declare nat_string.simps [simp del]

definition int_string :: "int \<Rightarrow> string" where
  "int_string i = (if i < 0 then CHR ''-'' # nat_string (nat (- i)) else nat_string (nat i))"

subsection \<open>Quoting\<close>

definition hex_digit :: "nat \<Rightarrow> char" where
  "hex_digit n = (if n < 10 then char_of (n + 48) else char_of (n + 87))"

definition hex_value :: "char \<Rightarrow> nat option" where
  "hex_value c =
     (let n = of_char c :: nat in
      if 48 \<le> n \<and> n \<le> 57 then Some (n - 48)
      else if 97 \<le> n \<and> n \<le> 102 then Some (n - 87)
      else if 65 \<le> n \<and> n \<le> 70 then Some (n - 55)
      else None)"

text \<open>\<open>strconv.Quote\<close>, byte by byte.\<close>

definition quote_char :: "char \<Rightarrow> string" where
  "quote_char c =
     (let n = of_char c :: nat in
      if c = dq then [bslash, dq]
      else if c = bslash then [bslash, bslash]
      else if n = 7 then [bslash, CHR ''a'']
      else if n = 8 then [bslash, CHR ''b'']
      else if n = 12 then [bslash, CHR ''f'']
      else if n = 10 then [bslash, CHR ''n'']
      else if n = 13 then [bslash, CHR ''r'']
      else if n = 9 then [bslash, CHR ''t'']
      else if n = 11 then [bslash, CHR ''v'']
      else if n < 32 \<or> n = 127 then [bslash, CHR ''x'', hex_digit (n div 16), hex_digit (n mod 16)]
      else [c])"

definition quote :: "string \<Rightarrow> string" where
  "quote s = dq # concat (map quote_char s) @ [dq]"

text \<open>UTF-8 encoding of a code point, as \<open>utf8.AppendRune\<close> writes it.\<close>

definition utf8_encode :: "nat \<Rightarrow> string" where
  "utf8_encode n =
     (let r = (if n > 1114111 \<or> (55296 \<le> n \<and> n \<le> 57343) then 65533 else n) in
      if r < 128 then [char_of r]
      else if r < 2048 then [char_of (192 + r div 64), char_of (128 + r mod 64)]
      else if r < 65536 then
        [char_of (224 + r div 4096), char_of (128 + r div 64 mod 64), char_of (128 + r mod 64)]
      else [char_of (240 + r div 262144), char_of (128 + r div 4096 mod 64),
            char_of (128 + r div 64 mod 64), char_of (128 + r mod 64)])"

fun hex_number :: "nat \<Rightarrow> string \<Rightarrow> nat option" where
  "hex_number acc [] = Some acc"
| "hex_number acc (c # cs) =
     (case hex_value c of None \<Rightarrow> None | Some v \<Rightarrow> hex_number (16 * acc + v) cs)"

definition simple_escape :: "char \<Rightarrow> char option" where
  "simple_escape c =
     (if c = CHR ''a'' then Some (char_of (7 :: nat))
      else if c = CHR ''b'' then Some (char_of (8 :: nat))
      else if c = CHR ''f'' then Some (char_of (12 :: nat))
      else if c = CHR ''n'' then Some (char_of (10 :: nat))
      else if c = CHR ''r'' then Some (char_of (13 :: nat))
      else if c = CHR ''t'' then Some (char_of (9 :: nat))
      else if c = CHR ''v'' then Some (char_of (11 :: nat))
      else if c = bslash then Some bslash
      else if c = dq then Some dq
      else None)"

definition octal_value :: "char \<Rightarrow> nat option" where
  "octal_value c = (let n = of_char c :: nat in if 48 \<le> n \<and> n \<le> 55 then Some (n - 48) else None)"

text \<open>One escape after the backslash: the bytes it stands for and how many bytes it takes.\<close>

definition unquote_escape :: "string \<Rightarrow> (string \<times> nat) option" where
  "unquote_escape s =
     (case s of
        [] \<Rightarrow> None
      | e # r \<Rightarrow>
          (case simple_escape e of
             Some c \<Rightarrow> Some ([c], 1)
           | None \<Rightarrow>
               if e = CHR ''x'' \<and> 2 \<le> length r then
                 map_option (\<lambda>n. ([char_of n], 3)) (hex_number 0 (take 2 r))
               else if e = CHR ''u'' \<and> 4 \<le> length r then
                 map_option (\<lambda>n. (utf8_encode n, 5)) (hex_number 0 (take 4 r))
               else if e = CHR ''U'' \<and> 8 \<le> length r then
                 Option.bind (hex_number 0 (take 8 r))
                   (\<lambda>n. if n > 1114111 then None else Some (utf8_encode n, 9))
               else
                 (case (octal_value e, r) of
                    (Some a, b # c # _) \<Rightarrow>
                      (case (octal_value b, octal_value c) of
                         (Some y, Some z) \<Rightarrow>
                           if 64 * a + 8 * y + z > 255 then None
                           else Some ([char_of (64 * a + 8 * y + z)], 3)
                       | _ \<Rightarrow> None)
                  | _ \<Rightarrow> None)))"

function unquote_body :: "string \<Rightarrow> string option" where
  "unquote_body [] = Some []"
| "unquote_body (c # cs) =
     (if c = dq \<or> c = newline then None
      else if c \<noteq> bslash then map_option ((#) c) (unquote_body cs)
      else
        (case unquote_escape cs of
           None \<Rightarrow> None
         | Some (bs, k) \<Rightarrow> map_option ((@) bs) (unquote_body (drop k cs))))"
  by pat_completeness auto
termination
  by (relation "measure length") auto

declare unquote_body.simps(2) [simp del]

text \<open>\<open>strconv.Unquote\<close> on a string that starts with a double quote.\<close>

definition unquote :: "string \<Rightarrow> string option" where
  "unquote s =
     (if length s \<ge> 2 \<and> hd s = dq \<and> last s = dq then unquote_body (butlast (tl s)) else None)"

text \<open>The code often ignores the error of \<open>Unquote\<close>, which then leaves the empty string.\<close>

definition unquote_or_empty :: "string \<Rightarrow> string" where
  "unquote_or_empty s = (case unquote s of None \<Rightarrow> [] | Some t \<Rightarrow> t)"

subsection \<open>Runes\<close>

text \<open>
  The conversion \<open>[]rune(s)\<close>.  A rune is kept as the bytes of its UTF-8 encoding; a byte that
  starts no valid encoding becomes U+FFFD.
\<close>

definition cont_byte :: "nat \<Rightarrow> nat \<Rightarrow> string \<Rightarrow> bool" where
  "cont_byte lo hi s \<longleftrightarrow> (case s of [] \<Rightarrow> False | c # _ \<Rightarrow> lo \<le> of_char c \<and> of_char c \<le> hi)"

definition rune_width :: "string \<Rightarrow> nat" where
  "rune_width s =
     (case s of
        [] \<Rightarrow> 0
      | c # cs \<Rightarrow>
         (let n = of_char c :: nat; tails = cont_byte 128 191 in
          if n < 128 then 1
          else if 194 \<le> n \<and> n \<le> 223 \<and> tails cs then 2
          else if 224 \<le> n \<and> n \<le> 239 \<and>
                  cont_byte (if n = 224 then 160 else 128) (if n = 237 then 159 else 191) cs \<and>
                  tails (drop 1 cs) then 3
          else if 240 \<le> n \<and> n \<le> 244 \<and>
                  cont_byte (if n = 240 then 144 else 128) (if n = 244 then 143 else 191) cs \<and>
                  tails (drop 1 cs) \<and> tails (drop 2 cs) then 4
          else 0))"

function runes :: "string \<Rightarrow> string list" where
  "runes [] = []"
| "runes (c # cs) =
     (let w = rune_width (c # cs) in
      if w = 0 then [char_of (239::nat), char_of (191::nat), char_of (189::nat)] # runes cs
      else take w (c # cs) # runes (drop (w - 1) cs))"
  by pat_completeness auto
termination
  by (relation "measure length") auto

declare runes.simps(2) [simp del]

definition ascii :: "string \<Rightarrow> bool" where
  "ascii s \<longleftrightarrow> (\<forall>c \<in> set s. (of_char c :: nat) < 128)"

section \<open>Facts about strings\<close>

lemma equal_fold_refl [simp]: "equal_fold a a"
  by (simp add: equal_fold_def)

lemma equal_fold_sym: "equal_fold a b \<longleftrightarrow> equal_fold b a"
  by (auto simp: equal_fold_def)

lemma equal_fold_trans: "equal_fold a b \<Longrightarrow> equal_fold b c \<Longrightarrow> equal_fold a c"
  by (simp add: equal_fold_def)

text \<open>Lower case of the letters, and of what is not an upper case letter.\<close>

lemma lower_letters [simp]:
  "lower_char CHR ''A'' = CHR ''a''"
  "lower_char CHR ''B'' = CHR ''b''"
  "lower_char CHR ''C'' = CHR ''c''"
  "lower_char CHR ''D'' = CHR ''d''"
  "lower_char CHR ''E'' = CHR ''e''"
  "lower_char CHR ''F'' = CHR ''f''"
  "lower_char CHR ''G'' = CHR ''g''"
  "lower_char CHR ''H'' = CHR ''h''"
  "lower_char CHR ''I'' = CHR ''i''"
  "lower_char CHR ''J'' = CHR ''j''"
  "lower_char CHR ''K'' = CHR ''k''"
  "lower_char CHR ''L'' = CHR ''l''"
  "lower_char CHR ''M'' = CHR ''m''"
  "lower_char CHR ''N'' = CHR ''n''"
  "lower_char CHR ''O'' = CHR ''o''"
  "lower_char CHR ''P'' = CHR ''p''"
  "lower_char CHR ''Q'' = CHR ''q''"
  "lower_char CHR ''R'' = CHR ''r''"
  "lower_char CHR ''S'' = CHR ''s''"
  "lower_char CHR ''T'' = CHR ''t''"
  "lower_char CHR ''U'' = CHR ''u''"
  "lower_char CHR ''V'' = CHR ''v''"
  "lower_char CHR ''W'' = CHR ''w''"
  "lower_char CHR ''X'' = CHR ''x''"
  "lower_char CHR ''Y'' = CHR ''y''"
  "lower_char CHR ''Z'' = CHR ''z''"
  by (simp_all add: lower_char_def Let_def char_of_eq_iff)

lemma lower_others: "(of_char c :: nat) < 65 \<or> 90 < (of_char c :: nat) \<Longrightarrow> lower_char c = c"
  by (auto simp: lower_char_def Let_def)

lemma lower_char_idem [simp]: "lower_char (lower_char c) = lower_char c"
  by (auto simp: lower_char_def Let_def of_char_of)

lemma to_lower_idem [simp]: "to_lower (to_lower s) = to_lower s"
  by (simp add: to_lower_def comp_def)

lemma equal_fold_length: "equal_fold a b \<Longrightarrow> length a = length b"
  unfolding equal_fold_def to_lower_def by (metis length_map)

lemma hex_value_digit: "n < 16 \<Longrightarrow> hex_value (hex_digit n) = Some n"
  by (auto simp: hex_value_def hex_digit_def Let_def)

lemma unquote_body_plain:
  "c \<noteq> dq \<Longrightarrow> c \<noteq> newline \<Longrightarrow> c \<noteq> bslash \<Longrightarrow>
   unquote_body (c # cs) = map_option ((#) c) (unquote_body cs)"
  by (simp add: unquote_body.simps(2))

lemma append_single_eq [simp]: "(@) [c] = (#) c"
  by (simp add: fun_eq_iff)

lemma unquote_body_escape:
  "unquote_escape (es @ cs) = Some ([c], k) \<Longrightarrow> k = length es \<Longrightarrow>
   unquote_body (bslash # es @ cs) = map_option ((#) c) (unquote_body cs)"
  by (simp add: unquote_body.simps(2))

lemma unquote_escape_hex:
  "n < 256 \<Longrightarrow>
   unquote_escape ([CHR ''x'', hex_digit (n div 16), hex_digit (n mod 16)] @ cs) = Some ([char_of n], 3)"
  by (simp add: unquote_escape_def simple_escape_def hex_value_digit)

lemma char_of_char_code: "of_char c = (n::nat) \<Longrightarrow> c = char_of n"
  by auto

lemma char_of_codes: "char_of (34::nat) = dq" "char_of (92::nat) = bslash"
  by (simp_all add: char_of_eq_iff)

lemma unquote_body_quote_char:
  "unquote_body (quote_char c @ cs) = map_option ((#) c) (unquote_body cs)"
proof -
  define n where "n = (of_char c :: nat)"
  have c: "c = char_of n" and n: "n < 256" by (simp_all add: n_def)
  consider "n = 34" | "n = 92" | "n = 7" | "n = 8" | "n = 12" | "n = 10" | "n = 13" | "n = 9" | "n = 11"
    | "n \<notin> {34, 92, 7, 8, 12, 10, 13, 9, 11}" "n < 32 \<or> n = 127"
    | "n \<notin> {34, 92, 7, 8, 12, 10, 13, 9, 11}" "\<not> (n < 32 \<or> n = 127)"
    by auto
  then show ?thesis
  proof cases
    case 10
    then have "quote_char c = bslash # [CHR ''x'', hex_digit (n div 16), hex_digit (n mod 16)]"
      by (auto simp: quote_char_def Let_def n_def)
    then show ?thesis
      using unquote_body_escape [OF unquote_escape_hex [OF n, of cs, folded c]] by simp
  next
    case 11
    then have "quote_char c = [c]" "c \<noteq> dq" "c \<noteq> newline" "c \<noteq> bslash"
      by (auto simp: quote_char_def Let_def n_def)
    then show ?thesis by (simp add: unquote_body_plain)
  qed (simp_all add: c char_of_codes char_of_eq_iff quote_char_def unquote_body.simps(2) unquote_escape_def simple_escape_def
        fun_eq_iff option.map_comp)
qed

lemma unquote_body_quote: "unquote_body (concat (map quote_char s)) = Some s"
  by (induction s) (simp_all add: unquote_body_quote_char)

lemma unquote_quote: "unquote (quote s) = Some s"
  by (simp add: unquote_def quote_def butlast_append unquote_body_quote)


lemma has_prefix_append [simp]: "has_prefix (p @ s) p"
  by (simp add: has_prefix_def)

lemma has_prefix_Cons [simp]: "has_prefix (c # s) (d # p) \<longleftrightarrow> c = d \<and> has_prefix s p"
  by (auto simp: has_prefix_def)

lemma has_prefix_Nil [simp]: "has_prefix s []" "has_prefix [] p \<longleftrightarrow> p = []"
  by (auto simp: has_prefix_def)

lemma has_prefix_iff: "has_prefix s p \<longleftrightarrow> (\<exists>t. s = p @ t)"
  unfolding has_prefix_def by (metis append_eq_conv_conj append_take_drop_id)

lemma has_suffix_iff: "has_suffix s p \<longleftrightarrow> (\<exists>t. s = t @ p)"
proof -
  have "has_suffix s p \<longleftrightarrow> (\<exists>t. rev s = rev p @ t)"
    by (simp add: has_suffix_def has_prefix_iff)
  also have "\<dots> \<longleftrightarrow> (\<exists>t. s = t @ p)"
    by (metis rev_append rev_rev_ident)
  finally show ?thesis .
qed

lemma index_str_char:
  "index_str s [c] = (if c \<in> set s then Some (length (takeWhile (\<lambda>d. d \<noteq> c) s)) else None)"
  by (induction s) (auto simp: has_prefix_def)

lemma contains_str_char: "contains_str s [c] \<longleftrightarrow> c \<in> set s"
  by (simp add: contains_str_def index_str_char)

lemma split_str_absent: "\<not> contains_str s sep \<Longrightarrow> split_str s sep = [s]"
  by (subst split_str.simps) (simp add: contains_str_def)

lemma split_str_char:
  "c \<notin> set x \<Longrightarrow> split_str (x @ c # ys) [c] = x # split_str ys [c]"
  by (subst split_str.simps) (simp add: index_str_char takeWhile_append)

lemma split_str_char_absent: "c \<notin> set x \<Longrightarrow> split_str x [c] = [x]"
  by (simp add: split_str_absent contains_str_char)

lemma split_join_char:
  "xs \<noteq> [] \<Longrightarrow> \<forall>x \<in> set xs. c \<notin> set x \<Longrightarrow> split_str (join_str xs [c]) [c] = xs"
proof (induction xs)
  case (Cons x xs)
  then show ?case
    by (cases xs) (simp_all add: split_str_char split_str_char_absent)
qed simp

lemma split_str_not_Nil [simp]: "sep \<noteq> [] \<Longrightarrow> split_str s sep \<noteq> []"
  by (subst split_str.simps) (simp split: option.splits)

lemma index_str_split:
  "index_str s sub = Some i \<Longrightarrow> s = take i s @ sub @ drop (i + length sub) s"
proof (induction s arbitrary: i)
  case (Cons c cs)
  show ?case
  proof (cases "has_prefix (c # cs) sub")
    case True
    with Cons.prems show ?thesis by (auto simp: has_prefix_iff)
  next
    case False
    with Cons.prems obtain j where "index_str cs sub = Some j" "i = Suc j" by auto
    with Cons.IH show ?thesis by simp
  qed
qed (simp split: if_splits)

lemma join_split_str: "sep \<noteq> [] \<Longrightarrow> join_str (split_str s sep) sep = s"
proof (induction s sep rule: split_str.induct)
  case (1 s sep)
  show ?case
  proof (cases "index_str s sep")
    case None
    then show ?thesis by (subst split_str.simps) simp
  next
    case (Some i)
    have ne: "split_str (drop (i + length sep) s) sep \<noteq> []"
      using "1.prems" by simp
    have "join_str (split_str s sep) sep =
        take i s @ sep @ join_str (split_str (drop (i + length sep) s) sep) sep"
      using Some "1.prems" ne
      by (subst split_str.simps) (cases "split_str (drop (i + length sep) s) sep", auto)
    also have "\<dots> = s"
      using "1.IH" [OF Some] "1.prems" index_str_split [OF Some] by simp
    finally show ?thesis .
  qed
qed

lemma length_split_str_le: "x \<in> set (split_str s sep) \<Longrightarrow> sep \<noteq> [] \<Longrightarrow> length x \<le> length s"
proof (induction s sep rule: split_str.induct)
  case (1 s sep)
  show ?case
  proof (cases "index_str s sep")
    case None
    with "1.prems" show ?thesis by (subst (asm) split_str.simps) simp
  next
    case (Some i)
    with "1.prems" have "x = take i s \<or> x \<in> set (split_str (drop (i + length sep) s) sep)"
      by (subst (asm) split_str.simps) simp
    then show ?thesis
    proof
      assume "x = take i s"
      then show ?thesis by simp
    next
      assume "x \<in> set (split_str (drop (i + length sep) s) sep)"
      from "1.IH" [OF Some "1.prems"(2) this "1.prems"(2)] show ?thesis by simp
    qed
  qed
qed

lemma length_dropWhile_le: "length (dropWhile P xs) \<le> length xs"
  by (induction xs) auto

lemma length_trim_space_le: "length (trim_space s) \<le> length s"
  using length_dropWhile_le [of is_space s] length_dropWhile_le [of is_space "rev (dropWhile is_space s)"]
  by (simp add: trim_space_def)

lemma trim_space_id:
  assumes "s = [] \<or> (\<not> is_space (hd s) \<and> \<not> is_space (last s))"
  shows "trim_space s = s"
proof -
  have "dropWhile is_space s = s" and "dropWhile is_space (rev s) = rev s"
    using assms by (simp_all add: dropWhile_eq_self_iff hd_rev, auto)
  then show ?thesis by (simp add: trim_space_def)
qed

lemma rune_width_ascii: "(of_char c :: nat) < 128 \<Longrightarrow> rune_width (c # cs) = 1"
  by (simp add: rune_width_def)

lemma ascii_simps [simp]:
  "ascii []" "ascii (c # cs) \<longleftrightarrow> (of_char c :: nat) < 128 \<and> ascii cs"
  "ascii (s @ t) \<longleftrightarrow> ascii s \<and> ascii t"
  by (auto simp: ascii_def)

lemma runes_ascii: "ascii s \<Longrightarrow> runes s = map (\<lambda>c. [c]) s"
  by (induction s) (simp_all add: runes.simps(2) rune_width_ascii)

lemma length_runes_le: "length (runes s) \<le> length s"
proof (induction s rule: runes.induct)
  case (2 c cs)
  show ?case
  proof (cases "rune_width (c # cs) = 0")
    case True
    with "2.IH"(1) show ?thesis by (simp add: runes.simps(2))
  next
    case False
    with "2.IH"(2) [OF refl False] show ?thesis
      by (simp add: runes.simps(2) Let_def)
  qed
qed simp

end
