(* ===== verification/Go_Numbers.thy ===== *)
theory Go_Numbers
  imports Go_Prelude Complex_Main "HOL-Library.Log_Nat"
begin

text \<open>
  The two scalar types of the standard library that IDQL values are made of: \<open>float64\<close>, as
  \<open>strconv.ParseFloat\<close> builds it from a decimal literal, and \<open>time.Time\<close>, as
  \<open>time.Parse(time.RFC3339, _)\<close> reads it and \<open>Format(time.RFC3339)\<close> writes it.

  A finite \<open>float64\<close> is the rational number it denotes: a literal is read exactly and then
  rounded to the nearest binary64 value, ties to even, with a range error past the largest
  finite value.  NaN and the infinities are not literals of the value grammar and are left out.
\<close>

section \<open>float64\<close>

type_synonym float64 = rat

definition pow2 :: "int \<Rightarrow> rat" where
  "pow2 k = (if 0 \<le> k then 2 ^ nat k else 1 / 2 ^ nat (- k))"

text \<open>The exponent \<open>e\<close> with \<open>2\<^sup>e \<le> a < 2\<^sup>(e+1)\<close> of a positive rational.\<close>

definition floor_log2 :: "rat \<Rightarrow> int" where
  "floor_log2 a =
     (let (n, d) = quotient_of a; k = bitlen n - bitlen d in if pow2 k \<le> a then k else k - 1)"

definition round_even :: "rat \<Rightarrow> int" where
  "round_even q =
     (let f = \<lfloor>q\<rfloor>; r = q - of_int f in
      if r < 1 / 2 then f else if 1 / 2 < r then f + 1 else if even f then f else f + 1)"

definition round_float64 :: "rat \<Rightarrow> float64 option" where
  "round_float64 q =
     (if q = 0 then Some 0
      else
        (let a = \<bar>q\<bar>; e = max (floor_log2 a - 52) (- 1074);
             r = of_int (round_even (a / pow2 e)) * pow2 e
         in if pow2 1024 \<le> r then None else Some (if q < 0 then - r else r)))"

subsection \<open>Decimal literals\<close>

definition is_digit :: "char \<Rightarrow> bool" where
  "is_digit c = (let n = of_char c :: nat in 48 \<le> n \<and> n \<le> 57)"

definition digits_value :: "string \<Rightarrow> int" where
  "digits_value ds = foldl (\<lambda>a c. 10 * a + (int (of_char c) - 48)) 0 ds"

fun split_sign :: "string \<Rightarrow> bool \<times> string" where
  "split_sign (c # cs) =
     (if c = CHR ''-'' then (True, cs) else if c = CHR ''+'' then (False, cs) else (False, c # cs))"
| "split_sign [] = (False, [])"

text \<open>
  The decimal syntax of \<open>ParseFloat\<close>: sign, digits with an optional point, and an optional
  exponent.  At least one digit of the mantissa and, after \<open>e\<close>, of the exponent is needed.
\<close>

definition parse_decimal :: "string \<Rightarrow> rat option" where
  "parse_decimal s =
     (let (neg, s1) = split_sign s;
          ip = takeWhile is_digit s1; s2 = dropWhile is_digit s1;
          (fp, s3) = (case s2 of
                        c # r \<Rightarrow> if c = CHR ''.'' then (takeWhile is_digit r, dropWhile is_digit r)
                                 else ([], s2)
                      | [] \<Rightarrow> ([], []))
      in if ip = [] \<and> fp = [] then None
         else
           (let m = (of_int (digits_value (ip @ fp)) :: rat) / 10 ^ length fp;
                v = (if neg then - m else m)
            in case s3 of
                 [] \<Rightarrow> Some v
               | c # r \<Rightarrow>
                   if c = CHR ''e'' \<or> c = CHR ''E'' then
                     (let (eneg, ds) = split_sign r
                      in if ds = [] \<or> \<not> list_all is_digit ds then None
                         else if eneg then Some (v / 10 ^ nat (digits_value ds))
                         else Some (v * 10 ^ nat (digits_value ds)))
                   else None))"

definition parse_float :: "string \<Rightarrow> float64 res" where
  "parse_float s =
     (case parse_decimal s of
        None \<Rightarrow> Inl (Error ''strconv.ParseFloat: invalid syntax'')
      | Some q \<Rightarrow>
          (case round_float64 q of
             None \<Rightarrow> Inl (Error ''strconv.ParseFloat: value out of range'')
           | Some r \<Rightarrow> Inr r))"

section \<open>time.Time\<close>

text \<open>
  A parsed time keeps the wall clock of its own zone and the zone's offset in seconds;
  its instant is the number of seconds since 0000-03-01 and the nanoseconds.
\<close>

record gotime =
  year :: nat
  month :: nat
  day :: nat
  hour :: nat
  minute :: nat
  second :: nat
  nanos :: nat
  offset :: int

definition is_leap :: "nat \<Rightarrow> bool" where
  "is_leap y \<longleftrightarrow> 4 dvd y \<and> (\<not> 100 dvd y \<or> 400 dvd y)"

definition days_in :: "nat \<Rightarrow> nat \<Rightarrow> nat" where
  "days_in m y =
     (if m = 2 then (if is_leap y then 29 else 28)
      else if m \<in> {4, 6, 9, 11} then 30 else 31)"

text \<open>Days since 0000-03-01 of a proleptic Gregorian date.\<close>

definition day_number :: "nat \<Rightarrow> nat \<Rightarrow> nat \<Rightarrow> int" where
  "day_number y m d =
     (let y' = int y - (if m \<le> 2 then 1 else 0);
          m' = int ((m + 9) mod 12)
      in 365 * y' + y' div 4 - y' div 100 + y' div 400 + (153 * m' + 2) div 5 + int d - 1)"

datatype instant = Instant (epoch: int) (frac: nat)

definition instant_of :: "gotime \<Rightarrow> instant" where
  "instant_of t =
     Instant (86400 * day_number (year t) (month t) (day t)
              + int (3600 * hour t + 60 * minute t + second t) - offset t)
             (nanos t)"

instantiation instant :: linorder
begin

definition less_eq_instant :: "instant \<Rightarrow> instant \<Rightarrow> bool" where
  "less_eq_instant a b \<longleftrightarrow> epoch a < epoch b \<or> (epoch a = epoch b \<and> frac a \<le> frac b)"

definition less_instant :: "instant \<Rightarrow> instant \<Rightarrow> bool" where
  "less_instant a b \<longleftrightarrow> epoch a < epoch b \<or> (epoch a = epoch b \<and> frac a < frac b)"

instance
  by standard (auto simp: less_eq_instant_def less_instant_def instant.expand)

end

text \<open>\<open>t.Before(u)\<close> and \<open>t.Equal(u)\<close>.\<close>

definition time_before :: "gotime \<Rightarrow> gotime \<Rightarrow> bool" where
  "time_before t u \<longleftrightarrow> instant_of t < instant_of u"

definition time_equal :: "gotime \<Rightarrow> gotime \<Rightarrow> bool" where
  "time_equal t u \<longleftrightarrow> instant_of t = instant_of u"

subsection \<open>Parsing RFC 3339\<close>

definition take_num :: "nat \<Rightarrow> string \<Rightarrow> (nat \<times> string) option" where
  "take_num k s =
     (if k \<le> length s \<and> list_all is_digit (take k s)
      then Some (nat (digits_value (take k s)), drop k s) else None)"

definition expect :: "char \<Rightarrow> string \<Rightarrow> string option" where
  "expect c s = (case s of [] \<Rightarrow> None | d # r \<Rightarrow> if d = c then Some r else None)"

text \<open>The hour field takes one or two digits, the others a fixed number of them.\<close>

definition take_hour :: "string \<Rightarrow> (nat \<times> string) option" where
  "take_hour s = (case take_num 2 s of Some r \<Rightarrow> Some r | None \<Rightarrow> take_num 1 s)"

text \<open>A fraction after the seconds is accepted although the layout has none.\<close>

definition take_fraction :: "string \<Rightarrow> nat \<times> string" where
  "take_fraction s =
     (case s of
        c # d # r \<Rightarrow>
          if (c = CHR ''.'' \<or> c = CHR '','') \<and> is_digit d then
            (let ds = takeWhile is_digit (d # r); k = take 9 (ds @ replicate 9 (CHR ''0''))
             in (nat (digits_value k), dropWhile is_digit (d # r)))
          else (0, s)
      | _ \<Rightarrow> (0, s))"

definition take_zone :: "string \<Rightarrow> int option" where
  "take_zone s =
     (if s = ''Z'' then Some 0
      else
        (case s of
           [] \<Rightarrow> None
         | sg # r \<Rightarrow>
             if sg = CHR ''+'' \<or> sg = CHR ''-'' then
               Option.bind (take_num 2 r) (\<lambda>(h, r1).
               Option.bind (expect (CHR '':'') r1) (\<lambda>r2.
               Option.bind (take_num 2 r2) (\<lambda>(m, r3).
                 if r3 = [] \<and> h \<le> 24 \<and> m \<le> 60
                 then Some ((if sg = CHR ''-'' then - 1 else 1) * int (3600 * h + 60 * m))
                 else None)))
             else None))"

definition parse_rfc3339 :: "string \<Rightarrow> gotime option" where
  "parse_rfc3339 s =
     Option.bind (take_num 4 s) (\<lambda>(y, s1).
     Option.bind (expect (CHR ''-'') s1) (\<lambda>s2.
     Option.bind (take_num 2 s2) (\<lambda>(mo, s3).
     Option.bind (expect (CHR ''-'') s3) (\<lambda>s4.
     Option.bind (take_num 2 s4) (\<lambda>(d, s5).
     Option.bind (expect (CHR ''T'') s5) (\<lambda>s6.
     Option.bind (take_hour s6) (\<lambda>(h, s7).
     Option.bind (expect (CHR '':'') s7) (\<lambda>s8.
     Option.bind (take_num 2 s8) (\<lambda>(mi, s9).
     Option.bind (expect (CHR '':'') s9) (\<lambda>s10.
     Option.bind (take_num 2 s10) (\<lambda>(sec, s11).
       let (ns, s12) = take_fraction s11 in
       Option.bind (take_zone s12) (\<lambda>off.
         if 1 \<le> mo \<and> mo \<le> 12 \<and> 1 \<le> d \<and> d \<le> days_in mo y \<and> h < 24 \<and> mi < 60 \<and> sec < 60
         then Some \<lparr>year = y, month = mo, day = d, hour = h, minute = mi, second = sec,
                    nanos = ns, offset = off\<rparr>
         else None))))))))))))"

text \<open>Zero-padded decimal fields, as the layout prints them.\<close>

definition pad2 :: "nat \<Rightarrow> string" where
  "pad2 n = [char_of (n div 10 mod 10 + 48), char_of (n mod 10 + 48)]"

definition pad4 :: "nat \<Rightarrow> string" where
  "pad4 n = pad2 (n div 100) @ pad2 (n mod 100)"

definition format_rfc3339 :: "gotime \<Rightarrow> string" where
  "format_rfc3339 t =
     pad4 (year t) @ ''-'' @ pad2 (month t) @ ''-'' @ pad2 (day t) @ ''T'' @
     pad2 (hour t) @ '':'' @ pad2 (minute t) @ '':'' @ pad2 (second t) @
     (if offset t = 0 then ''Z''
      else (let z = nat \<bar>offset t\<bar> div 60
            in (if offset t < 0 then ''-'' else ''+'') @ pad2 (z div 60) @ '':'' @ pad2 (z mod 60)))"

section \<open>Printing and reading a time are inverse\<close>

lemma is_digit_char_of: "(n::nat) < 10 \<Longrightarrow> is_digit (char_of (n + 48))"
  by (simp add: is_digit_def Let_def)

lemma digits_value_pad2: "n < 100 \<Longrightarrow> digits_value (pad2 n) = int n"
proof -
  assume "n < 100"
  then have "n div 10 mod 10 = n div 10" by simp
  moreover have "10 * (n div 10) + n mod 10 = n" by simp
  then have "10 * int (n div 10) + int (n mod 10) = int n" by linarith
  ultimately show ?thesis by (simp add: digits_value_def pad2_def)
qed

lemma list_all_pad2: "list_all is_digit (pad2 n)"
  by (simp add: pad2_def is_digit_char_of)

lemma length_pad [simp]: "length (pad2 n) = 2" "length (pad4 n) = 4"
  by (simp_all add: pad2_def pad4_def)

lemma take_num_pad2: "n < 100 \<Longrightarrow> take_num 2 (pad2 n @ s) = Some (n, s)"
  using digits_value_pad2 [of n] list_all_pad2 [of n] by (simp add: take_num_def)

lemma digits_value_pad4: "n < 10000 \<Longrightarrow> digits_value (pad4 n) = int n"
proof -
  assume n: "n < 10000"
  have "digits_value (pad4 n) = 100 * digits_value (pad2 (n div 100)) + digits_value (pad2 (n mod 100))"
    by (simp add: digits_value_def pad4_def pad2_def)
  also have "\<dots> = int n"
    using n by (simp add: digits_value_pad2 of_nat_div of_nat_mod)
  finally show ?thesis .
qed

lemma take_num_pad4: "n < 10000 \<Longrightarrow> take_num 4 (pad4 n @ s) = Some (n, s)"
  using digits_value_pad4 [of n] by (simp add: take_num_def pad4_def list_all_pad2)

lemma take_hour_pad2: "n < 100 \<Longrightarrow> take_hour (pad2 n @ s) = Some (n, s)"
  by (simp add: take_hour_def take_num_pad2)

lemma expect_Cons [simp]: "expect c (c # s) = Some s"
  by (simp add: expect_def)

lemmas rfc3339_fields = take_num_pad2 take_num_pad4 take_hour_pad2

definition canonical_time :: "gotime \<Rightarrow> bool" where
  "canonical_time t \<longleftrightarrow>
     year t < 10000 \<and> 1 \<le> month t \<and> month t \<le> 12 \<and> 1 \<le> day t \<and> day t \<le> days_in (month t) (year t) \<and>
     hour t < 24 \<and> minute t < 60 \<and> second t < 60 \<and> nanos t = 0 \<and>
     (\<exists>z. z < 25 * 60 \<and> \<bar>offset t\<bar> = 60 * int z)"

lemma take_zone_sign:
  assumes "h < 25" and "m < 60" and "sg = CHR ''+'' \<or> sg = CHR ''-''"
  shows "take_zone (sg # pad2 h @ CHR '':'' # pad2 m) =
    Some ((if sg = CHR ''-'' then - 1 else 1) * int (3600 * h + 60 * m))"
proof -
  have "take_num 2 (pad2 h @ CHR '':'' # pad2 m) = Some (h, CHR '':'' # pad2 m)"
    using assms(1) by (simp add: take_num_pad2)
  moreover have "take_num 2 (pad2 m) = Some (m, [])"
    using take_num_pad2 [of m "[]"] assms(2) by simp
  moreover have "sg # pad2 h @ CHR '':'' # pad2 m \<noteq> ''Z''"
    by (simp add: pad2_def)
  ultimately show ?thesis
    using assms by (simp add: take_zone_def del: of_nat_mult of_nat_add)
qed

lemma take_fraction_none:
  "s = [] \<or> (hd s \<noteq> CHR ''.'' \<and> hd s \<noteq> CHR '','') \<Longrightarrow> take_fraction s = (0, s)"
  by (auto simp: take_fraction_def split: list.splits)

lemma days_in_le: "days_in m y \<le> 31"
  by (simp add: days_in_def)

theorem parse_format_rfc3339:
  assumes "canonical_time t"
  shows "parse_rfc3339 (format_rfc3339 t) = Some t"
proof -
  from assms obtain z where z: "z < 25 * 60" "\<bar>offset t\<bar> = 60 * int z"
    and f: "year t < 10000" "1 \<le> month t" "month t \<le> 12" "1 \<le> day t" "day t \<le> days_in (month t) (year t)"
      "hour t < 24" "minute t < 60" "second t < 60" "nanos t = 0"
    by (auto simp: canonical_time_def)
  define zs where "zs = (if offset t = 0 then ''Z''
      else (let z = nat \<bar>offset t\<bar> div 60
            in (if offset t < 0 then ''-'' else ''+'') @ pad2 (z div 60) @ '':'' @ pad2 (z mod 60)))"
  have zone: "take_zone zs = Some (offset t)"
  proof (cases "offset t = 0")
    case False
    have abs: "nat \<bar>offset t\<bar> div 60 = z" using z(2) by simp
    have "z div 60 < 25" "z mod 60 < 60" using z(1) by auto
    moreover have "60 * (z div 60) + z mod 60 = z" by simp
    then have "3600 * (z div 60) + 60 * (z mod 60) = 60 * z" by linarith
    ultimately have "z div 60 < 25" "z mod 60 < 60" "3600 * (z div 60) + 60 * (z mod 60) = 60 * z"
      by blast+
    with take_zone_sign [of "z div 60" "z mod 60" "if offset t < 0 then CHR ''-'' else CHR ''+''"]
    have "take_zone ((if offset t < 0 then CHR ''-'' else CHR ''+'') # pad2 (z div 60) @ CHR '':'' #
        pad2 (z mod 60)) = Some ((if offset t < 0 then - 1 else 1) * int (60 * z))"
      by (simp del: of_nat_mult of_nat_add split: if_splits)
    moreover have "(if offset t < 0 then - 1 else 1) * int (60 * z) = offset t"
      using z(2) by (auto split: if_splits)
    moreover have "zs = (if offset t < 0 then CHR ''-'' else CHR ''+'') # pad2 (z div 60) @ CHR '':'' #
        pad2 (z mod 60)"
      using False by (simp add: zs_def Let_def abs)
    ultimately show ?thesis by simp
  qed (simp add: zs_def take_zone_def)
  have frac: "take_fraction zs = (0, zs)"
    by (rule take_fraction_none) (simp add: zs_def Let_def)
  have fields: "month t < 100" "day t < 100" "hour t < 100" "minute t < 100" "second t < 100"
    using f days_in_le [of "month t" "year t"] by auto
  have "format_rfc3339 t = pad4 (year t) @ CHR ''-'' # pad2 (month t) @ CHR ''-'' # pad2 (day t) @ CHR ''T'' #
     pad2 (hour t) @ CHR '':'' # pad2 (minute t) @ CHR '':'' # pad2 (second t) @ zs"
    by (simp add: format_rfc3339_def zs_def)
  then show ?thesis
    using f fields by (simp add: parse_rfc3339_def rfc3339_fields zone frac)
qed

end
