(* ===== verification/Go_Json.thy ===== *)
theory Go_Json
  imports Go_Numbers
begin

text \<open>
  What the program uses of \<open>encoding/json\<close>: splitting an object into its fields with their raw
  text (\<open>json.Unmarshal\<close> into \<open>map[string]*json.RawMessage\<close>), and \<open>json.Marshal\<close> of strings,
  string slices and objects with ordered fields.
\<close>

section \<open>Scanning\<close>

definition json_space :: "char \<Rightarrow> bool" where
  "json_space c = (let n = of_char c :: nat in n = 32 \<or> n = 9 \<or> n = 10 \<or> n = 13)"

definition skip_ws :: "string \<Rightarrow> string" where
  "skip_ws s = dropWhile json_space s"

text \<open>A string after its opening quote: the decoded text and what follows the closing quote.\<close>

definition json_escape :: "char \<Rightarrow> char option" where
  "json_escape c =
     (if c \<in> {dq, bslash, CHR ''/''} then Some c
      else if c = CHR ''b'' then Some (char_of (8::nat))
      else if c = CHR ''f'' then Some (char_of (12::nat))
      else if c = CHR ''n'' then Some newline
      else if c = CHR ''r'' then Some (char_of (13::nat))
      else if c = CHR ''t'' then Some (char_of (9::nat))
      else None)"

text \<open>A \<open>\u\<close> escape may be the first half of a surrogate pair; a lone half becomes U+FFFD.\<close>

definition json_unicode :: "string \<Rightarrow> (string \<times> nat) option" where
  "json_unicode r =
     (if length r < 4 then None
      else
        (case hex_number 0 (take 4 r) of
           None \<Rightarrow> None
         | Some n \<Rightarrow>
             if 55296 \<le> n \<and> n \<le> 56319 \<and> length r \<ge> 10 \<and> take 2 (drop 4 r) = [bslash, CHR ''u''] then
               (case hex_number 0 (take 4 (drop 6 r)) of
                  None \<Rightarrow> Some (utf8_encode n, 4)
                | Some m \<Rightarrow>
                    if 56320 \<le> m \<and> m \<le> 57343
                    then Some (utf8_encode (65536 + (n - 55296) * 1024 + (m - 56320)), 10)
                    else Some (utf8_encode n, 4))
             else Some (utf8_encode n, 4)))"

function scan_string :: "string \<Rightarrow> (string \<times> string) option" where
  "scan_string [] = None"
| "scan_string (c # cs) =
     (if c = dq then Some ([], cs)
      else if (of_char c :: nat) < 32 then None
      else if c \<noteq> bslash then map_option (apfst ((#) c)) (scan_string cs)
      else
        (case cs of
           [] \<Rightarrow> None
         | e # r \<Rightarrow>
             if e = CHR ''u'' then
               (case json_unicode r of
                  None \<Rightarrow> None
                | Some (t, k) \<Rightarrow> map_option (apfst ((@) t)) (scan_string (drop k r)))
             else
               (case json_escape e of
                  None \<Rightarrow> None
                | Some d \<Rightarrow> map_option (apfst ((#) d)) (scan_string r))))"
  by pat_completeness auto
termination
  by (relation "measure length") auto

declare scan_string.simps(2) [simp del]

text \<open>The longest prefix that is a JSON number, and the rest.\<close>

definition scan_digits1 :: "string \<Rightarrow> string option" where
  "scan_digits1 s = (if s \<noteq> [] \<and> is_digit (hd s) then Some (dropWhile is_digit s) else None)"

definition scan_int :: "string \<Rightarrow> string option" where
  "scan_int s =
     (case s of [] \<Rightarrow> None
      | c # r \<Rightarrow> if c = CHR ''0'' then Some r else scan_digits1 s)"

definition scan_number :: "string \<Rightarrow> string option" where
  "scan_number s =
     Option.bind (scan_int (trim_prefix s ''-'')) (\<lambda>r.
     Option.bind (if has_prefix r ''.'' then scan_digits1 (drop 1 r) else Some r) (\<lambda>r1.
       if has_prefix r1 ''e'' \<or> has_prefix r1 ''E'' then
         scan_digits1 (if has_prefix (drop 1 r1) ''+'' \<or> has_prefix (drop 1 r1) ''-''
                       then drop 2 r1 else drop 1 r1)
       else Some r1))"

text \<open>
  A value starts at its first byte; the result is what follows it.  The comparisons of lengths
  only serve termination: every scanner consumes input.
\<close>

function scan_value :: "string \<Rightarrow> string option"
  and scan_elems :: "string \<Rightarrow> string option"
  and scan_members :: "string \<Rightarrow> ((string \<times> string) list \<times> string) option" where
  "scan_value s =
     (case s of
        [] \<Rightarrow> None
      | c # r \<Rightarrow>
          if c = dq then map_option snd (scan_string r)
          else if c = CHR ''{'' then
            (if has_prefix (skip_ws r) ''}'' then Some (drop 1 (skip_ws r))
             else if length (skip_ws r) < length s then map_option snd (scan_members (skip_ws r))
             else None)
          else if c = CHR ''['' then
            (if has_prefix (skip_ws r) '']'' then Some (drop 1 (skip_ws r))
             else if length (skip_ws r) < length s then scan_elems (skip_ws r)
             else None)
          else if has_prefix s ''true'' then Some (drop 4 s)
          else if has_prefix s ''false'' then Some (drop 5 s)
          else if has_prefix s ''null'' then Some (drop 4 s)
          else scan_number s)"
| "scan_elems s =
     (case scan_value s of
        None \<Rightarrow> None
      | Some r \<Rightarrow>
          (case skip_ws r of
             [] \<Rightarrow> None
           | c # r1 \<Rightarrow>
               if c = CHR '']'' then Some r1
               else if c = CHR '','' \<and> length (skip_ws r1) < length s then scan_elems (skip_ws r1)
               else None))"
| "scan_members s =
     (if \<not> has_prefix s [dq] then None
      else
        (case scan_string (drop 1 s) of
           None \<Rightarrow> None
         | Some (k, r) \<Rightarrow>
             (case skip_ws r of
                [] \<Rightarrow> None
              | c # r1 \<Rightarrow>
                  (let v = skip_ws r1 in
                   if c \<noteq> CHR '':'' \<or> \<not> length v < length s then None
                   else
                     (case scan_value v of
                        None \<Rightarrow> None
                      | Some r2 \<Rightarrow>
                          (let raw = take (length v - length r2) v in
                           case skip_ws r2 of
                             [] \<Rightarrow> None
                           | d # r3 \<Rightarrow>
                               if d = CHR ''}'' then Some ([(k, raw)], r3)
                               else if d = CHR '','' \<and> length (skip_ws r3) < length s then
                                 map_option (apfst ((#) (k, raw))) (scan_members (skip_ws r3))
                               else None))))))"
  by pat_completeness auto
termination
  by (relation "measures
        [\<lambda>x. case x of Inl s \<Rightarrow> length s | Inr (Inl s) \<Rightarrow> length s | Inr (Inr s) \<Rightarrow> length s,
         \<lambda>x. case x of Inl s \<Rightarrow> 0 | _ \<Rightarrow> 1]") auto

declare scan_value.simps [simp del] scan_elems.simps [simp del] scan_members.simps [simp del]

text \<open>
  \<open>json.Unmarshal\<close> of an object into a map of raw fields; a repeated key keeps its last value.
\<close>

definition json_object_fields :: "string \<Rightarrow> string go_map res" where
  "json_object_fields s =
     (let t = skip_ws s; bad = Inl (Error ''invalid JSON'') in
      if \<not> has_prefix t ''{'' then bad
      else if has_prefix (skip_ws (drop 1 t)) ''}'' then
        (if skip_ws (drop 1 (skip_ws (drop 1 t))) = [] then Inr [] else bad)
      else
        (case scan_members (skip_ws (drop 1 t)) of
           None \<Rightarrow> bad
         | Some (fs, r) \<Rightarrow>
             if skip_ws r = [] then Inr (fold (\<lambda>(k, v) m. AList.update k v m) fs []) else bad))"

lemma json_object_fields_ok: "json_object_fields s = Inr m \<Longrightarrow> go_map_ok m"
proof -
  have "go_map_ok (fold (\<lambda>(k, v) m. AList.update k v m) fs m)" if "go_map_ok m" for fs :: "(string \<times> string) list" and m
    using that by (induction fs arbitrary: m) (auto simp: go_map_ok_update)
  then show "json_object_fields s = Inr m \<Longrightarrow> go_map_ok m"
    by (auto simp: json_object_fields_def Let_def split: if_splits option.splits prod.splits)
qed

section \<open>Marshalling\<close>

definition json_quote_char :: "char \<Rightarrow> string" where
  "json_quote_char c =
     (let n = of_char c :: nat in
      if c = dq then [bslash, dq]
      else if c = bslash then [bslash, bslash]
      else if n = 8 then [bslash, CHR ''b'']
      else if n = 12 then [bslash, CHR ''f'']
      else if n = 10 then [bslash, CHR ''n'']
      else if n = 13 then [bslash, CHR ''r'']
      else if n = 9 then [bslash, CHR ''t'']
      else if n < 32 \<or> c \<in> {CHR ''<'', CHR ''>'', CHR ''&''} then
        [bslash, CHR ''u'', CHR ''0'', CHR ''0'', hex_digit (n div 16), hex_digit (n mod 16)]
      else [c])"

definition marshal_string :: "string \<Rightarrow> string" where
  "marshal_string s = dq # concat (map json_quote_char s) @ [dq]"

definition marshal_strings :: "string slice \<Rightarrow> string" where
  "marshal_strings xs =
     (case xs of
        None \<Rightarrow> ''null''
      | Some ys \<Rightarrow> ''['' @ join_str (map marshal_string ys) '','' @ '']'')"

text \<open>An object from the fields that \<open>omitempty\<close> leaves, in their order, with marshalled values.\<close>

definition marshal_object :: "(string \<times> string) list \<Rightarrow> string" where
  "marshal_object fs =
     ''{'' @ join_str (map (\<lambda>(k, v). marshal_string k @ '':'' @ v) fs) '','' @ ''}''"

section \<open>Raw fields are shorter than the object; strings survive marshalling\<close>

lemma length_skip_ws_le: "length (skip_ws s) \<le> length s"
  by (simp add: skip_ws_def length_dropWhile_le)

lemma scan_members_shorter:
  "True" "True" "scan_members s = Some (fs, r) \<Longrightarrow> (k, v) \<in> set fs \<Longrightarrow> length v < length s"
proof (induction s and s and s arbitrary: and and fs r rule: scan_value_scan_elems_scan_members.induct)
  case (3 s)
  from 3(3) obtain k' r0 c r1 where
    head: "has_prefix s [dq]" "scan_string (drop 1 s) = Some (k', r0)" "skip_ws r0 = c # r1"
    by (auto simp: scan_members.simps [of s] split: if_splits option.splits list.splits)
  define w where "w = skip_ws r1"
  from 3(3) head obtain r2 d r3 where
    body: "c = CHR '':''" "length w < length s" "scan_value w = Some r2" "skip_ws r2 = d # r3"
    by (auto simp: scan_members.simps [of s] w_def [symmetric] Let_def split: if_splits option.splits list.splits)
  define raw where "raw = take (length w - length r2) w"
  have raw: "length raw < length s" using body(2) by (simp add: raw_def)
  show ?case
  proof (cases "d = CHR ''}''")
    case True
    with 3(3) head body have "fs = [(k', raw)]"
      by (simp add: scan_members.simps [of s] w_def [symmetric] raw_def Let_def)
    with 3(4) raw show ?thesis by simp
  next
    case False
    with 3(3) head body have "d = CHR '',''" "length (skip_ws r3) < length s"
      by (auto simp: scan_members.simps [of s] w_def [symmetric] Let_def split: if_splits)
    with False 3(3) head body obtain fs' where
      rest: "scan_members (skip_ws r3) = Some (fs', r)" "fs = (k', raw) # fs'"
      by (auto simp: scan_members.simps [of s] w_def [symmetric] raw_def Let_def)
    show ?thesis
    proof (cases "(k, v) = (k', raw)")
      case True
      with raw show ?thesis by simp
    next
      case False
      with rest(2) 3(4) have "(k, v) \<in> set fs'" by auto
      then have "length v < length (skip_ws r3)"
        using 3(2) rest(1) head body \<open>d \<noteq> CHR ''}''\<close> \<open>d = CHR '',''\<close>
          \<open>length (skip_ws r3) < length s\<close> by (simp add: w_def)
      with \<open>length (skip_ws r3) < length s\<close> show ?thesis by simp
    qed
  qed
qed simp_all

lemma fold_update_set:
  "(k, v) \<in> set (fold (\<lambda>(k, v) m. AList.update k v m) fs m) \<Longrightarrow> (k, v) \<in> set fs \<union> set m"
proof (induction fs arbitrary: m)
  case (Cons f fs)
  obtain a b where f: "f = (a, b)" by (cases f)
  have "set (AList.update a b m) \<subseteq> insert (a, b) (set m)"
    by (induction m) auto
  with Cons.IH [of "AList.update a b m"] Cons.prems f show ?case by auto
qed simp

lemma json_object_fields_shorter:
  assumes "json_object_fields s = Inr m" and "(k, v) \<in> set m"
  shows "length v < length s"
proof -
  define t where "t = skip_ws s"
  define u where "u = skip_ws (drop 1 t)"
  from assms obtain fs r where fs: "has_prefix t ''{''" "scan_members u = Some (fs, r)"
    "m = fold (\<lambda>(k, v) m. AList.update k v m) fs []"
    by (auto simp: json_object_fields_def t_def [symmetric] u_def [symmetric] Let_def
        simp del: One_nat_def split: if_splits option.splits)
  from fs(3) assms(2) have "(k, v) \<in> set fs" using fold_update_set [of k v fs "[]"] by simp
  then have "length v < length u" by (rule scan_members_shorter(3) [OF fs(2)])
  also have "length u \<le> length s"
    using length_skip_ws_le [of s] length_skip_ws_le [of "drop 1 t"]
    by (simp add: t_def u_def)
  finally show ?thesis .
qed

lemma char_of_10: "char_of (10::nat) = newline"
  by (simp add: char_of_eq_iff)

lemma scan_string_quote_char:
  "scan_string (json_quote_char c @ cs) = map_option (apfst ((#) c)) (scan_string cs)"
proof -
  define n where "n = (of_char c :: nat)"
  have c: "c = char_of n" and n: "n < 256" by (simp_all add: n_def)
  consider "n = 34" | "n = 92" | "n = 8" | "n = 12" | "n = 10" | "n = 13" | "n = 9"
    | "n \<notin> {34, 92, 8, 12, 10, 13, 9}" "n < 32 \<or> c \<in> {CHR ''<'', CHR ''>'', CHR ''&''}"
    | "n \<notin> {34, 92, 8, 12, 10, 13, 9}" "\<not> (n < 32 \<or> c \<in> {CHR ''<'', CHR ''>'', CHR ''&''})"
    by auto
  then show ?thesis
  proof cases
    case 8
    then have q: "json_quote_char c =
        [bslash, CHR ''u'', CHR ''0'', CHR ''0'', hex_digit (n div 16), hex_digit (n mod 16)]"
      by (auto simp: json_quote_char_def Let_def n_def)
    have "n < 128" using 8 by (auto simp: n_def)
    then have "n div 16 < 16" by auto
    moreover have "hex_value (CHR ''0'') = Some 0" by (simp add: hex_value_def)
    ultimately have "hex_number 0 [CHR ''0'', CHR ''0'', hex_digit (n div 16), hex_digit (n mod 16)] = Some n"
      by (simp add: hex_value_digit)
    with \<open>n < 128\<close> have "json_unicode (CHR ''0'' # CHR ''0'' # hex_digit (n div 16) # hex_digit (n mod 16) # cs)
        = Some ([c], 4)"
      by (simp add: json_unicode_def utf8_encode_def c del: hex_number.simps)
    then show ?thesis by (simp add: q scan_string.simps(2))
  next
    case 9
    then have "json_quote_char c = [c]" "c \<noteq> dq" "c \<noteq> bslash" "\<not> (of_char c :: nat) < 32"
      by (auto simp: json_quote_char_def Let_def n_def)
    then show ?thesis by (simp add: scan_string.simps(2))
  qed (simp_all add: c char_of_10 char_of_codes char_of_eq_iff json_quote_char_def scan_string.simps(2) json_escape_def)
qed

lemma scan_string_marshal: "scan_string (drop 1 (marshal_string s @ r)) = Some (s, r)"
proof -
  have "scan_string (concat (map json_quote_char s) @ dq # r) = Some (s, r)"
  proof (induction s)
    case Nil
    show ?case by (simp add: scan_string.simps(2))
  next
    case (Cons c s)
    then show ?case by (simp add: scan_string_quote_char)
  qed
  then show ?thesis by (simp add: marshal_string_def)
qed

lemma marshal_string_inj: "marshal_string s @ r = marshal_string t @ u \<Longrightarrow> s = t \<and> r = u"
  using scan_string_marshal [of s r] scan_string_marshal [of t u] by simp

end
