(* ===== verification/Hexa_Types.thy ===== *)
theory Hexa_Types
  imports Go_Json
begin

text \<open>
  The package \<^verbatim>\<open>pkg/hexapolicy/types\<close>: entities (\<^verbatim>\<open>entity.go\<close>), the comparable scalar
  values (\<^verbatim>\<open>string.go\<close>, \<^verbatim>\<open>numeric.go\<close>, \<^verbatim>\<open>date.go\<close>, \<^verbatim>\<open>boolean.go\<close>, \<^verbatim>\<open>emptyValue.go\<close>), arrays
  and objects, their comparison \<open>CompareValues\<close> and their parser \<open>ParseValue\<close> (\<^verbatim>\<open>value.go\<close>).

  The struct \<open>Entity\<close> is a tagged union: \<open>Type\<close> says which of \<open>Types\<close>, \<open>Id\<close> and \<open>In\<close> are set.
  Every construction in the program sets exactly the fields of its tag, so the model has one
  constructor per tag; \<open>entity_types\<close>, \<open>entity_id\<close> and \<open>entity_in\<close> read the fields, an unset one
  being nil.  A nil \<open>Types\<close> is the empty list.
\<close>

section \<open>Entities\<close>

datatype entity =
    EAny
  | EAnyAuthenticated
  | EIs "string list"
  | EIsIn "string list" "entity list"
  | EIn "entity list"
  | EEquals "string list" string
  | EEmpty

fun entity_types :: "entity \<Rightarrow> string list" where
  "entity_types (EIs ts) = ts"
| "entity_types (EIsIn ts _) = ts"
| "entity_types (EEquals ts _) = ts"
| "entity_types _ = []"

fun entity_id :: "entity \<Rightarrow> string option" where
  "entity_id (EEquals _ i) = Some i"
| "entity_id _ = None"

fun entity_in :: "entity \<Rightarrow> entity list option" where
  "entity_in (EIsIn _ es) = Some es"
| "entity_in (EIn es) = Some es"
| "entity_in _ = None"

text \<open>The constants \<open>RelType...\<close>.\<close>

fun rel_type :: "entity \<Rightarrow> string" where
  "rel_type EAny = ''any''"
| "rel_type EAnyAuthenticated = ''anyAuthenticated''"
| "rel_type (EIs _) = ''is''"
| "rel_type (EIsIn _ _) = ''isIn''"
| "rel_type (EIn _) = ''in''"
| "rel_type (EEquals _ _) = ''eq''"
| "rel_type EEmpty = ''nil''"

subsection \<open>ParseEntity\<close>

text \<open>
  The loop over the runes of the text.  Its state: the type path, the members of the sets read
  so far (the code parses each where it is found, the model below after the loop), the two
  string builders and whether a set is open.
\<close>

record scan_state =
  type_path :: "string list"
  set_members :: "string list"
  sb :: string
  setb :: string
  is_set :: bool

definition entity_scan_init :: scan_state where
  "entity_scan_init = \<lparr>type_path = [], set_members = [], sb = [], setb = [], is_set = False\<rparr>"

definition entity_scan_step :: "scan_state \<Rightarrow> char \<Rightarrow> scan_state" where
  "entity_scan_step st r =
     (if r = CHR '':'' \<and> \<not> is_set st then
        st\<lparr>type_path := type_path st @ [sb st], sb := []\<rparr>
      else if r = CHR ''['' then
        (if sb st \<noteq> [] then st\<lparr>is_set := True, type_path := type_path st @ [sb st], sb := []\<rparr>
         else st\<lparr>is_set := True\<rparr>)
      else if r = CHR '']'' then
        st\<lparr>is_set := False, set_members := set_members st @ split_str (setb st) '','', setb := []\<rparr>
      else if is_set st then st\<lparr>setb := setb st @ [r]\<rparr>
      else st\<lparr>sb := sb st @ [r]\<rparr>)"

definition entity_scan :: "string \<Rightarrow> scan_state" where
  "entity_scan value = foldl entity_scan_step entity_scan_init value"

text \<open>Set members are shorter than the text they come from, so \<open>ParseEntity\<close> terminates.\<close>

definition scan_small :: "nat \<Rightarrow> scan_state \<Rightarrow> bool" where
  "scan_small n st \<longleftrightarrow> length (setb st) \<le> n \<and> (\<forall>m \<in> set (set_members st). length m < n)"

lemma entity_scan_step_small: "scan_small n st \<Longrightarrow> scan_small (Suc n) (entity_scan_step st r)"
proof -
  assume "scan_small n st"
  moreover have "length m \<le> length (setb st)" if "m \<in> set (split_str (setb st) '','')" for m
    using that by (rule length_split_str_le) simp
  ultimately show ?thesis
    by (fastforce simp: scan_small_def entity_scan_step_def)
qed

lemma foldl_entity_scan_small:
  "scan_small n st \<Longrightarrow> scan_small (n + length v) (foldl entity_scan_step st v)"
proof (induction v arbitrary: n st)
  case (Cons r v)
  from entity_scan_step_small [OF Cons.prems, of r] Cons.IH [of "Suc n"] show ?case by simp
qed simp

lemma set_members_shorter: "m \<in> set (set_members (entity_scan v)) \<Longrightarrow> length m < length v"
  using foldl_entity_scan_small [of 0 entity_scan_init v]
  by (simp add: scan_small_def entity_scan_init_def entity_scan_def)

text \<open>The decision after the loop, given the parsed members.\<close>

definition entity_of_scan :: "scan_state \<Rightarrow> entity list \<Rightarrow> entity" where
  "entity_of_scan st sets =
     (if sb st \<noteq> [] \<and> equal_fold (sb st) ''any'' then EAny
      else if sb st \<noteq> [] \<and> equal_fold (sb st) ''anyauthenticated'' then EAnyAuthenticated
      else if sets \<noteq> [] then
        (if type_path st = [] then EIn sets else EIsIn (type_path st) sets)
      else if sb st = [] then EIs (type_path st)
      else EEquals (type_path st) (sb st))"

function parse_entity :: "string \<Rightarrow> entity" where
  "parse_entity value =
     (if value = [] then EEmpty
      else entity_of_scan (entity_scan value) (map parse_entity (set_members (entity_scan value))))"
  by pat_completeness auto
termination
  by (relation "measure length") (auto dest: set_members_shorter)

declare parse_entity.simps [simp del]

subsection \<open>Reading and printing entities\<close>

definition entity_is_path :: "entity \<Rightarrow> bool res" where
  "entity_is_path e = rbind (go_deref (entity_id e)) (\<lambda>i. Inr (\<not> has_prefix i [dq]))"

definition entity_get_id :: "entity \<Rightarrow> string" where
  "entity_get_id e =
     (case entity_id e of
        None \<Rightarrow> []
      | Some val \<Rightarrow> if \<not> has_prefix val [dq] then val else unquote_or_empty val)"

fun entity_string :: "entity \<Rightarrow> string" where
  "entity_string EAny = ''any''"
| "entity_string EAnyAuthenticated = ''anyAuthenticated''"
| "entity_string (EEquals ts i) = (if ts = [] then i else join_str ts '':'' @ '':'' @ i)"
| "entity_string (EIs ts) = join_str ts '':'' @ '':''"
| "entity_string (EIsIn ts es) =
     join_str ts '':'' @ ''['' @ join_str (map entity_string es) '','' @ '']''"
| "entity_string (EIn es) = ''['' @ join_str (map entity_string es) '','' @ '']''"
| "entity_string EEmpty = []"

definition entity_get_type :: "entity \<Rightarrow> string" where
  "entity_get_type e =
     (case e of
        EAny \<Rightarrow> ''any''
      | EAnyAuthenticated \<Rightarrow> ''anyAuthenticated''
      | _ \<Rightarrow> if entity_types e = [] then [] else last (entity_types e))"

definition entity_get_namespace :: "entity \<Rightarrow> string \<Rightarrow> string" where
  "entity_get_namespace e def = (if length (entity_types e) > 1 then hd (entity_types e) else def)"

section \<open>Values\<close>

record numeric =
  num_value :: float64
  num_raw :: string

text \<open>The types that implement \<open>ComparableValue\<close>, and those that implement \<open>Value\<close>.\<close>

datatype comparable =
    CString string
  | CNumeric numeric
  | CDate gotime
  | CBool bool
  | CEmpty entity

datatype idql_value =
    VEntity entity
  | VComp comparable
  | VArray "comparable list"
  | VObject "(string \<times> idql_value) list"

datatype vtype =
    TypeVariable | TypeString | TypeNumber | TypeDate | TypeBool | TypeArray | TypeObject
  | TypeUnassigned

fun type_name :: "vtype \<Rightarrow> string" where
  "type_name TypeVariable = ''Entity''"
| "type_name TypeString = ''String''"
| "type_name TypeNumber = ''Number''"
| "type_name TypeDate = ''Date''"
| "type_name TypeBool = ''Bool''"
| "type_name TypeArray = ''Array''"
| "type_name TypeObject = ''Object''"
| "type_name TypeUnassigned = ''Unassigned''"

fun comparable_type :: "comparable \<Rightarrow> vtype" where
  "comparable_type (CString _) = TypeString"
| "comparable_type (CNumeric _) = TypeNumber"
| "comparable_type (CDate _) = TypeDate"
| "comparable_type (CBool _) = TypeBool"
| "comparable_type (CEmpty _) = TypeUnassigned"

fun value_type :: "idql_value \<Rightarrow> vtype" where
  "value_type (VEntity _) = TypeVariable"
| "value_type (VComp c) = comparable_type c"
| "value_type (VArray _) = TypeArray"
| "value_type (VObject _) = TypeObject"

fun bool_string :: "bool \<Rightarrow> string" where
  "bool_string True = ''true''"
| "bool_string False = ''false''"

fun comparable_string :: "comparable \<Rightarrow> string" where
  "comparable_string (CString s) = quote s"
| "comparable_string (CNumeric n) = num_raw n"
| "comparable_string (CDate t) = format_rfc3339 t"
| "comparable_string (CBool b) = bool_string b"
| "comparable_string (CEmpty _) = []"

definition array_string :: "comparable list \<Rightarrow> string" where
  "array_string vs = ''['' @ join_str (map comparable_string vs) '', '' @ '']''"

fun value_string :: "idql_value \<Rightarrow> string" where
  "value_string (VEntity e) = entity_string e"
| "value_string (VComp c) = comparable_string c"
| "value_string (VArray vs) = array_string vs"
| "value_string (VObject m) =
     ''{'' @ join_str (map (\<lambda>(k, v). [dq] @ k @ [dq] @ '':'' @ value_string v) m) '','' @ ''}''"

definition get_attribute :: "(string \<times> idql_value) list \<Rightarrow> string \<Rightarrow> idql_value option" where
  "get_attribute m name = map_of m name"

subsection \<open>Constructors\<close>

definition new_string :: "string \<Rightarrow> comparable res" where
  "new_string v =
     (if has_prefix v [dq] then rbind (go_slice v 1 (length v - 1)) (\<lambda>s. Inr (CString s))
      else Inr (CString v))"

definition new_numeric :: "string \<Rightarrow> comparable res" where
  "new_numeric v =
     rbind (parse_float v) (\<lambda>n. Inr (CNumeric \<lparr>num_value = n, num_raw = v\<rparr>))"

definition new_date :: "string \<Rightarrow> comparable res" where
  "new_date v =
     (case parse_rfc3339 v of
        None \<Rightarrow> Inl (Error ''parsing time'')
      | Some t \<Rightarrow> Inr (CDate t))"

definition new_boolean :: "string \<Rightarrow> comparable" where
  "new_boolean v = CBool (equal_fold v ''true'')"

section \<open>Comparison\<close>

text \<open>\<open>LessThan\<close> returns the result and whether the operands are incompatible.\<close>

fun less_than :: "comparable \<Rightarrow> comparable \<Rightarrow> bool \<times> bool" where
  "less_than (CString s) (CString t) = (s < t, False)"
| "less_than (CString s) (CNumeric n) = (s < num_raw n, False)"
| "less_than (CString _) _ = (False, True)"
| "less_than (CNumeric m) (CNumeric n) = (num_value m < num_value n, False)"
| "less_than (CNumeric m) (CString t) = (num_raw m < t, False)"
| "less_than (CNumeric _) _ = (False, True)"
| "less_than (CDate t) (CDate u) = (time_before t u, False)"
| "less_than (CDate _) _ = (False, True)"
| "less_than (CBool a) (CBool b) = (if a = b then (False, False) else (a = False, False))"
| "less_than (CBool _) _ = (False, True)"
| "less_than (CEmpty _) _ = (False, True)"

text \<open>
  \<open>Equals\<close>.  A date asserts that the other operand holds a time and panics otherwise; the
  other types compare the dynamic values.
\<close>

fun comparable_equals :: "comparable \<Rightarrow> comparable \<Rightarrow> bool res" where
  "comparable_equals (CString s) c =
     (let r = comparable_string c;
          r' = (if has_prefix r [dq] then unquote_or_empty r else r)
      in Inr (equal_fold s r'))"
| "comparable_equals (CNumeric m) (CNumeric n) = Inr (num_value m = num_value n)"
| "comparable_equals (CNumeric _) _ = Inr False"
| "comparable_equals (CDate t) (CDate u) = Inr (time_equal t u)"
| "comparable_equals (CDate _) _ = Inl (Panic ''interface conversion: not time.Time'')"
| "comparable_equals (CBool a) (CBool b) = Inr (a = b)"
| "comparable_equals (CBool _) _ = Inr False"
| "comparable_equals (CEmpty _) (CEmpty _) = Inr True"
| "comparable_equals (CEmpty _) _ = Inr False"

datatype compare_op = PR | EQ | NE | CO | IN | SW | EW | GT | LT | GE | LE | IS

fun op_string :: "compare_op \<Rightarrow> string" where
  "op_string PR = ''pr''" | "op_string EQ = ''eq''" | "op_string NE = ''ne''"
| "op_string CO = ''co''" | "op_string IN = ''in''" | "op_string SW = ''sw''"
| "op_string EW = ''ew''" | "op_string GT = ''gt''" | "op_string LT = ''lt''"
| "op_string GE = ''ge''" | "op_string LE = ''le''" | "op_string IS = ''is''"

definition unquoted_string :: "comparable \<Rightarrow> string" where
  "unquoted_string c =
     (let s = comparable_string c in
      if has_prefix s [dq] \<and> has_suffix s [dq] then unquote_or_empty s else s)"

text \<open>\<open>CompareValues\<close> on non-nil operands: the result and whether they are incompatible.\<close>

fun compare_values :: "comparable \<Rightarrow> comparable \<Rightarrow> compare_op \<Rightarrow> (bool \<times> bool) res" where
  "compare_values l r PR = Inr (if comparable_string l = [dq, dq] then (False, False) else (True, False))"
| "compare_values l r EQ = rbind (comparable_equals l r) (\<lambda>b. Inr (b, False))"
| "compare_values l r NE = rbind (comparable_equals l r) (\<lambda>b. Inr (\<not> b, False))"
| "compare_values l r LT = Inr (less_than l r)"
| "compare_values l r LE =
     rbind (comparable_equals l r) (\<lambda>b. Inr (if b then (True, False) else less_than l r))"
| "compare_values l r GT = Inr (less_than r l)"
| "compare_values l r GE =
     rbind (comparable_equals l r) (\<lambda>b. Inr (if b then (True, False) else less_than r l))"
| "compare_values l r SW = Inr (has_prefix (unquoted_string l) (unquoted_string r), False)"
| "compare_values l r EW = Inr (has_suffix (unquoted_string l) (unquoted_string r), False)"
| "compare_values l r CO =
     Inr (case l of
            CString s \<Rightarrow>
              (case r of CString t \<Rightarrow> (contains_str s t, False)
               | _ \<Rightarrow> (contains_str s (comparable_string r), False))
          | _ \<Rightarrow> (False, True))"
| "compare_values l r IN =
     Inr (case l of
            CString s \<Rightarrow>
              (case r of CString t \<Rightarrow> (contains_str t s, False)
               | _ \<Rightarrow> (contains_str (comparable_string r) s, False))
          | _ \<Rightarrow> (False, True))"
| "compare_values l r IS = Inr (False, True)"

section \<open>ParseValue\<close>

text \<open>
  The numeral pattern: a sign, \<open>(0|[1-9]\d*)(\.\d*)?\<close> or \<open>\.\d+\<close>, and an exponent part that
  itself starts with a digit, \<open>\d[eE][+-]?\d+\<close>.
\<close>

definition is_mantissa :: "string \<Rightarrow> bool" where
  "is_mantissa m =
     (let ip = takeWhile is_digit m; r = dropWhile is_digit m in
      if ip = [] then length r > 1 \<and> hd r = CHR ''.'' \<and> list_all is_digit (tl r)
      else (ip = ''0'' \<or> hd ip \<noteq> CHR ''0'') \<and>
           (r = [] \<or> (hd r = CHR ''.'' \<and> list_all is_digit (tl r))))"

definition is_numeral :: "string \<Rightarrow> bool" where
  "is_numeral s =
     (let t = snd (split_sign s);
          pre = takeWhile (\<lambda>c. c \<noteq> CHR ''e'' \<and> c \<noteq> CHR ''E'') t;
          post = dropWhile (\<lambda>c. c \<noteq> CHR ''e'' \<and> c \<noteq> CHR ''E'') t
      in if post = [] then is_mantissa t
         else
           (let ds = snd (split_sign (tl post))
            in pre \<noteq> [] \<and> is_digit (last pre) \<and> is_mantissa (butlast pre) \<and>
               ds \<noteq> [] \<and> list_all is_digit ds))"

text \<open>The items \<open>ParseArray\<close> splits its text into, and its loop over them.\<close>

definition array_items :: "string \<Rightarrow> string list" where
  "array_items s = split_str (trim_suffix (trim_prefix (trim_space s) ''['') '']'') '',''"

definition parse_array_with :: "(string \<Rightarrow> idql_value res) \<Rightarrow> string \<Rightarrow> idql_value res" where
  "parse_array_with pv s =
     rbind (mapM (\<lambda>item. rbind (pv item)
              (\<lambda>v. case v of
                     VComp c \<Rightarrow> Inr c
                   | _ \<Rightarrow> Inl (Error (''arrays cannot contain sub-arrays or objects: '' @ s))))
             (array_items s))
       (\<lambda>cs. Inr (VArray cs))"

text \<open>
  \<open>ParseObject\<close> decodes the fields and parses each raw value; a JSON null leaves a nil raw
  message, whose \<open>MarshalJSON\<close> dereferences it.
\<close>

definition parse_object_with :: "(string \<Rightarrow> idql_value res) \<Rightarrow> string \<Rightarrow> idql_value res" where
  "parse_object_with pv s =
     rbind (json_object_fields s) (\<lambda>m.
     rbind (mapM (\<lambda>(k, raw).
              if raw = ''null'' then Inl (Panic ''nil pointer dereference'')
              else rbind (pv raw) (\<lambda>v. Inr (k, v))) m)
       (\<lambda>kvs. Inr (VObject kvs)))"

lemma parse_array_with_cong [fundef_cong]:
  assumes "s = s'" and "\<And>x. x \<in> set (array_items s') \<Longrightarrow> f x = g x"
  shows "parse_array_with f s = parse_array_with g s'"
proof -
  have "mapM (\<lambda>item. rbind (f item) h) (array_items s') = mapM (\<lambda>item. rbind (g item) h) (array_items s')"
    for h :: "idql_value \<Rightarrow> comparable res"
    by (rule mapM_cong [OF refl]) (simp add: assms(2))
  then show ?thesis by (simp add: parse_array_with_def assms(1))
qed

lemma parse_object_with_cong [fundef_cong]:
  assumes "s = s'" and "\<And>x. length x < length s' \<Longrightarrow> f x = g x"
  shows "parse_object_with f s = parse_object_with g s'"
  unfolding parse_object_with_def assms(1)
proof (rule rbind_cong [OF refl])
  fix m
  assume m: "json_object_fields s' = Inr m"
  have "mapM (\<lambda>(k, raw). if raw = ''null'' then Inl (Panic ''nil pointer dereference'')
              else rbind (f raw) (\<lambda>v. Inr (k, v))) m =
        mapM (\<lambda>(k, raw). if raw = ''null'' then Inl (Panic ''nil pointer dereference'')
              else rbind (g raw) (\<lambda>v. Inr (k, v))) m"
    by (rule mapM_cong [OF refl]) (auto simp: assms(2) json_object_fields_shorter [OF m])
  then show "rbind (mapM (\<lambda>(k, raw). if raw = ''null'' then Inl (Panic ''nil pointer dereference'')
              else rbind (f raw) (\<lambda>v. Inr (k, v))) m) (\<lambda>kvs. Inr (VObject kvs)) =
        rbind (mapM (\<lambda>(k, raw). if raw = ''null'' then Inl (Panic ''nil pointer dereference'')
              else rbind (g raw) (\<lambda>v. Inr (k, v))) m) (\<lambda>kvs. Inr (VObject kvs))"
    by simp
qed

lemma array_items_shorter:
  assumes "has_prefix s ''[''" and "has_suffix s '']''" and "x \<in> set (array_items s)"
  shows "length x < length s"
proof -
  from assms(1) obtain t where s: "s = CHR ''['' # t" by (auto simp: has_prefix_iff)
  from assms(2) have "last s = CHR '']''" by (auto simp: has_suffix_iff)
  with s have "trim_space s = s"
    by (intro trim_space_id) (simp add: is_space_def)
  with s have "x \<in> set (split_str (trim_suffix t '']'') '','')"
    using assms(3) by (simp add: array_items_def trim_prefix_def)
  then have "length x \<le> length (trim_suffix t '']'')"
    by (rule length_split_str_le) simp
  also have "\<dots> \<le> length t" by (simp add: trim_suffix_def)
  finally show ?thesis by (simp add: s)
qed

function parse_value :: "string \<Rightarrow> idql_value res" where
  "parse_value s =
     (if s = [] then rbind (new_string []) (\<lambda>c. Inr (VComp c))
      else
        (let v = trim_space s in
         if has_prefix v [dq] \<and> has_suffix v [dq] then rbind (new_string v) (\<lambda>c. Inr (VComp c))
         else if has_prefix v ''['' \<and> has_suffix v '']'' then parse_array_with parse_value v
         else if has_prefix v ''{'' \<and> has_suffix v ''}'' then parse_object_with parse_value v
         else if is_numeral v then rbind (new_numeric v) (\<lambda>c. Inr (VComp c))
         else if equal_fold v ''true'' \<or> equal_fold v ''false'' then Inr (VComp (new_boolean v))
         else if parse_rfc3339 v \<noteq> None then rbind (new_date v) (\<lambda>c. Inr (VComp c))
         else Inr (VEntity (parse_entity v))))"
  by pat_completeness auto
termination
proof (relation "measure length")
  fix s v x
  assume "v = trim_space s" and "has_prefix v ''['' \<and> has_suffix v '']''" and "x \<in> set (array_items v)"
  then have "length x < length (trim_space s)" using array_items_shorter by blast
  then show "(x, s) \<in> measure length" using length_trim_space_le [of s] by simp
next
  fix s v x :: string
  assume "v = trim_space s" and "length x < length v"
  then show "(x, s) \<in> measure length" using length_trim_space_le [of s] by simp
qed simp

declare parse_value.simps [simp del]

definition parse_array :: "string \<Rightarrow> idql_value res" where
  "parse_array s = parse_array_with parse_value s"

definition parse_object :: "string \<Rightarrow> idql_value res" where
  "parse_object s = parse_object_with parse_value s"

section \<open>Entities survive printing and parsing\<close>

definition plain_name :: "string \<Rightarrow> bool" where
  "plain_name w \<longleftrightarrow> CHR '':'' \<notin> set w \<and> CHR ''['' \<notin> set w \<and> CHR '']'' \<notin> set w \<and> CHR '','' \<notin> set w"

definition plain_id :: "string \<Rightarrow> bool" where
  "plain_id i \<longleftrightarrow> plain_name i \<and> i \<noteq> [] \<and> \<not> equal_fold i ''any'' \<and> \<not> equal_fold i ''anyauthenticated''"

fun simple_entity :: "entity \<Rightarrow> bool" where
  "simple_entity EAny = True"
| "simple_entity EAnyAuthenticated = True"
| "simple_entity EEmpty = True"
| "simple_entity (EIs ts) = (ts \<noteq> [] \<and> list_all plain_name ts)"
| "simple_entity (EEquals ts i) = (list_all plain_name ts \<and> plain_id i)"
| "simple_entity _ = False"

fun printable_entity :: "entity \<Rightarrow> bool" where
  "printable_entity (EIn es) = (es \<noteq> [] \<and> list_all simple_entity es)"
| "printable_entity (EIsIn ts es) =
     (ts \<noteq> [] \<and> last ts \<noteq> [] \<and> list_all plain_name ts \<and> es \<noteq> [] \<and> list_all simple_entity es)"
| "printable_entity e = simple_entity e"

named_theorems scan_simps \<open>running the scan loop over known text\<close>

lemma scan_plain [scan_simps]:
  "plain_name w \<Longrightarrow> \<not> is_set st \<Longrightarrow> foldl entity_scan_step st w = st\<lparr>sb := sb st @ w\<rparr>"
  by (induction w arbitrary: st) (auto simp: plain_name_def entity_scan_step_def)

lemma scan_in_set [scan_simps]:
  "CHR ''['' \<notin> set w \<Longrightarrow> CHR '']'' \<notin> set w \<Longrightarrow> is_set st \<Longrightarrow>
   foldl entity_scan_step st w = st\<lparr>setb := setb st @ w\<rparr>"
  by (induction w arbitrary: st) (auto simp: entity_scan_step_def)

lemma scan_types [scan_simps]:
  "list_all plain_name ts \<Longrightarrow> ts \<noteq> [] \<Longrightarrow> \<not> is_set st \<Longrightarrow> sb st = [] \<Longrightarrow>
   foldl entity_scan_step st (join_str ts '':'') =
     st\<lparr>type_path := type_path st @ butlast ts, sb := last ts\<rparr>"
proof (induction ts arbitrary: st)
  case (Cons t ts)
  show ?case
  proof (cases ts)
    case Nil
    with Cons.prems show ?thesis by (simp add: scan_plain)
  next
    case (Cons u us)
    let ?st = "st\<lparr>type_path := type_path st @ [t]\<rparr>"
    have "foldl entity_scan_step st (t @ '':'') = ?st"
      using Cons.prems by (simp add: scan_plain entity_scan_step_def)
    with Cons Cons.IH [of ?st] Cons.prems show ?thesis by simp
  qed
qed simp

lemma join_str_chars: "c \<in> set (join_str xs sep) \<Longrightarrow> c \<in> set sep \<or> (\<exists>x \<in> set xs. c \<in> set x)"
  by (induction xs sep rule: join_str.induct) auto

lemma simple_entity_chars:
  assumes "simple_entity e"
  shows "CHR ''['' \<notin> set (entity_string e) \<and> CHR '']'' \<notin> set (entity_string e) \<and> CHR '','' \<notin> set (entity_string e)"
proof (cases e)
  case (EIs ts)
  with assms show ?thesis
    by (auto simp: list_all_iff plain_name_def dest!: join_str_chars)
next
  case (EEquals ts i)
  with assms show ?thesis
    by (auto simp: list_all_iff plain_name_def plain_id_def dest!: join_str_chars)
qed (use assms in auto)

lemma parse_entity_Nil [simp]: "parse_entity [] = EEmpty"
  by (simp add: parse_entity.simps)

lemma parse_entity_scan:
  "v \<noteq> [] \<Longrightarrow> entity_scan v = st \<Longrightarrow> parse_entity v = entity_of_scan st (map parse_entity (set_members st))"
  by (simp add: parse_entity.simps)

lemma scan_typed:
  "list_all plain_name ts \<Longrightarrow> plain_name i \<Longrightarrow> ts \<noteq> [] \<Longrightarrow>
   entity_scan (join_str ts '':'' @ '':'' @ i) = entity_scan_init\<lparr>type_path := ts, sb := i\<rparr>"
  by (simp add: entity_scan_def scan_simps entity_scan_init_def entity_scan_step_def)

lemma scan_untyped: "plain_name i \<Longrightarrow> entity_scan i = entity_scan_init\<lparr>sb := i\<rparr>"
  by (simp add: entity_scan_def scan_simps entity_scan_init_def)

lemma any_names:
  "equal_fold ''any'' ''any''" "equal_fold ''anyAuthenticated'' ''anyauthenticated''"
  "\<not> equal_fold ''anyAuthenticated'' ''any''" "plain_name ''any''" "plain_name ''anyAuthenticated''"
  by code_simp+

lemma parse_simple_entity: "simple_entity e \<Longrightarrow> parse_entity (entity_string e) = e"
proof (cases e)
  case (EIs ts)
  assume "simple_entity e"
  with EIs have "entity_scan (entity_string e) = entity_scan_init\<lparr>type_path := ts\<rparr>"
    using scan_typed [of ts "[]"] by (simp add: plain_name_def entity_scan_init_def)
  from parse_entity_scan [OF _ this] EIs show ?thesis
    by (simp add: entity_of_scan_def entity_scan_init_def)
next
  case (EEquals ts i)
  assume e: "simple_entity e"
  show ?thesis
  proof (cases "ts = []")
    case True
    with e EEquals have "entity_scan (entity_string e) = entity_scan_init\<lparr>sb := i\<rparr>"
      by (simp add: scan_untyped plain_id_def)
    from parse_entity_scan [OF _ this] EEquals True e show ?thesis
      by (simp add: entity_of_scan_def entity_scan_init_def plain_id_def)
  next
    case False
    with e EEquals have "entity_scan (entity_string e) = entity_scan_init\<lparr>type_path := ts, sb := i\<rparr>"
      using scan_typed [of ts i] by (simp add: plain_id_def)
    from parse_entity_scan [OF _ this] EEquals False e show ?thesis
      by (simp add: entity_of_scan_def entity_scan_init_def plain_id_def)
  qed
qed (simp_all add: parse_entity_scan scan_untyped any_names entity_of_scan_def entity_scan_init_def)

lemma split_entity_strings:
  assumes "list_all simple_entity es" and "es \<noteq> []"
  shows "map parse_entity (split_str (join_str (map entity_string es) '','') '','') = es"
proof -
  have "split_str (join_str (map entity_string es) '','') '','' = map entity_string es"
    using assms simple_entity_chars by (intro split_join_char) (auto simp: list_all_iff)
  then show ?thesis
    using assms(1) by (auto simp: list_all_iff parse_simple_entity intro: map_idI)
qed

lemma scan_members_text:
  assumes "list_all simple_entity es" and "\<not> is_set st" and "setb st = []" and "set_members st = []"
  shows "foldl entity_scan_step st (''['' @ join_str (map entity_string es) '','' @ '']'') =
    st\<lparr>type_path := type_path st @ (if sb st = [] then [] else [sb st]), sb := [],
       set_members := split_str (join_str (map entity_string es) '','') '',''\<rparr>"
proof -
  let ?w = "join_str (map entity_string es) '',''"
  have "CHR ''['' \<notin> set ?w" and "CHR '']'' \<notin> set ?w"
    using assms(1) simple_entity_chars by (fastforce simp: list_all_iff dest: join_str_chars)+
  with assms show ?thesis
    by (auto simp: scan_simps entity_scan_step_def)
qed

lemma parse_printable_entity: "printable_entity e \<Longrightarrow> parse_entity (entity_string e) = e"
proof (cases e)
  case (EIn es)
  assume e: "printable_entity e"
  with EIn have "entity_scan (entity_string e) = entity_scan_init\<lparr>set_members :=
      split_str (join_str (map entity_string es) '','') '',''\<rparr>"
    using scan_members_text [of es entity_scan_init]
    by (simp add: entity_scan_def entity_scan_init_def)
  from parse_entity_scan [OF _ this] EIn e split_entity_strings [of es] show ?thesis
    by (simp add: entity_of_scan_def entity_scan_init_def)
next
  case (EIsIn ts es)
  assume e: "printable_entity e"
  let ?st = "entity_scan_init\<lparr>type_path := butlast ts, sb := last ts\<rparr>"
  from e EIsIn have "entity_scan (entity_string e) = entity_scan_init\<lparr>type_path := ts, set_members :=
      split_str (join_str (map entity_string es) '','') '',''\<rparr>"
    using scan_members_text [of es ?st] scan_types [of ts entity_scan_init]
    by (simp add: entity_scan_def entity_scan_init_def)
  from parse_entity_scan [OF _ this] EIsIn e split_entity_strings [of es] show ?thesis
    by (simp add: entity_of_scan_def entity_scan_init_def)
qed (use parse_simple_entity [of e] in simp_all)


lemma parse_typed_any:
  assumes "list_all plain_name ts" and "ts \<noteq> []" and "equal_fold i ''any''" and "plain_name i"
  shows "parse_entity (join_str ts '':'' @ '':'' @ i) = EAny"
proof -
  have "i \<noteq> []" using assms(3) equal_fold_length by fastforce
  then show ?thesis
    using parse_entity_scan [OF _ scan_typed [OF assms(1,4,2)]] assms(3)
    by (simp add: entity_of_scan_def entity_scan_init_def)
qed

section \<open>Comparison\<close>

text \<open>
  A kind of comparable values on which the operators are those of a linear order: each value
  has a key, \<open>LessThan\<close> and \<open>Equals\<close> compare keys.  Numbers, dates and booleans are such kinds;
  strings are not, since their \<open>Equals\<close> ignores case and their \<open>LessThan\<close> does not.
\<close>

fun order_op :: "compare_op \<Rightarrow> bool" where
  "order_op op = (op \<in> {EQ, NE, LT, LE, GT, GE})"

fun holds :: "compare_op \<Rightarrow> 'k::linorder \<Rightarrow> 'k \<Rightarrow> bool" where
  "holds EQ a b = (a = b)"
| "holds NE a b = (a \<noteq> b)"
| "holds LT a b = (a < b)"
| "holds LE a b = (a \<le> b)"
| "holds GT a b = (b < a)"
| "holds GE a b = (b \<le> a)"
| "holds _ a b = False"

locale ordered_kind =
  fixes mk :: "'v \<Rightarrow> comparable" and key :: "'v \<Rightarrow> 'k::linorder"
  assumes less: "less_than (mk a) (mk b) = (key a < key b, False)"
    and equals: "comparable_equals (mk a) (mk b) = Inr (key a = key b)"
begin

lemma compare_order: "order_op op \<Longrightarrow> compare_values (mk a) (mk b) op = Inr (holds op (key a) (key b), False)"
  by (cases op) (auto simp: less equals)

lemma trichotomy:
  "holds LT (key a) (key b) \<or> holds EQ (key a) (key b) \<or> holds GT (key a) (key b)"
  by auto

end

interpretation numbers: ordered_kind CNumeric num_value
  by unfold_locales simp_all

interpretation dates: ordered_kind CDate instant_of
  by unfold_locales (simp_all add: time_before_def time_equal_def)

interpretation bools: ordered_kind CBool "\<lambda>b. b"
  by unfold_locales auto

fun is_date :: "comparable \<Rightarrow> bool" where
  "is_date (CDate _) = True"
| "is_date _ = False"

lemma comparable_equals_fault:
  "(\<exists>f. comparable_equals a b = Inl f) \<longleftrightarrow> is_date a \<and> \<not> is_date b"
  by (cases a; cases b) (auto simp: Let_def)

section \<open>Printing and parsing values\<close>

lemma quote_ends: "has_prefix (quote s) [dq]" "has_suffix (quote s) [dq]" "trim_space (quote s) = quote s"
  by (auto simp: quote_def has_suffix_iff intro!: trim_space_id) (simp_all add: is_space_def)

lemma parse_value_quote:
  "parse_value (quote s) = Inr (VComp (CString (concat (map quote_char s))))"
proof -
  have "quote s \<noteq> []" by (simp add: quote_def)
  moreover have "new_string (quote s) = Inr (CString (concat (map quote_char s)))"
    using quote_ends(1) [of s] by (simp add: new_string_def quote_def go_slice_def)
  ultimately show ?thesis
    by (simp add: parse_value.simps [of "quote s"] quote_ends Let_def)
qed

definition quote_plain :: "string \<Rightarrow> bool" where
  "quote_plain s \<longleftrightarrow> (\<forall>c \<in> set s. quote_char c = [c])"

lemma quote_plain_concat: "quote_plain s \<Longrightarrow> concat (map quote_char s) = s"
  by (induction s) (auto simp: quote_plain_def)

lemma format_digit_first:
  "\<exists>r. format_rfc3339 t = pad4 (year t) @ CHR ''-'' # r"
  by (auto simp: format_rfc3339_def)

lemma set_pad: "c \<in> set (pad2 n) \<Longrightarrow> is_digit c" "c \<in> set (pad4 n) \<Longrightarrow> is_digit c"
  using list_all_pad2 by (auto simp: list_all_iff pad4_def)

lemma set_format:
  "c \<in> set (format_rfc3339 t) \<Longrightarrow> is_digit c \<or> c \<in> {CHR ''-'', CHR ''T'', CHR '':'', CHR ''Z'', CHR ''+''}"
  by (auto simp: format_rfc3339_def Let_def dest: set_pad split: if_splits)

lemma format_head: "format_rfc3339 t \<noteq> []" "is_digit (hd (format_rfc3339 t))"
proof -
  have "hd (pad4 (year t)) \<in> set (pad4 (year t))" by (simp add: pad4_def pad2_def)
  then show "format_rfc3339 t \<noteq> []" "is_digit (hd (format_rfc3339 t))"
    using set_pad(2) [of "hd (pad4 (year t))"] by (auto simp: format_rfc3339_def pad4_def pad2_def)
qed

lemma not_digits: "\<not> is_digit CHR ''e''" "\<not> is_digit CHR ''E''" "\<not> is_digit CHR ''+''" "\<not> is_digit CHR ''-''"
  "\<not> is_digit dq" "\<not> is_digit CHR ''[''" "\<not> is_digit CHR ''{''" "\<not> is_digit CHR '' ''"
  by (simp_all add: is_digit_def)

lemma digit_not_space: "is_digit c \<Longrightarrow> \<not> is_space c"
  by (auto simp: is_digit_def is_space_def Let_def)

lemma not_numeral_format: "\<not> is_numeral (format_rfc3339 t)"
proof -
  let ?f = "format_rfc3339 t"
  have e: "CHR ''e'' \<notin> set ?f" "CHR ''E'' \<notin> set ?f"
    using set_format [of _ t] not_digits by auto
  then have nopost: "dropWhile (\<lambda>c. c \<noteq> CHR ''e'' \<and> c \<noteq> CHR ''E'') ?f = []"
    by (auto simp: dropWhile_eq_Nil_conv)
  have sign: "split_sign ?f = (False, ?f)"
    using format_head [of t] not_digits by (cases ?f) auto
  obtain r where r: "?f = pad4 (year t) @ CHR ''-'' # r"
    using format_digit_first by blast
  have digits: "\<forall>c \<in> set (pad4 (year t)). is_digit c" using set_pad(2) by blast
  then have "takeWhile is_digit ?f = pad4 (year t)" "dropWhile is_digit ?f = CHR ''-'' # r"
    by (simp_all add: r not_digits takeWhile_append dropWhile_append)
  moreover have "pad4 (year t) \<noteq> []" by (simp add: pad4_def pad2_def)
  ultimately have "\<not> is_mantissa ?f" by (simp add: is_mantissa_def)
  with nopost show ?thesis by (simp add: is_numeral_def sign Let_def del: dropWhile_eq_Nil_conv)
qed

lemma parse_value_date:
  assumes "canonical_time t"
  shows "parse_value (comparable_string (CDate t)) = Inr (VComp (CDate t))"
proof -
  let ?f = "format_rfc3339 t"
  have "\<not> is_space (last ?f)" "\<not> is_space (hd ?f)"
    using set_format [of "last ?f" t] format_head [of t] digit_not_space
    by (auto simp: is_space_def)
  then have trim: "trim_space ?f = ?f" by (intro trim_space_id) simp
  have starts: "\<not> has_prefix ?f [dq]" "\<not> has_prefix ?f ''[''" "\<not> has_prefix ?f ''{''"
    using format_head [of t] not_digits by (auto simp: has_prefix_iff)
  have "length ?f > 5" by (simp add: format_rfc3339_def)
  then have "\<not> equal_fold ?f ''true''" "\<not> equal_fold ?f ''false''"
    using equal_fold_length by fastforce+
  with trim starts not_numeral_format [of t] parse_format_rfc3339 [OF assms] format_head(1) [of t]
  show ?thesis
    by (simp add: parse_value.simps [of ?f] new_date_def)
qed

lemma parse_value_bool: "parse_value (comparable_string (CBool b)) = Inr (VComp (CBool b))"
  by (cases b) (simp_all, code_simp+)

lemma is_mantissa_chars:
  assumes "is_mantissa m" shows "\<forall>c \<in> set m. is_digit c \<or> c = CHR ''.''"
proof -
  let ?r = "dropWhile is_digit m"
  have "?r = [] \<or> (hd ?r = CHR ''.'' \<and> list_all is_digit (tl ?r))"
    using assms by (auto simp: is_mantissa_def Let_def split: if_splits)
  then have "\<forall>c \<in> set ?r. is_digit c \<or> c = CHR ''.''"
    by (cases ?r) (auto simp: list_all_iff simp del: dropWhile_eq_Nil_conv)
  moreover have "\<forall>c \<in> set (takeWhile is_digit m). is_digit c"
    by (meson set_takeWhileD)
  moreover have "set m = set (takeWhile is_digit m) \<union> set ?r"
    by (metis set_append takeWhile_dropWhile_id)
  ultimately show ?thesis by auto
qed

lemma split_sign_chars: "set s \<subseteq> insert (CHR ''+'') (insert (CHR ''-'') (set (snd (split_sign s))))"
  by (cases s) auto

definition numeral_char :: "char \<Rightarrow> bool" where
  "numeral_char c \<longleftrightarrow> is_digit c \<or> c \<in> {CHR ''.'', CHR ''+'', CHR ''-'', CHR ''e'', CHR ''E''}"

lemma is_numeral_chars:
  assumes "is_numeral s" shows "\<forall>c \<in> set s. numeral_char c"
proof -
  define t where "t = snd (split_sign s)"
  define P where "P = (\<lambda>c. c \<noteq> CHR ''e'' \<and> c \<noteq> CHR ''E'')"
  define pre where "pre = takeWhile P t"
  define post where "post = dropWhile P t"
  have n: "if post = [] then is_mantissa t
    else pre \<noteq> [] \<and> is_digit (last pre) \<and> is_mantissa (butlast pre) \<and>
      snd (split_sign (tl post)) \<noteq> [] \<and> list_all is_digit (snd (split_sign (tl post)))"
    using assms unfolding is_numeral_def Let_def t_def P_def pre_def post_def .
  have "\<forall>c \<in> set t. numeral_char c"
  proof (cases "post = []")
    case True
    with n is_mantissa_chars show ?thesis by (auto simp: numeral_char_def)
  next
    case False
    then have "\<not> P (hd post)" by (simp add: post_def hd_dropWhile)
    then have "numeral_char (hd post)" by (auto simp: numeral_char_def P_def)
    moreover have "\<forall>c \<in> set (tl post). numeral_char c"
      using n False split_sign_chars [of "tl post"] by (auto simp: numeral_char_def list_all_iff)
    moreover have "\<forall>c \<in> set post. c = hd post \<or> c \<in> set (tl post)"
      using False by (cases post) auto
    moreover have "pre = butlast pre @ [last pre]" using n False by simp
    then have "set pre = insert (last pre) (set (butlast pre))" by (metis Un_insert_right append_Nil2 list.simps(15) set_append sup_bot_right insert_is_Un)
    then have "\<forall>c \<in> set pre. numeral_char c"
      using n False is_mantissa_chars [of "butlast pre"] by (auto simp: numeral_char_def)
    moreover have "t = pre @ post" by (simp add: pre_def post_def)
    ultimately show ?thesis by auto
  qed
  with split_sign_chars [of s] show ?thesis by (auto simp: t_def numeral_char_def)
qed

lemma numeral_char_not: "numeral_char c \<Longrightarrow> \<not> is_space c"
  "\<not> numeral_char dq" "\<not> numeral_char CHR ''[''" "\<not> numeral_char CHR ''{''"
  by (auto simp: numeral_char_def not_digits dest: digit_not_space) (simp_all add: is_space_def)

lemma parse_value_numeral:
  assumes "is_numeral r" and "parse_float r = Inr f"
  shows "parse_value r = Inr (VComp (CNumeric \<lparr>num_value = f, num_raw = r\<rparr>))"
proof -
  have ne: "r \<noteq> []" using assms(1) by (auto simp: is_numeral_def is_mantissa_def)
  then have "numeral_char (hd r)" "numeral_char (last r)"
    using is_numeral_chars [OF assms(1)] by simp_all
  moreover from this have "trim_space r = r"
    by (intro trim_space_id) (simp add: numeral_char_not)
  moreover have "\<not> has_prefix r [dq]" "\<not> has_prefix r ''[''" "\<not> has_prefix r ''{''"
    using \<open>numeral_char (hd r)\<close> numeral_char_not by (auto simp: has_prefix_iff)
  ultimately show ?thesis
    using ne assms by (simp add: parse_value.simps [of r] new_numeric_def)
qed

lemma not_numeral_head: "s \<noteq> [] \<Longrightarrow> \<not> numeral_char (hd s) \<Longrightarrow> \<not> is_numeral s"
  using is_numeral_chars by auto

lemma not_time_head: "s \<noteq> [] \<Longrightarrow> \<not> numeral_char (hd s) \<Longrightarrow> parse_rfc3339 s = None"
  by (cases s) (auto simp: parse_rfc3339_def take_num_def numeral_char_def)

text \<open>A name, which starts with none of the characters that open the other values.\<close>

definition plain_path :: "string \<Rightarrow> bool" where
  "plain_path w \<longleftrightarrow> plain_id w \<and> \<not> numeral_char (hd w) \<and> hd w \<notin> {dq, CHR ''{''} \<and>
     \<not> is_space (hd w) \<and> \<not> is_space (last w) \<and> \<not> equal_fold w ''true'' \<and> \<not> equal_fold w ''false''"

lemma parse_value_path: "plain_path w \<Longrightarrow> parse_value w = Inr (VEntity (EEquals [] w))"
proof -
  assume w: "plain_path w"
  then have ne: "w \<noteq> []" by (simp add: plain_path_def plain_id_def)
  then have "hd w \<noteq> CHR ''[''"
    using w hd_in_set [OF ne] by (metis plain_path_def plain_id_def plain_name_def)
  with w ne have starts: "\<not> has_prefix w [dq]" "\<not> has_prefix w ''[''" "\<not> has_prefix w ''{''"
    by (auto simp: plain_path_def has_prefix_iff)
  have "parse_entity w = EEquals [] w"
    using parse_simple_entity [of "EEquals [] w"] w by (simp add: plain_path_def)
  moreover have "trim_space w = w"
    using w by (intro trim_space_id) (simp add: plain_path_def)
  ultimately show ?thesis
    using w ne starts not_numeral_head [OF ne] not_time_head [OF ne]
    by (simp add: parse_value.simps [of w] plain_path_def)
qed

fun printable_comparable :: "comparable \<Rightarrow> bool" where
  "printable_comparable (CString s) = quote_plain s"
| "printable_comparable (CNumeric n) = (is_numeral (num_raw n) \<and> parse_float (num_raw n) = Inr (num_value n))"
| "printable_comparable (CDate t) = canonical_time t"
| "printable_comparable (CBool _) = True"
| "printable_comparable (CEmpty _) = False"

lemma parse_comparable: "printable_comparable c \<Longrightarrow> parse_value (comparable_string c) = Inr (VComp c)"
proof (cases c)
  case (CDate t)
  assume "printable_comparable c"
  with CDate parse_value_date show ?thesis by simp
next
  case (CBool b)
  with parse_value_bool show ?thesis by simp
qed (simp_all add: parse_value_quote quote_plain_concat parse_value_numeral)

section \<open>Properties\<close>

text \<open>Property C34.  An entity that can be written in IDQL (any, anyAuthenticated, a type, an
  instance, a set, a type with a set) is parsed back from its printed form unchanged.\<close>

theorem entity_roundtrip: "printable_entity e \<Longrightarrow> parse_entity (entity_string e) = e"
  by (rule parse_printable_entity)

theorem entity_roundtrip_witness:
  "parse_entity (entity_string (EIsIn [''PhotoApp'', ''User''] [EEquals [''Group''] ''admins'', EIs [''Team'']])) =
     EIsIn [''PhotoApp'', ''User''] [EEquals [''Group''] ''admins'', EIs [''Team'']]"
  by (rule entity_roundtrip) code_simp

text \<open>An instance whose id is \<open>any\<close>, in any case and under any type path such as
  \<open>User:any\<close>, is parsed as the subject that matches every user.\<close>

lemma typed_any_matches_everyone:
  assumes "list_all plain_name ts" and "ts \<noteq> []" and "equal_fold i ''any''" and "plain_name i"
  shows "parse_entity (join_str ts '':'' @ '':'' @ i) = EAny"
  by (rule parse_typed_any [OF assms])

text \<open>Property C33.  On two numbers, two dates or two booleans the six comparison operators decide
  the linear order of the values they denote and never report incompatibility.\<close>

theorem compare_values_linear:
  assumes "order_op op"
  shows "compare_values (CNumeric m) (CNumeric n) op = Inr (holds op (num_value m) (num_value n), False) \<and>
    compare_values (CDate t) (CDate u) op = Inr (holds op (instant_of t) (instant_of u), False) \<and>
    compare_values (CBool a) (CBool b) op = Inr (holds op a b, False)"
  using numbers.compare_order dates.compare_order bools.compare_order assms by blast

theorem compare_values_linear_witness:
  "compare_values (CNumeric \<lparr>num_value = 2, num_raw = ''2''\<rparr>) (CNumeric \<lparr>num_value = 10, num_raw = ''10''\<rparr>) LT =
     Inr (True, False)"
  using compare_values_linear [of LT "\<lparr>num_value = 2, num_raw = ''2''\<rparr>" "\<lparr>num_value = 10, num_raw = ''10''\<rparr>"]
  by simp

text \<open>\<open>CompareValues\<close> panics exactly when one of \<open>eq\<close>, \<open>ne\<close>, \<open>le\<close>, \<open>ge\<close> is
  applied to a date on the left and anything else on the right.\<close>

lemma compare_values_panics:
  "(\<exists>f. compare_values l r op = Inl f) \<longleftrightarrow> op \<in> {EQ, NE, LE, GE} \<and> is_date l \<and> \<not> is_date r"
proof -
  have "comparable_equals l r \<noteq> Inl f" if "\<not> (is_date l \<and> \<not> is_date r)" for f
    using that comparable_equals_fault by blast
  then show ?thesis
    using comparable_equals_fault [of l r] by (cases op) (auto simp: rbind_Inl_iff)
qed



lemma quote_char_length: "length (quote_char c) \<ge> 1" "length (quote_char c) = 1 \<Longrightarrow> quote_char c = [c]"
  by (simp_all add: quote_char_def Let_def split: if_splits)

lemma quote_plain_iff: "concat (map quote_char s) = s \<longleftrightarrow> quote_plain s"
proof
  assume eq: "concat (map quote_char s) = s"
  have le: "length t \<le> length (concat (map quote_char t))" for t
  proof (induction t)
    case (Cons c t)
    then show ?case using quote_char_length(1) [of c] by simp
  qed simp
  have "quote_plain t" if "length (concat (map quote_char t)) \<le> length t" for t
    using that
  proof (induction t)
    case (Cons c t)
    from Cons.prems quote_char_length(1) [of c] le [of t]
    have "length (quote_char c) = 1" "length (concat (map quote_char t)) \<le> length t" by auto
    with Cons.IH quote_char_length(2) [of c] show ?case by (simp add: quote_plain_def)
  qed (simp add: quote_plain_def)
  with eq show "quote_plain s" by simp
qed (rule quote_plain_concat)

text \<open>A parsed quoted string keeps its escapes: what is parsed is the escaped text,
  so a string comes back unchanged exactly when it has no quote, backslash or control character.\<close>

lemma quoted_string_keeps_escapes:
  "parse_value (quote s) = Inr (VComp (CString (concat (map quote_char s)))) \<and>
   (parse_value (quote s) = Inr (VComp (CString s)) \<longleftrightarrow> quote_plain s)"
  by (simp add: parse_value_quote quote_plain_iff)

end
