(* ===== verification/Condition_Parser.thy ===== *)
theory Condition_Parser
  imports Hexa_Types
begin

text \<open>
  The package \<^verbatim>\<open>pkg/hexapolicy/conditions/parser\<close>: the expression trees of IDQL conditions
  (\<^verbatim>\<open>types.go\<close>) and the scanner that builds them (\<^verbatim>\<open>parser.go\<close>).

  \<open>parseFilterSub\<close> is one loop over the runes of the text with fifteen local variables, which
  are the fields of \<open>pstate\<close>; each case of its switch is a definition, \<open>parse_step\<close> is the
  switch, \<open>parse_loop\<close> the loop and \<open>parse_finish\<close> what follows it.  Positions count runes but
  the code slices the text with them bytewise; the model does the same, with the panics that
  Go raises out of bounds.  The recursion on bracketed parts is bounded by a nesting depth,
  which the length of the text always suffices for (\<open>parse_filter_sub_depth\<close>).
\<close>

section \<open>Expressions\<close>

datatype logical_op = AND | OR

fun logical_string :: "logical_op \<Rightarrow> string" where
  "logical_string AND = ''and''"
| "logical_string OR = ''or''"

text \<open>\<open>NilExpression\<close> is the nil interface, which some callers put into a tree.\<close>

datatype expression =
    NilExpression
  | LogicalExpression logical_op expression expression
  | NotExpression expression
  | PrecedenceExpression expression
  | AttributeExpression idql_value compare_op "idql_value option"
  | ValuePathExpression entity "string option" expression "compare_op option" "idql_value option"

definition nil_panic :: "'a res" where
  "nil_panic = Inl (Panic ''nil pointer dereference'')"

definition attribute_string :: "string \<Rightarrow> compare_op \<Rightarrow> idql_value option \<Rightarrow> string res" where
  "attribute_string lhs op c =
     (if op = PR then Inr (lhs @ '' pr'')
      else
        (case c of
           None \<Rightarrow> nil_panic
         | Some v \<Rightarrow> Inr (lhs @ '' '' @ op_string op @ '' '' @ value_string v)))"

fun expression_string :: "expression \<Rightarrow> string res" where
  "expression_string NilExpression = nil_panic"
| "expression_string (LogicalExpression op l r) =
     rbind (expression_string l) (\<lambda>ls.
     rbind (expression_string r) (\<lambda>rs. Inr (ls @ '' '' @ logical_string op @ '' '' @ rs)))"
| "expression_string (NotExpression e) =
     rbind (expression_string e) (\<lambda>s. Inr (''not ('' @ s @ '')''))"
| "expression_string (PrecedenceExpression e) =
     rbind (expression_string e) (\<lambda>s. Inr (''('' @ s @ '')''))"
| "expression_string (AttributeExpression p op c) = attribute_string (value_string p) op c"
| "expression_string (ValuePathExpression a sub f op c) =
     rbind (expression_string f) (\<lambda>fs.
       let attr = entity_string a @ ''['' @ fs @ '']'' @
                  (case sub of None \<Rightarrow> [] | Some s \<Rightarrow> ''.'' @ s)
       in (case op of None \<Rightarrow> Inr attr | Some o' \<Rightarrow> attribute_string attr o' c))"

fun expression_dif :: "expression \<Rightarrow> string res" where
  "expression_dif NilExpression = nil_panic"
| "expression_dif (LogicalExpression op _ _) = Inr (logical_string op)"
| "expression_dif (NotExpression e) =
     (case e of
        AttributeExpression _ _ _ \<Rightarrow> rbind (expression_string e) (\<lambda>s. Inr (''not('' @ s @ '')''))
      | ValuePathExpression _ _ _ _ _ \<Rightarrow> rbind (expression_string e) (\<lambda>s. Inr (''not('' @ s @ '')''))
      | _ \<Rightarrow> Inr ''not'')"
| "expression_dif (PrecedenceExpression _) = Inr []"
| "expression_dif (AttributeExpression p op c) = expression_string (AttributeExpression p op c)"
| "expression_dif (ValuePathExpression a s f op c) =
     expression_string (ValuePathExpression a s f op c)"

definition new_attribute_expression :: "string \<Rightarrow> compare_op \<Rightarrow> string \<Rightarrow> expression res" where
  "new_attribute_expression path op cmp =
     rbind (parse_value path) (\<lambda>left.
       if op \<noteq> PR then
         rbind (parse_value cmp) (\<lambda>right. Inr (AttributeExpression left op (Some right)))
       else Inr (AttributeExpression left op None))"

text \<open>\<open>GetEntityPaths\<close> of both node types reads \<open>CompareValue\<close> without a nil check.\<close>

definition value_entities :: "idql_value \<Rightarrow> entity list" where
  "value_entities v = (case v of VEntity e \<Rightarrow> [e] | _ \<Rightarrow> [])"

definition attribute_entity_paths :: "idql_value \<Rightarrow> idql_value option \<Rightarrow> entity list res" where
  "attribute_entity_paths p c =
     (case c of None \<Rightarrow> nil_panic | Some v \<Rightarrow> Inr (value_entities p @ value_entities v))"

definition valuepath_entity_paths :: "entity \<Rightarrow> idql_value option \<Rightarrow> entity list res" where
  "valuepath_entity_paths a c =
     (case c of None \<Rightarrow> nil_panic | Some v \<Rightarrow> Inr (a # value_entities v))"

section \<open>createExpression\<close>

definition parse_op :: "string \<Rightarrow> compare_op option" where
  "parse_op s =
     (if s = ''eq'' then Some EQ else if s = ''ne'' then Some NE else if s = ''sw'' then Some SW
      else if s = ''ew'' then Some EW else if s = ''gt'' then Some GT else if s = ''lt'' then Some LT
      else if s = ''ge'' then Some GE else if s = ''le'' then Some LE else if s = ''co'' then Some CO
      else if s = ''in'' then Some IN else if s = ''pr'' then Some PR else None)"

text \<open>A value path being built: its attribute, sub-attribute and filter, without a comparison.\<close>

record value_path =
  vp_attribute :: entity
  vp_sub :: "string option"
  vp_filter :: expression

definition create_expression ::
  "string \<Rightarrow> string \<Rightarrow> string \<Rightarrow> value_path option \<Rightarrow> expression res" where
  "create_expression attribute cond v vpe =
     (case parse_op (to_lower cond) of
        None \<Rightarrow> Inl (Error (''invalid condition: Unsupported comparison operator: '' @ cond))
      | Some op \<Rightarrow>
          (case vpe of
             Some vp \<Rightarrow>
               (if op \<noteq> PR then
                  rbind (parse_value v) (\<lambda>right.
                    Inr (ValuePathExpression (vp_attribute vp) (vp_sub vp) (vp_filter vp) (Some op) (Some right)))
                else Inr (ValuePathExpression (vp_attribute vp) (vp_sub vp) (vp_filter vp) (Some op) None))
           | None \<Rightarrow> new_attribute_expression attribute op v))"

section \<open>The scanner\<close>

record pstate =
  char_pos :: nat
  bracket_count :: nat
  val_path_cnt :: nat
  word_index :: "nat option"
  clauses :: "expression list"
  cond :: string
  is_logic :: bool
  is_and :: bool
  is_not :: bool
  is_attr :: bool
  attr :: string
  is_expr :: bool
  is_value :: bool
  is_quote :: bool
  vpe :: "value_path option"

definition pstate_init :: pstate where
  "pstate_init = \<lparr>char_pos = 0, bracket_count = 0, val_path_cnt = 0, word_index = None,
     clauses = [], cond = [], is_logic = False, is_and = False, is_not = False,
     is_attr = False, attr = [], is_expr = False, is_value = False, is_quote = False,
     vpe = None\<rparr>"

definition perror :: "string \<Rightarrow> 'a res" where
  "perror m = Inl (Error (''invalid condition: '' @ m))"

definition quoted_char :: "char \<Rightarrow> string" where
  "quoted_char c = [CHR 0x27, c, CHR 0x27]"

text \<open>The reset of the variables of one comparison once its clause is complete.\<close>

definition clause_done :: "expression \<Rightarrow> pstate \<Rightarrow> pstate" where
  "clause_done e st =
     st\<lparr>attr := [], is_attr := False, cond := [], is_expr := False, is_value := False,
        clauses := clauses st @ [e]\<rparr>"

subsection \<open>Case '('\<close>

text \<open>
  The inner loop from the rune after the bracket: the position it stops at and the number of
  brackets still open.
\<close>

fun scan_close_paren :: "string list \<Rightarrow> nat \<Rightarrow> nat \<Rightarrow> bool \<Rightarrow> nat \<times> nat" where
  "scan_close_paren [] pos n q = (pos, n)"
| "scan_close_paren (r # rs) pos n q =
     (if r = [dq] then scan_close_paren rs (Suc pos) n (\<not> q)
      else if r = ''('' \<and> \<not> q then scan_close_paren rs (Suc pos) (Suc n) q
      else if r = '')'' \<and> \<not> q then
        (if n \<le> 1 then (pos, 0) else scan_close_paren rs (Suc pos) (n - 1) q)
      else scan_close_paren rs (Suc pos) n q)"

type_synonym sub_parser = "string \<Rightarrow> string \<Rightarrow> expression res"

definition step_open_paren ::
  "sub_parser \<Rightarrow> string \<Rightarrow> string \<Rightarrow> string list \<Rightarrow> pstate \<Rightarrow> pstate res" where
  "step_open_paren sub expr parent rs st =
     (if is_quote st \<or> is_value st then Inr st
      else
        (let start = char_pos st;
             (p, n) = scan_close_paren (drop (Suc start) rs) (Suc start) (Suc (bracket_count st)) False
         in if n = 0 then
              rbind (go_slice expr (Suc start) p) (\<lambda>sube.
              rbind (sub sube parent) (\<lambda>f.
                Inr (st\<lparr>char_pos := p, bracket_count := 0,
                       clauses := clauses st @
                         [if is_not st then NotExpression f else PrecedenceExpression f]\<rparr>)))
            else Inr (st\<lparr>char_pos := p, bracket_count := n\<rparr>)))"

subsection \<open>Case '['\<close>

text \<open>The inner loop runs while the position is below the number of bytes.\<close>

fun scan_close_bracket :: "string list \<Rightarrow> nat \<Rightarrow> nat \<Rightarrow> bool \<Rightarrow> nat option res" where
  "scan_close_bracket [] nbytes pos q =
     (if pos < nbytes then Inl (Panic ''index out of range'') else Inr None)"
| "scan_close_bracket (r # rs) nbytes pos q =
     (if r = [dq] then scan_close_bracket rs nbytes (Suc pos) (\<not> q)
      else if r = ''['' \<and> \<not> q then
        perror (''A second '' @ quoted_char CHR ''['' @ '' was detected while looking for a '' @
                quoted_char CHR '']'' @ '' in a value path idqlCondition'')
      else if r = '']'' \<and> \<not> q then Inr (Some pos)
      else scan_close_bracket rs nbytes (Suc pos) q)"

text \<open>A bracket with no word before it: an array as the attribute or as the compared value.\<close>

definition close_array :: "string \<Rightarrow> nat \<Rightarrow> nat \<Rightarrow> pstate \<Rightarrow> pstate res" where
  "close_array expr start p st =
     rbind (go_slice expr start (Suc p)) (\<lambda>text.
       if \<not> is_attr st then
         Inr (st\<lparr>char_pos := Suc p, val_path_cnt := 0, is_attr := True, attr := text\<rparr>)
       else
         rbind (create_expression (attr st) (cond st) text None) (\<lambda>e.
           Inr (clause_done e (st\<lparr>char_pos := Suc p, val_path_cnt := 0, word_index := Some (Suc p)\<rparr>))))"

text \<open>A sub-attribute after the bracket, up to the next blank.\<close>

definition close_sub_attr :: "string list \<Rightarrow> nat \<Rightarrow> string option \<times> nat" where
  "close_sub_attr rs p =
     (if Suc p < length rs \<and> rs ! Suc p = ''.'' then
        (let word = takeWhile (\<lambda>r. r \<noteq> '' '') (drop (Suc p) rs)
         in (Some (concat (tl word)), p + length word))
      else (None, p))"

text \<open>A bracket after a word: a value path with a filter.\<close>

definition close_value_path ::
  "sub_parser \<Rightarrow> string \<Rightarrow> string list \<Rightarrow> nat \<Rightarrow> nat \<Rightarrow> nat \<Rightarrow> pstate \<Rightarrow> pstate res" where
  "close_value_path sub expr rs w start p st =
     rbind (go_slice expr w start) (\<lambda>name.
     rbind (go_slice expr (Suc start) p) (\<lambda>filter_text.
     rbind (sub filter_text []) (\<lambda>f.
       let (sa, p') = close_sub_attr rs p in
       Inr (st\<lparr>char_pos := p', val_path_cnt := 0, word_index := None, is_attr := True, attr := name,
              vpe := Some \<lparr>vp_attribute = parse_entity name, vp_sub = sa, vp_filter = f\<rparr>\<rparr>))))"

definition step_open_bracket ::
  "sub_parser \<Rightarrow> string \<Rightarrow> string list \<Rightarrow> pstate \<Rightarrow> pstate res" where
  "step_open_bracket sub expr rs st =
     (if is_quote st \<or> is_value st then Inr st
      else
        (let start = char_pos st in
         rbind (scan_close_bracket (drop (Suc start) rs) (length expr) (Suc start) False) (\<lambda>found.
           case found of
             None \<Rightarrow> perror (''Missing close '' @ quoted_char CHR '']'' @ '' bracket'')
           | Some p \<Rightarrow>
               (case word_index st of
                  None \<Rightarrow> close_array expr start p st
                | Some w \<Rightarrow> close_value_path sub expr rs w start p st))))"

subsection \<open>Case blank: the end of a phrase\<close>

definition phrase_attribute :: "string \<Rightarrow> pstate \<Rightarrow> pstate res" where
  "phrase_attribute phrase st = Inr (st\<lparr>attr := phrase, word_index := None\<rparr>)"

definition phrase_operator :: "string \<Rightarrow> pstate \<Rightarrow> pstate res" where
  "phrase_operator phrase st =
     (let st' = st\<lparr>cond := phrase, word_index := None\<rparr> in
      if equal_fold phrase ''pr'' then
        rbind (create_expression (attr st') ''pr'' [] (vpe st')) (\<lambda>e. Inr (clause_done e st'))
      else Inr st')"

definition filter_attribute :: "string \<Rightarrow> pstate \<Rightarrow> string" where
  "filter_attribute parent st = (if parent \<noteq> [] then parent @ ''.'' @ attr st else attr st)"

definition phrase_value :: "string \<Rightarrow> string \<Rightarrow> pstate \<Rightarrow> pstate res" where
  "phrase_value parent phrase st =
     (if has_suffix phrase '')'' \<and> bracket_count st = 0 then
        perror (''Missing open '' @ quoted_char CHR ''('' @ '' bracket'')
      else
        rbind (create_expression (filter_attribute parent st) (cond st) phrase (vpe st)) (\<lambda>e.
          Inr ((clause_done e (st\<lparr>word_index := None\<rparr>))\<lparr>vpe := None\<rparr>)))"

definition step_blank :: "string \<Rightarrow> string \<Rightarrow> pstate \<Rightarrow> pstate res" where
  "step_blank expr parent st =
     (if is_quote st then Inr st
      else
        (case word_index st of
           None \<Rightarrow> Inr st
         | Some w \<Rightarrow>
             rbind (go_slice expr w (char_pos st)) (\<lambda>phrase.
               if equal_fold phrase ''or'' \<or> equal_fold phrase ''and'' then
                 Inr (st\<lparr>is_logic := True, is_and := equal_fold phrase ''and'', word_index := None\<rparr>)
               else if is_attr st \<and> attr st = [] then phrase_attribute phrase st
               else if is_expr st \<and> cond st = [] then phrase_operator phrase st
               else if is_value st then phrase_value parent phrase st
               else Inr st)))"

subsection \<open>The other cases\<close>

definition step_close_paren :: "pstate \<Rightarrow> pstate res" where
  "step_close_paren st =
     (if is_quote st \<or> is_value st then Inr st
      else if bracket_count st = 0 then perror (''Missing open '' @ quoted_char CHR ''('' @ '' bracket'')
      else Inr st)"

definition step_close_bracket :: "pstate \<Rightarrow> pstate res" where
  "step_close_bracket st =
     (if is_quote st \<or> is_value st then Inr st
      else if val_path_cnt st = 0 then perror (''Missing open '' @ quoted_char CHR ''['' @ '' bracket'')
      else Inr st)"

text \<open>A rune of a word: remember where the word starts and what it is a part of.\<close>

definition word_rune :: "pstate \<Rightarrow> pstate" where
  "word_rune st =
     (let st1 = (if word_index st = None then st\<lparr>word_index := Some (char_pos st)\<rparr> else st) in
      if \<not> is_attr st1 then st1\<lparr>is_attr := True\<rparr>
      else if \<not> is_expr st1 \<and> attr st1 \<noteq> [] then st1\<lparr>is_expr := True\<rparr>
      else if \<not> is_value st1 \<and> cond st1 \<noteq> [] then st1\<lparr>is_value := True\<rparr>
      else st1)"

definition step_n :: "string \<Rightarrow> pstate \<Rightarrow> pstate res" where
  "step_n expr st =
     (let p = char_pos st in
      if \<not> is_value st \<and> p + 3 < length expr \<and> equal_fold (take 3 (drop p expr)) ''not''
      then Inr (st\<lparr>is_not := True, char_pos := p + 2\<rparr>)
      else Inr (word_rune st))"

definition step_default :: "string \<Rightarrow> pstate \<Rightarrow> pstate res" where
  "step_default c st =
     Inr (word_rune (if c = [dq] then st\<lparr>is_quote := \<not> is_quote st\<rparr> else st))"

definition parse_step ::
  "sub_parser \<Rightarrow> string \<Rightarrow> string \<Rightarrow> string list \<Rightarrow> pstate \<Rightarrow> pstate res" where
  "parse_step sub expr parent rs st =
     (let c = rs ! char_pos st in
      if c = ''('' then step_open_paren sub expr parent rs st
      else if c = ''['' then step_open_bracket sub expr rs st
      else if c = '' '' then step_blank expr parent st
      else if c = '')'' then step_close_paren st
      else if c = '']'' then step_close_bracket st
      else if c = ''n'' \<or> c = ''N'' then step_n expr st
      else step_default c st)"

text \<open>After the switch: two clauses and a pending operator become one clause.\<close>

definition combine_logic :: "pstate \<Rightarrow> pstate" where
  "combine_logic st =
     (case clauses st of
        [l, r] \<Rightarrow>
          if is_logic st then
            st\<lparr>clauses := [LogicalExpression (if is_and st then AND else OR) l r], is_logic := False\<rparr>
          else st
      | _ \<Rightarrow> st)"

subsection \<open>The loop\<close>

lemma scan_close_paren_ge: "pos \<le> fst (scan_close_paren rs pos n q)"
  by (induction rs pos n q rule: scan_close_paren.induct) (auto intro: Suc_leD)

lemma scan_close_bracket_ge: "scan_close_bracket rs nb pos q = Inr (Some p) \<Longrightarrow> pos \<le> p"
  by (induction rs nb pos q rule: scan_close_bracket.induct)
     (fastforce simp: perror_def split: if_splits)+

lemma clause_done_pos [simp]: "char_pos (clause_done e st) = char_pos st"
  by (simp add: clause_done_def)

lemma word_rune_pos [simp]: "char_pos (word_rune st) = char_pos st"
  by (simp add: word_rune_def Let_def)

lemma combine_logic_pos [simp]: "char_pos (combine_logic st) = char_pos st"
  by (simp add: combine_logic_def split: list.splits)

lemma step_open_paren_pos:
  "step_open_paren sub expr parent rs st = Inr st' \<Longrightarrow> char_pos st \<le> char_pos st'"
  using scan_close_paren_ge [of "Suc (char_pos st)" "drop (Suc (char_pos st)) rs" "Suc (bracket_count st)" False]
  by (auto simp: step_open_paren_def Let_def rbind_iff split: if_splits prod.splits)

lemma close_array_pos: "close_array expr start p st = Inr st' \<Longrightarrow> p \<le> char_pos st'"
  by (auto simp: close_array_def rbind_iff split: if_splits)

lemma close_value_path_pos: "close_value_path sub expr rs w start p st = Inr st' \<Longrightarrow> p \<le> char_pos st'"
  by (auto simp: close_value_path_def close_sub_attr_def Let_def rbind_iff split: if_splits prod.splits)

lemma step_open_bracket_pos:
  assumes "step_open_bracket sub expr rs st = Inr st'"
  shows "char_pos st \<le> char_pos st'"
proof (cases "is_quote st \<or> is_value st")
  case True
  with assms show ?thesis by (simp add: step_open_bracket_def)
next
  case False
  with assms obtain p where p: "scan_close_bracket (drop (Suc (char_pos st)) rs) (length expr) (Suc (char_pos st)) False = Inr (Some p)"
    and r: "(case word_index st of None \<Rightarrow> close_array expr (char_pos st) p st
      | Some w \<Rightarrow> close_value_path sub expr rs w (char_pos st) p st) = Inr st'"
    by (auto simp: step_open_bracket_def Let_def rbind_iff perror_def split: option.splits)
  from r have "p \<le> char_pos st'"
    by (auto dest: close_array_pos close_value_path_pos split: option.splits)
  with scan_close_bracket_ge [OF p] show ?thesis by simp
qed

lemma step_blank_pos: "step_blank expr parent st = Inr st' \<Longrightarrow> char_pos st' = char_pos st"
  by (auto simp: step_blank_def phrase_attribute_def phrase_operator_def phrase_value_def perror_def
      Let_def rbind_iff split: if_splits option.splits)

lemma parse_step_pos: "parse_step sub expr parent rs st = Inr st' \<Longrightarrow> char_pos st \<le> char_pos st'"
  unfolding parse_step_def Let_def
  by (auto dest: step_open_paren_pos step_open_bracket_pos step_blank_pos
      simp: step_close_paren_def step_close_bracket_def step_n_def step_default_def perror_def Let_def
      split: if_splits)

function parse_loop ::
  "sub_parser \<Rightarrow> string \<Rightarrow> string \<Rightarrow> string list \<Rightarrow> pstate \<Rightarrow> pstate res" where
  "parse_loop sub expr parent rs st =
     (if char_pos st < length rs then
        rbind (parse_step sub expr parent rs st) (\<lambda>st1.
          parse_loop sub expr parent rs
            ((combine_logic st1)\<lparr>char_pos := Suc (char_pos st1)\<rparr>))
      else Inr st)"
  by pat_completeness auto
termination
  by (relation "measure (\<lambda>(sub, expr, parent, rs, st). length rs - char_pos st)")
     (auto dest!: parse_step_pos)

declare parse_loop.simps [simp del]

subsection \<open>After the loop\<close>

text \<open>A word at the end of the text closes a comparison, or else is taken for a presence test.\<close>

definition finish_word :: "string \<Rightarrow> string \<Rightarrow> pstate \<Rightarrow> pstate res" where
  "finish_word expr parent st =
     (case word_index st of
        None \<Rightarrow> Inr st
      | Some w \<Rightarrow>
          if char_pos st \<noteq> length expr then Inr st
          else
            (let fattr = filter_attribute parent st in
             if fattr = [] then perror ''Incomplete expression''
             else if is_attr st \<and> cond st \<noteq> [] then
               rbind (go_slice expr w (length expr)) (\<lambda>v.
                 if has_suffix v '')'' \<and> bracket_count st = 0 then
                   perror (''Missing open '' @ quoted_char CHR ''('' @ '' bracket'')
                 else
                   rbind (create_expression fattr (cond st) v (vpe st)) (\<lambda>e.
                     Inr (st\<lparr>clauses := clauses st @ [e], vpe := None\<rparr>)))
             else
               rbind (create_expression fattr ''pr'' [] (vpe st)) (\<lambda>e.
                 Inr (st\<lparr>clauses := clauses st @ [e]\<rparr>))))"

definition parse_finish :: "string \<Rightarrow> string \<Rightarrow> pstate \<Rightarrow> expression res" where
  "parse_finish expr parent st =
     (if bracket_count st > 0 then perror (''Missing close '' @ quoted_char CHR '')'' @ '' bracket'')
      else if val_path_cnt st > 0 then perror (''Missing '' @ quoted_char CHR '']'' @ '' bracket'')
      else
        rbind (finish_word expr parent st) (\<lambda>st1.
          case clauses (combine_logic st1) of
            [e] \<Rightarrow> Inr e
          | _ \<Rightarrow> perror ''Missing and/or clause''))"

section \<open>ParseFilter\<close>

text \<open>
  The recursive calls are on parts of the text between brackets, hence strictly shorter, so a
  depth above its length is never used up; \<open>parse_filter_sub_depth\<close> below proves it.
\<close>

fun parse_filter_sub :: "nat \<Rightarrow> string \<Rightarrow> string \<Rightarrow> expression res" where
  "parse_filter_sub 0 expr parent = Inl (Panic ''stack overflow'')"
| "parse_filter_sub (Suc d) expr parent =
     rbind (parse_loop (parse_filter_sub d) expr parent (runes expr) pstate_init)
       (parse_finish expr parent)"

definition parse_filter :: "string \<Rightarrow> expression res" where
  "parse_filter expr = parse_filter_sub (Suc (length expr)) expr []"

section \<open>The nesting depth\<close>

lemma go_slice_shorter: "go_slice s (Suc a) b = Inr t \<Longrightarrow> length t < length s"
  by (auto simp: go_slice_def split: if_splits)

text \<open>Two parsers of parts that agree below the length of the text give the same result.\<close>

definition agree_below :: "nat \<Rightarrow> sub_parser \<Rightarrow> sub_parser \<Rightarrow> bool" where
  "agree_below n f g \<longleftrightarrow> (\<forall>s p. length s < n \<longrightarrow> f s p = g s p)"

lemma step_open_paren_agree:
  "agree_below (length expr) f g \<Longrightarrow> step_open_paren f expr parent rs st = step_open_paren g expr parent rs st"
  by (auto simp: step_open_paren_def Let_def agree_below_def go_slice_shorter intro!: rbind_cong split: prod.splits)

lemma close_value_path_agree:
  "agree_below (length expr) f g \<Longrightarrow> close_value_path f expr rs w a p st = close_value_path g expr rs w a p st"
  by (auto simp: close_value_path_def agree_below_def go_slice_shorter intro!: rbind_cong)

lemma step_open_bracket_agree:
  "agree_below (length expr) f g \<Longrightarrow> step_open_bracket f expr rs st = step_open_bracket g expr rs st"
  by (simp add: step_open_bracket_def close_value_path_agree cong: option.case_cong)

lemma parse_loop_agree:
  "agree_below (length expr) f g \<Longrightarrow> parse_loop f expr parent rs st = parse_loop g expr parent rs st"
proof (induction f expr parent rs st rule: parse_loop.induct)
  case (1 f expr parent rs st)
  have "parse_step f expr parent rs st = parse_step g expr parent rs st"
    using step_open_paren_agree [OF 1(2)] step_open_bracket_agree [OF 1(2)]
    by (simp add: parse_step_def Let_def)
  with 1 show ?case
    by (simp add: parse_loop.simps [of f expr] parse_loop.simps [of g expr] cong: rbind_cong)
qed

lemma sub_depth: "length expr < d \<Longrightarrow> length expr < d' \<Longrightarrow> parse_filter_sub d expr parent = parse_filter_sub d' expr parent"
proof (induction d arbitrary: d' expr parent)
  case (Suc d)
  then obtain e where d': "d' = Suc e" by (cases d') auto
  have "agree_below (length expr) (parse_filter_sub d) (parse_filter_sub e)"
    using Suc.prems d' by (auto simp: agree_below_def intro: Suc.IH)
  then show ?case by (simp add: d' parse_loop_agree)
qed simp

text \<open>The parser of a text below a parent attribute, with a depth that suffices.\<close>

definition parse_part :: sub_parser where
  "parse_part expr parent = parse_filter_sub (Suc (length expr)) expr parent"

lemma parse_part_unfold:
  "parse_part expr parent =
     rbind (parse_loop parse_part expr parent (runes expr) pstate_init) (parse_finish expr parent)"
proof -
  have "agree_below (length expr) (parse_filter_sub (length expr)) parse_part"
    by (auto simp: agree_below_def parse_part_def intro: sub_depth simp del: parse_filter_sub.simps)
  from parse_loop_agree [OF this] show ?thesis by (simp add: parse_part_def)
qed

lemma parse_filter_part: "parse_filter expr = parse_part expr []"
  by (simp add: parse_filter_def parse_part_def)

section \<open>Parsed conditions are well formed\<close>

text \<open>No nil node, and a comparison value wherever the operator needs one: exactly the trees that
  can be printed.\<close>

fun wf_expression :: "expression \<Rightarrow> bool" where
  "wf_expression NilExpression = False"
| "wf_expression (LogicalExpression _ l r) = (wf_expression l \<and> wf_expression r)"
| "wf_expression (NotExpression e) = wf_expression e"
| "wf_expression (PrecedenceExpression e) = wf_expression e"
| "wf_expression (AttributeExpression _ op c) = (op = PR \<or> c \<noteq> None)"
| "wf_expression (ValuePathExpression _ _ f op c) =
     (wf_expression f \<and> (case op of None \<Rightarrow> True | Some op' \<Rightarrow> op' = PR \<or> c \<noteq> None))"

lemma attribute_string_ok: "(\<exists>s. attribute_string lhs op c = Inr s) \<longleftrightarrow> op = PR \<or> c \<noteq> None"
  by (cases c) (auto simp: attribute_string_def nil_panic_def)

lemma wf_iff_printable: "wf_expression e \<longleftrightarrow> (\<exists>s. expression_string e = Inr s)"
proof (induction e)
  case (ValuePathExpression a sub f op c)
  then show ?case
    by (cases c) (auto simp: rbind_iff Let_def attribute_string_def nil_panic_def split: option.splits)
qed (use attribute_string_ok in \<open>auto simp: rbind_iff nil_panic_def\<close>)

definition wf_vpe :: "value_path option \<Rightarrow> bool" where
  "wf_vpe v = (case v of None \<Rightarrow> True | Some vp \<Rightarrow> wf_expression (vp_filter vp))"

definition wf_pstate :: "pstate \<Rightarrow> bool" where
  "wf_pstate st \<longleftrightarrow> list_all wf_expression (clauses st) \<and> wf_vpe (vpe st)"

lemma wf_pstate_same:
  "wf_pstate st \<Longrightarrow> clauses st' = clauses st \<Longrightarrow> vpe st' = vpe st \<Longrightarrow> wf_pstate st'"
  by (simp add: wf_pstate_def)

lemma wf_create: "create_expression a c v w = Inr e \<Longrightarrow> wf_vpe w \<Longrightarrow> wf_expression e"
  by (auto simp: create_expression_def new_attribute_expression_def wf_vpe_def rbind_iff split: option.splits if_splits)

definition wf_sub :: "sub_parser \<Rightarrow> bool" where
  "wf_sub sub \<longleftrightarrow> (\<forall>s p e. sub s p = Inr e \<longrightarrow> wf_expression e)"

lemma wf_open_paren:
  "step_open_paren sub expr parent rs st = Inr st' \<Longrightarrow> wf_sub sub \<Longrightarrow> wf_pstate st \<Longrightarrow> wf_pstate st'"
  by (auto simp: step_open_paren_def wf_pstate_def wf_sub_def Let_def rbind_iff split: if_splits prod.splits)

lemma wf_close_array: "close_array expr a p st = Inr st' \<Longrightarrow> wf_pstate st \<Longrightarrow> wf_pstate st'"
  by (auto simp: close_array_def clause_done_def wf_pstate_def rbind_iff wf_vpe_def dest: wf_create split: if_splits)

lemma wf_close_value_path:
  "close_value_path sub expr rs w a p st = Inr st' \<Longrightarrow> wf_sub sub \<Longrightarrow> wf_pstate st \<Longrightarrow> wf_pstate st'"
  by (cases "close_sub_attr rs p") (auto simp: close_value_path_def wf_pstate_def wf_sub_def wf_vpe_def rbind_iff)

lemma wf_open_bracket:
  "step_open_bracket sub expr rs st = Inr st' \<Longrightarrow> wf_sub sub \<Longrightarrow> wf_pstate st \<Longrightarrow> wf_pstate st'"
  by (auto simp: step_open_bracket_def Let_def perror_def rbind_iff dest: wf_close_array wf_close_value_path
      split: if_splits option.splits)

lemma wf_clause_done: "wf_pstate st \<Longrightarrow> wf_expression e \<Longrightarrow> wf_pstate (clause_done e st)"
  by (simp add: wf_pstate_def clause_done_def)

lemma wf_phrases:
  "phrase_attribute phrase st = Inr st' \<Longrightarrow> wf_pstate st \<Longrightarrow> wf_pstate st'"
  "phrase_operator phrase st = Inr st' \<Longrightarrow> wf_pstate st \<Longrightarrow> wf_pstate st'"
  "phrase_value parent phrase st = Inr st' \<Longrightarrow> wf_pstate st \<Longrightarrow> wf_pstate st'"
proof -
  assume w: "wf_pstate st"
  then have v: "wf_vpe (vpe st)" by (simp add: wf_pstate_def)
  have "wf_pstate (st\<lparr>cond := phrase, word_index := None\<rparr>)" by (rule wf_pstate_same [OF w]) simp_all
  then show "wf_pstate st'" if "phrase_operator phrase st = Inr st'"
    using that v by (auto simp: phrase_operator_def Let_def rbind_iff intro: wf_clause_done wf_create split: if_splits)
  have "wf_pstate (st\<lparr>word_index := None\<rparr>)" by (rule wf_pstate_same [OF w]) simp_all
  then show "wf_pstate st'" if "phrase_value parent phrase st = Inr st'"
  proof -
    from that obtain e where "wf_expression e"
      and "st' = (clause_done e (st\<lparr>word_index := None\<rparr>))\<lparr>vpe := None\<rparr>"
      by (auto simp: phrase_value_def perror_def rbind_iff dest: wf_create [OF _ v] split: if_splits)
    moreover from this wf_clause_done [OF \<open>wf_pstate (st\<lparr>word_index := None\<rparr>)\<close>, of e]
    have "list_all wf_expression (clauses (clause_done e (st\<lparr>word_index := None\<rparr>)))"
      by (simp add: wf_pstate_def)
    ultimately show ?thesis by (simp add: wf_pstate_def wf_vpe_def)
  qed
  show "wf_pstate st'" if "phrase_attribute phrase st = Inr st'"
    using that w by (auto simp: phrase_attribute_def intro!: wf_pstate_same [OF w])
qed

lemma wf_blank: "step_blank expr parent st = Inr st' \<Longrightarrow> wf_pstate st \<Longrightarrow> wf_pstate st'"
  by (auto simp: step_blank_def rbind_iff dest: wf_phrases intro: wf_pstate_same split: if_splits option.splits)

lemma word_rune_keeps [simp]: "vpe (word_rune st) = vpe st" "clauses (word_rune st) = clauses st"
  by (simp_all add: word_rune_def Let_def)

lemma wf_step: "parse_step sub expr parent rs st = Inr st' \<Longrightarrow> wf_sub sub \<Longrightarrow> wf_pstate st \<Longrightarrow> wf_pstate st'"
  unfolding parse_step_def Let_def
  by (auto dest: wf_open_paren wf_open_bracket wf_blank
      simp: step_close_paren_def step_close_bracket_def step_n_def step_default_def perror_def Let_def wf_pstate_def
      split: if_splits)

lemma wf_combine: "wf_pstate st \<Longrightarrow> wf_pstate (combine_logic st)"
  by (auto simp: combine_logic_def wf_pstate_def split: list.splits)

lemma wf_loop:
  "parse_loop sub expr parent rs st = Inr st' \<Longrightarrow> wf_sub sub \<Longrightarrow> wf_pstate st \<Longrightarrow> wf_pstate st'"
proof (induction sub expr parent rs st rule: parse_loop.induct)
  case (1 sub expr parent rs st)
  show ?case
  proof (cases "char_pos st < length rs")
    case True
    with "1.prems"(1) obtain st1 where s: "parse_step sub expr parent rs st = Inr st1"
      and l: "parse_loop sub expr parent rs ((combine_logic st1)\<lparr>char_pos := Suc (char_pos st1)\<rparr>) = Inr st'"
      by (subst (asm) parse_loop.simps) (auto simp: rbind_iff)
    have "wf_pstate (combine_logic st1)" using wf_combine wf_step [OF s] "1.prems" by blast
    then have "wf_pstate ((combine_logic st1)\<lparr>char_pos := Suc (char_pos st1)\<rparr>)"
      by (rule wf_pstate_same) simp_all
    with "1.IH" [OF True s l] "1.prems" show ?thesis by blast
  next
    case False
    with "1.prems" show ?thesis by (subst (asm) parse_loop.simps) simp
  qed
qed

lemma wf_finish: "parse_finish expr parent st = Inr e \<Longrightarrow> wf_pstate st \<Longrightarrow> wf_expression e"
proof -
  assume f: "parse_finish expr parent st = Inr e" and w: "wf_pstate st"
  from f obtain st1 where s: "finish_word expr parent st = Inr st1"
    and c: "(case clauses (combine_logic st1) of [e] \<Rightarrow> Inr e | _ \<Rightarrow> perror ''Missing and/or clause'') = Inr e"
    by (auto simp: parse_finish_def perror_def rbind_iff split: if_splits)
  from c have "clauses (combine_logic st1) = [e]"
    by (auto simp: perror_def split: list.splits)
  note st1 = s this
  have "wf_pstate st1"
    using st1(1) w by (auto simp: finish_word_def perror_def Let_def rbind_iff wf_pstate_def
      dest: wf_create split: option.splits if_splits) (auto simp: wf_vpe_def)
  from wf_combine [OF this] st1(2) show ?thesis by (simp add: wf_pstate_def)
qed

lemma wf_parse_sub: "wf_sub (parse_filter_sub d)"
proof (induction d)
  case (Suc d)
  have "wf_pstate pstate_init" by (simp add: wf_pstate_def pstate_init_def wf_vpe_def)
  with Suc wf_loop wf_finish show ?case by (auto simp: wf_sub_def rbind_iff)
qed (simp add: wf_sub_def)

lemma parse_filter_wf: "parse_filter s = Inr e \<Longrightarrow> wf_expression e"
  using wf_parse_sub by (auto simp: parse_filter_def wf_sub_def simp del: parse_filter_sub.simps)

end
