(* ===== verification/Condition_Roundtrip.thy ===== *)
theory Condition_Roundtrip
  imports Condition_Parser
begin

text \<open>
  What \<open>ParseFilter\<close> makes of a printed condition.  The lemmas follow the loop over one word, one
  comparison, one bracketed part and one logical operator at a time, from one state between two
  operands to the next; \<open>writable\<close> collects the conditions for which printing and parsing is the
  identity, and the properties of the parser conclude the theory.
\<close>

section \<open>Printed conditions parse back\<close>

text \<open>The words of a printed condition the scanner reads as one word.\<close>

fun no_not :: "string \<Rightarrow> bool" where
  "no_not [] = True"
| "no_not (c # w) = (\<not> equal_fold (take 3 (c # w)) ''not'' \<and> no_not w)"

definition word_char :: "char \<Rightarrow> bool" where
  "word_char c \<longleftrightarrow> c \<notin> {CHR '' '', CHR ''('', CHR '')'', CHR ''['', CHR '']'', dq}"

definition plain_word :: "string \<Rightarrow> bool" where
  "plain_word w \<longleftrightarrow> w \<noteq> [] \<and> list_all word_char w \<and> no_not w \<and>
     \<not> equal_fold w ''and'' \<and> \<not> equal_fold w ''or''"

definition quoted_word :: "string \<Rightarrow> bool" where
  "quoted_word w \<longleftrightarrow> (\<exists>b. w = dq # b @ [dq] \<and> dq \<notin> set b)"

lemma quoted_word_code [code]:
  "quoted_word w \<longleftrightarrow> length w \<ge> 2 \<and> hd w = dq \<and> last w = dq \<and> dq \<notin> set (butlast (tl w))"
  unfolding quoted_word_def
  by (cases w; cases "tl w" rule: rev_cases) auto

definition value_word :: "string \<Rightarrow> bool" where
  "value_word w \<longleftrightarrow> plain_word w \<or> quoted_word w"

lemma fold_not_chars: "equal_fold s ''not'' \<Longrightarrow> length s = 3 \<and> CHR '' '' \<notin> set s"
proof -
  assume a: "equal_fold s ''not''"
  have "CHR '' '' \<notin> set s"
  proof
    assume "CHR '' '' \<in> set s"
    then have "lower_char CHR '' '' \<in> set (to_lower s)" by (simp add: to_lower_def)
    with a have "lower_char CHR '' '' \<in> set (to_lower ''not'')" by (simp add: equal_fold_def)
    then show False by (simp add: to_lower_def lower_char_def)
  qed
  with equal_fold_length [OF a] show ?thesis by simp
qed

lemma no_not_here:
  assumes "no_not (c # w)" and "post = [] \<or> hd post = CHR '' ''"
  shows "\<not> equal_fold (take 3 (c # w @ post)) ''not''"
proof (cases "length (c # w) \<ge> 3 \<or> post = []")
  case True
  with assms show ?thesis by auto
next
  case False
  then obtain q where q: "post = CHR '' '' # q" using assms(2) by (cases post) auto
  have "take 3 (c # w @ post) = (c # w) @ take (2 - length w) post" using False by simp
  moreover have "2 - length w = Suc (1 - length w)" using False by (simp; arith)
  ultimately have "CHR '' '' \<in> set (take 3 (c # w @ post))" by (simp add: q)
  then show ?thesis using fold_not_chars by blast
qed

subsection \<open>Runs of the loop\<close>

abbreviation letters :: "string \<Rightarrow> string list" where
  "letters s \<equiv> map (\<lambda>c. [c]) s"

lemma letters_nth: "expr = pre @ c # post \<Longrightarrow> p = length pre \<Longrightarrow> letters expr ! p = [c]"
  by (simp add: nth_append)

lemma loop_step:
  assumes "parse_step sub expr parent rs st = Inr st1" and "char_pos st < length rs"
  shows "parse_loop sub expr parent rs st =
    parse_loop sub expr parent rs ((combine_logic st1)\<lparr>char_pos := Suc (char_pos st1)\<rparr>)"
  using assms by (subst parse_loop.simps) simp

lemma combine_short: "length (clauses st) < 2 \<Longrightarrow> combine_logic st = st"
  by (auto simp: combine_logic_def split: list.splits)

lemma loop_word_char:
  assumes "expr = pre @ c # w @ post" and "char_pos st = length pre" and "word_char c"
    and "no_not (c # w)" and "post = [] \<or> hd post = CHR '' ''" and "length (clauses st) < 2"
  shows "parse_loop sub expr parent (letters expr) st =
    parse_loop sub expr parent (letters expr) ((word_rune st)\<lparr>char_pos := Suc (length pre)\<rparr>)"
proof -
  have "\<not> equal_fold (take 3 (drop (length pre) expr)) ''not''"
    using no_not_here [OF assms(4,5)] by (simp add: assms(1))
  then have "parse_step sub expr parent (letters expr) st = Inr (word_rune st)"
    using assms(2,3) letters_nth [OF assms(1) assms(2)]
    by (simp add: parse_step_def word_char_def step_n_def step_default_def)
  from loop_step [OF this] show ?thesis
    using assms by (simp add: combine_short)
qed

lemma loop_word:
  assumes "expr = pre @ w @ post" and "char_pos st = length pre" and "list_all word_char w"
    and "no_not w" and "post = [] \<or> hd post = CHR '' ''" and "length (clauses st) < 2"
    and settled: "\<And>p. word_rune (st\<lparr>char_pos := p\<rparr>) = st\<lparr>char_pos := p\<rparr>"
  shows "parse_loop sub expr parent (letters expr) st =
    parse_loop sub expr parent (letters expr) (st\<lparr>char_pos := length pre + length w\<rparr>)"
  using assms
proof (induction w arbitrary: pre st)
  case Nil
  have "st\<lparr>char_pos := length pre\<rparr> = st" unfolding Nil.prems(2) [symmetric] by simp
  then show ?case by simp
next
  case (Cons c w)
  let ?st = "st\<lparr>char_pos := Suc (length pre)\<rparr>"
  have "word_rune st = st" using Cons.prems(7) [of "char_pos st"] by simp
  with loop_word_char [of expr pre c w post st sub parent] Cons.prems
  have "parse_loop sub expr parent (letters expr) st = parse_loop sub expr parent (letters expr) ?st"
    by simp
  also have "\<dots> = parse_loop sub expr parent (letters expr) (?st\<lparr>char_pos := length (pre @ [c]) + length w\<rparr>)"
    by (rule Cons.IH) (use Cons.prems in simp_all)
  finally show ?case by simp
qed

text \<open>A whole word from its first rune: the first rune sets the flag, the others change nothing.\<close>

lemma loop_plain_word:
  assumes "expr = pre @ w @ post" and "char_pos st = length pre" and "list_all word_char w"
    and "no_not w" and "w \<noteq> []" and "post = [] \<or> hd post = CHR '' ''" and "length (clauses st) < 2"
    and "\<And>p. word_rune ((word_rune st)\<lparr>char_pos := p\<rparr>) = (word_rune st)\<lparr>char_pos := p\<rparr>"
  shows "parse_loop sub expr parent (letters expr) st =
    parse_loop sub expr parent (letters expr) ((word_rune st)\<lparr>char_pos := length pre + length w\<rparr>)"
proof (cases w)
  case (Cons c v)
  have "parse_loop sub expr parent (letters expr) st =
      parse_loop sub expr parent (letters expr) ((word_rune st)\<lparr>char_pos := Suc (length pre)\<rparr>)"
    using assms Cons loop_word_char [of expr pre c v post st sub parent] by simp
  also have "\<dots> = parse_loop sub expr parent (letters expr)
      ((word_rune st)\<lparr>char_pos := Suc (length pre)\<rparr>\<lparr>char_pos := length (pre @ [c]) + length v\<rparr>)"
    by (rule loop_word) (use assms Cons in simp_all)
  finally show ?thesis using Cons by simp
qed (use assms in simp)

text \<open>The state between two operands, after the attribute, after the operator and after the value.\<close>

definition between :: "bool \<Rightarrow> bool \<Rightarrow> expression list \<Rightarrow> bool \<Rightarrow> bool \<Rightarrow> nat \<Rightarrow> pstate" where
  "between b n cls lg an p =
     pstate_init\<lparr>is_attr := b, is_not := n, clauses := cls, is_logic := lg, is_and := an, char_pos := p\<rparr>"

definition attr_read :: "string \<Rightarrow> pstate \<Rightarrow> pstate" where
  "attr_read a st = st\<lparr>is_attr := True, attr := a\<rparr>"

definition op_read :: "compare_op \<Rightarrow> pstate \<Rightarrow> pstate" where
  "op_read op st = st\<lparr>is_expr := True, cond := op_string op\<rparr>"

definition value_read :: "nat \<Rightarrow> pstate \<Rightarrow> pstate" where
  "value_read w st = st\<lparr>is_value := True, word_index := Some w\<rparr>"

lemmas phase_defs = between_def attr_read_def op_read_def value_read_def pstate_init_def

lemma go_slice_word: "go_slice (pre @ w @ post) (length pre) (length pre + length w) = Inr w"
  by (simp add: go_slice_def)

lemma loop_blank:
  assumes "expr = pre @ CHR '' '' # post" and "char_pos st = length pre"
    and "step_blank expr parent st = Inr st1"
  shows "parse_loop sub expr parent (letters expr) st =
    parse_loop sub expr parent (letters expr) ((combine_logic st1)\<lparr>char_pos := Suc (length pre)\<rparr>)"
proof -
  have "parse_step sub expr parent (letters expr) st = Inr st1"
    using assms letters_nth [OF assms(1,2)] by (simp add: parse_step_def)
  from loop_step [OF this] step_blank_pos [OF assms(3)] assms show ?thesis by simp
qed

lemma plain_word_parts:
  assumes "plain_word w"
  shows "w \<noteq> []" "list_all word_char w" "no_not w" "\<not> equal_fold w ''and''" "\<not> equal_fold w ''or''"
  using assms by (auto simp: plain_word_def)

lemma loop_attr:
  assumes "expr = pre @ a @ CHR '' '' # post" and "plain_word a" and "length cls < 2"
  shows "parse_loop sub expr parent (letters expr) (between b n cls lg an (length pre)) =
    parse_loop sub expr parent (letters expr) (attr_read a (between True n cls lg an (length pre + length a + 1)))"
proof -
  let ?st = "(between True n cls lg an (length pre + length a))\<lparr>word_index := Some (length pre)\<rparr>"
  have "parse_loop sub expr parent (letters expr) (between b n cls lg an (length pre)) =
      parse_loop sub expr parent (letters expr) ?st"
    using loop_plain_word [of expr pre a "CHR '' '' # post" "between b n cls lg an (length pre)" sub parent]
      assms plain_word_parts [OF assms(2)]
    by (simp add: phase_defs word_rune_def Let_def)
  also have "step_blank expr parent ?st = Inr (attr_read a (between True n cls lg an (length pre + length a)))"
    using assms(1) plain_word_parts [OF assms(2)] go_slice_word [of pre a "CHR '' '' # post"]
    by (simp add: step_blank_def phrase_attribute_def phase_defs)
  then have "parse_loop sub expr parent (letters expr) ?st = parse_loop sub expr parent (letters expr)
      (attr_read a (between True n cls lg an (length pre + length a + 1)))"
    using loop_blank [of expr "pre @ a" post ?st parent] assms
    by (simp add: phase_defs combine_short)
  finally show ?thesis .
qed

lemma op_words:
  "plain_word (op_string op)" "op_string op \<noteq> []"
  "equal_fold (op_string op) ''pr'' \<longleftrightarrow> op = PR" "op \<noteq> IS \<Longrightarrow> parse_op (to_lower (op_string op)) = Some op"
  by (cases op; simp add: plain_word_def word_char_def equal_fold_def to_lower_def lower_char_def parse_op_def)+

lemma loop_op_word:
  assumes "expr = pre @ op_string op @ post" and "post = [] \<or> hd post = CHR '' ''" and "a \<noteq> []" and "length cls < 2"
  shows "parse_loop sub expr parent (letters expr) (attr_read a (between True n cls lg an (length pre))) =
    parse_loop sub expr parent (letters expr)
      ((attr_read a (between True n cls lg an (length pre + length (op_string op))))\<lparr>is_expr := True, word_index := Some (length pre)\<rparr>)"
  using loop_plain_word [of expr pre "op_string op" post "attr_read a (between True n cls lg an (length pre))" sub parent]
    assms plain_word_parts [OF op_words(1)]
  by (simp add: phase_defs word_rune_def Let_def)

lemma loop_op:
  assumes "expr = pre @ op_string op @ CHR '' '' # post" and "op \<noteq> PR" and "a \<noteq> []" and "length cls < 2"
  shows "parse_loop sub expr parent (letters expr) (attr_read a (between True n cls lg an (length pre))) =
    parse_loop sub expr parent (letters expr)
      (op_read op (attr_read a (between True n cls lg an (length pre + length (op_string op) + 1))))"
proof -
  let ?st = "(attr_read a (between True n cls lg an (length pre + length (op_string op))))\<lparr>is_expr := True, word_index := Some (length pre)\<rparr>"
  have "step_blank expr parent ?st =
      Inr (op_read op (attr_read a (between True n cls lg an (length pre + length (op_string op)))))"
    using assms plain_word_parts [OF op_words(1)] go_slice_word [of pre "op_string op" "CHR '' '' # post"]
    by (simp add: step_blank_def phrase_operator_def phase_defs op_words)
  then have "parse_loop sub expr parent (letters expr) ?st = parse_loop sub expr parent (letters expr)
      (op_read op (attr_read a (between True n cls lg an (length pre + length (op_string op) + 1))))"
    using loop_blank [of expr "pre @ op_string op" post ?st parent] assms
    by (simp add: phase_defs combine_short)
  with loop_op_word [OF assms(1)] assms show ?thesis by simp
qed

lemma loop_pr:
  assumes "expr = pre @ ''pr'' @ CHR '' '' # post" and "a \<noteq> []" and "length cls < 2"
    and "new_attribute_expression a PR [] = Inr e"
  shows "parse_loop sub expr parent (letters expr) (attr_read a (between True n cls lg an (length pre))) =
    parse_loop sub expr parent (letters expr) (combine_logic (between False n (cls @ [e]) lg an (length pre + 3)))"
proof -
  let ?st = "(attr_read a (between True n cls lg an (length pre + 2)))\<lparr>is_expr := True, word_index := Some (length pre)\<rparr>"
  have "create_expression a ''pr'' [] None = Inr e"
    using assms(4) op_words(4) [of PR] by (simp add: create_expression_def)
  then have "step_blank expr parent ?st = Inr (between False n (cls @ [e]) lg an (length pre + 2))"
    using assms plain_word_parts [OF op_words(1) [of PR]] go_slice_word [of pre "''pr''" "CHR '' '' # post"]
    by (simp add: step_blank_def phrase_operator_def phase_defs clause_done_def)
  then have "parse_loop sub expr parent (letters expr) ?st = parse_loop sub expr parent (letters expr)
      ((combine_logic (between False n (cls @ [e]) lg an (length pre + 2)))\<lparr>char_pos := Suc (length pre + 2)\<rparr>)"
    using loop_blank [of expr "pre @ ''pr''" post ?st parent] assms
    by (simp add: phase_defs)
  moreover have "(combine_logic (between False n (cls @ [e]) lg an (length pre + 2)))\<lparr>char_pos := Suc (length pre + 2)\<rparr> =
      combine_logic (between False n (cls @ [e]) lg an (length pre + 3))"
    by (simp add: combine_logic_def phase_defs split: list.splits)
  ultimately show ?thesis
    using loop_op_word [of expr pre PR "CHR '' '' # post" a cls sub parent n lg an] assms by simp
qed

lemma loop_quoted_body:
  assumes "expr = pre @ b @ dq # post" and "char_pos st = length pre" and "dq \<notin> set b"
    and "is_quote st" "is_value st" "is_attr st" "is_expr st" "word_index st = Some w" "length (clauses st) < 2"
  shows "parse_loop sub expr parent (letters expr) st =
    parse_loop sub expr parent (letters expr) (st\<lparr>char_pos := length pre + length b\<rparr>)"
  using assms
proof (induction b arbitrary: pre st)
  case Nil
  have "st\<lparr>char_pos := length pre\<rparr> = st" unfolding Nil.prems(2) [symmetric] by simp
  then show ?case by simp
next
  case (Cons c b)
  let ?st = "st\<lparr>char_pos := Suc (length pre)\<rparr>"
  have c: "letters expr ! char_pos st = [c]" using letters_nth [of expr pre c "b @ dq # post"] Cons.prems by simp
  have "word_rune st = st" using Cons.prems by (simp add: word_rune_def)
  then have "parse_step sub expr parent (letters expr) st = Inr st"
    using Cons.prems c
    by (auto simp: parse_step_def step_open_paren_def step_open_bracket_def step_blank_def step_close_paren_def
        step_close_bracket_def step_n_def step_default_def Let_def)
  from loop_step [OF this] Cons.prems
  have "parse_loop sub expr parent (letters expr) st = parse_loop sub expr parent (letters expr) ?st"
    by (simp add: combine_short)
  also have "\<dots> = parse_loop sub expr parent (letters expr) (?st\<lparr>char_pos := length (pre @ [c]) + length b\<rparr>)"
    by (rule Cons.IH) (use Cons.prems in simp_all)
  finally show ?case by simp
qed

lemma loop_quote_char:
  assumes "expr = pre @ dq # post" and "char_pos st = length pre" and "length (clauses st) < 2"
  shows "parse_loop sub expr parent (letters expr) st = parse_loop sub expr parent (letters expr)
    ((word_rune (st\<lparr>is_quote := \<not> is_quote st\<rparr>))\<lparr>char_pos := Suc (length pre)\<rparr>)"
proof -
  have "parse_step sub expr parent (letters expr) st = Inr (word_rune (st\<lparr>is_quote := \<not> is_quote st\<rparr>))"
    using assms letters_nth [OF assms(1,2)] by (simp add: parse_step_def step_default_def)
  from loop_step [OF this] assms show ?thesis by (simp add: combine_short)
qed

lemma loop_value:
  assumes "expr = pre @ v @ post" and "post = [] \<or> hd post = CHR '' ''" and "value_word v"
    and "a \<noteq> []" and "length cls < 2"
  shows "parse_loop sub expr parent (letters expr) (op_read op (attr_read a (between True n cls lg an (length pre)))) =
    parse_loop sub expr parent (letters expr)
      (value_read (length pre) (op_read op (attr_read a (between True n cls lg an (length pre + length v)))))"
proof (cases "plain_word v")
  case True
  then show ?thesis
    using loop_plain_word [of expr pre v post "op_read op (attr_read a (between True n cls lg an (length pre)))" sub parent]
      assms plain_word_parts [OF True]
    by (simp add: phase_defs word_rune_def Let_def op_words)
next
  case False
  with assms(3) obtain b where b: "v = dq # b @ [dq]" "dq \<notin> set b"
    by (auto simp: value_word_def quoted_word_def)
  let ?st = "op_read op (attr_read a (between True n cls lg an (length pre)))"
  let ?s1 = "(value_read (length pre) ?st)\<lparr>is_quote := True, char_pos := Suc (length pre)\<rparr>"
  let ?s2 = "?s1\<lparr>char_pos := length (pre @ [dq]) + length b\<rparr>"
  have "parse_loop sub expr parent (letters expr) ?st = parse_loop sub expr parent (letters expr) ?s1"
    using loop_quote_char [of expr pre "b @ dq # post" ?st sub parent] assms b
    by (simp add: phase_defs word_rune_def Let_def op_words)
  also have "\<dots> = parse_loop sub expr parent (letters expr) ?s2"
    by (rule loop_quoted_body [of _ _ _ post _ "length pre"]) (use assms b in \<open>simp_all add: phase_defs\<close>)
  also have "\<dots> = parse_loop sub expr parent (letters expr)
      ((word_rune (?s2\<lparr>is_quote := \<not> is_quote ?s2\<rparr>))\<lparr>char_pos := Suc (length (pre @ dq # b))\<rparr>)"
    by (rule loop_quote_char [of _ _ post]) (use assms b in \<open>simp_all add: phase_defs\<close>)
  also have "(word_rune (?s2\<lparr>is_quote := \<not> is_quote ?s2\<rparr>))\<lparr>char_pos := Suc (length (pre @ dq # b))\<rparr> =
      value_read (length pre) (op_read op (attr_read a (between True n cls lg an (length pre + length v))))"
    by (simp add: phase_defs word_rune_def b op_words)
  finally show ?thesis .
qed

lemma value_word_end: "value_word v \<Longrightarrow> \<not> has_suffix v '')''"
  by (auto simp: value_word_def plain_word_def quoted_word_def has_suffix_iff word_char_def)

lemma value_word_not_logic: "value_word v \<Longrightarrow> \<not> equal_fold v ''or'' \<and> \<not> equal_fold v ''and''"
proof -
  assume v: "value_word v"
  have "\<not> equal_fold (dq # b) ''or''" "\<not> equal_fold (dq # b) ''and''" for b
    by (auto simp: equal_fold_def to_lower_def lower_char_def)
  with v show ?thesis by (auto simp: value_word_def plain_word_def quoted_word_def)
qed

text \<open>The expression of a comparison, and the result of the parser once the loop is over.\<close>

definition finish_clauses :: "expression list \<Rightarrow> bool \<Rightarrow> bool \<Rightarrow> expression res" where
  "finish_clauses cls lg an =
     (case clauses (combine_logic (between False False cls lg an 0)) of
        [e] \<Rightarrow> Inr e | _ \<Rightarrow> perror ''Missing and/or clause'')"

lemma clauses_combine:
  "clauses (combine_logic st) = clauses (combine_logic (between False False (clauses st) (is_logic st) (is_and st) 0))"
  by (auto simp: combine_logic_def phase_defs split: list.splits)

lemma parse_finish_closed:
  "bracket_count st = 0 \<Longrightarrow> val_path_cnt st = 0 \<Longrightarrow> finish_word expr [] st = Inr st1 \<Longrightarrow>
   parse_finish expr [] st = finish_clauses (clauses st1) (is_logic st1) (is_and st1)"
  by (simp add: parse_finish_def finish_clauses_def clauses_combine [of st1])

lemma combine_between_pos:
  "(combine_logic (between b n cls lg an p))\<lparr>char_pos := q\<rparr> = combine_logic (between b n cls lg an q)"
  by (simp add: combine_logic_def phase_defs split: list.splits)

lemma create_comparison:
  "new_attribute_expression a op v = Inr e \<Longrightarrow> op \<noteq> IS \<Longrightarrow> create_expression a (op_string op) v None = Inr e"
  by (simp add: create_expression_def op_words)

lemma value_blank:
  assumes "expr = q @ v @ CHR '' '' # post" and "value_word v" and "a \<noteq> []" and "op \<notin> {PR, IS}"
    and "new_attribute_expression a op v = Inr e"
  shows "step_blank expr [] (value_read (length q) (op_read op (attr_read a (between True n cls lg an (length q + length v))))) =
    Inr (between False n (cls @ [e]) lg an (length q + length v))"
  using assms value_word_end [OF assms(2)] value_word_not_logic [OF assms(2)]
    go_slice_word [of q v "CHR '' '' # post"] create_comparison [OF assms(5)]
  by (simp add: step_blank_def phrase_value_def filter_attribute_def phase_defs clause_done_def op_words)

lemma value_end:
  assumes "expr = q @ v" and "value_word v" and "a \<noteq> []" and "op \<notin> {PR, IS}"
    and "new_attribute_expression a op v = Inr e"
    and st: "st = value_read (length q) (op_read op (attr_read a (between True n cls lg an (length q + length v))))"
  shows "finish_word expr [] st = Inr (st\<lparr>clauses := cls @ [e]\<rparr>)"
  using assms(1-5) value_word_end [OF assms(2)] go_slice_word [of q v "[]"] create_comparison [OF assms(5)]
  by (simp add: st finish_word_def filter_attribute_def phase_defs op_words)

lemma loop_to_value:
  assumes "expr = pre @ (a @ '' '' @ op_string op @ '' '' @ v) @ post" and "post = [] \<or> hd post = CHR '' ''"
    and "plain_word a" and "op \<notin> {PR, IS}" and "value_word v" and "length cls < 2"
    and "q = pre @ a @ '' '' @ op_string op @ '' ''"
  shows "parse_loop sub expr [] (letters expr) (between b n cls lg an (length pre)) =
    parse_loop sub expr [] (letters expr)
      (value_read (length q) (op_read op (attr_read a (between True n cls lg an (length q + length v)))))"
proof -
  have a: "a \<noteq> []" using assms(3) by (simp add: plain_word_def)
  have "parse_loop sub expr [] (letters expr) (between b n cls lg an (length pre)) =
      parse_loop sub expr [] (letters expr) (attr_read a (between True n cls lg an (length (pre @ a @ '' ''))))"
    using loop_attr [of expr pre a "op_string op @ '' '' @ v @ post"] assms by simp
  also have "\<dots> = parse_loop sub expr [] (letters expr) (op_read op (attr_read a (between True n cls lg an (length q))))"
    using loop_op [of expr "pre @ a @ '' ''" op "v @ post" a] assms a by (simp add: add.assoc)
  also have "\<dots> = parse_loop sub expr [] (letters expr)
      (value_read (length q) (op_read op (attr_read a (between True n cls lg an (length q + length v)))))"
    using loop_value [of expr q v post a] assms a by simp
  finally show ?thesis .
qed

lemma loop_comparison:
  assumes "expr = pre @ (a @ '' '' @ op_string op @ '' '' @ v) @ CHR '' '' # post"
    and "plain_word a" and "op \<notin> {PR, IS}" and "value_word v"
    and "new_attribute_expression a op v = Inr e" and "length cls < 2"
  shows "parse_loop sub expr [] (letters expr) (between b n cls lg an (length pre)) =
    parse_loop sub expr [] (letters expr) (combine_logic (between False n (cls @ [e]) lg an
      (length pre + length (a @ '' '' @ op_string op @ '' '' @ v) + 1)))"
proof -
  let ?q = "pre @ a @ '' '' @ op_string op @ '' ''"
  let ?st = "value_read (length ?q) (op_read op (attr_read a (between True n cls lg an (length ?q + length v))))"
  have e: "expr = ?q @ v @ CHR '' '' # post" using assms(1) by simp
  have "a \<noteq> []" using assms(2) by (simp add: plain_word_def)
  note step = value_blank [OF e assms(4) this assms(3,5)]
  have "char_pos ?st = length (?q @ v)" by (simp add: phase_defs)
  with loop_blank [OF _ this step] e
  have "parse_loop sub expr [] (letters expr) ?st = parse_loop sub expr [] (letters expr)
      (combine_logic (between False n (cls @ [e]) lg an (Suc (length (?q @ v)))))"
    by (simp add: combine_between_pos)
  with loop_to_value [OF assms(1) _ assms(2-4,6) refl] show ?thesis by (simp add: add.assoc)
qed

lemma finish_comparison:
  assumes "expr = pre @ (a @ '' '' @ op_string op @ '' '' @ v)"
    and "plain_word a" and "op \<notin> {PR, IS}" and "value_word v"
    and "new_attribute_expression a op v = Inr e" and "length cls < 2"
  shows "rbind (parse_loop sub expr [] (letters expr) (between b n cls lg an (length pre))) (parse_finish expr []) =
    finish_clauses (cls @ [e]) lg an"
proof -
  let ?q = "pre @ a @ '' '' @ op_string op @ '' ''"
  let ?st = "value_read (length ?q) (op_read op (attr_read a (between True n cls lg an (length ?q + length v))))"
  have e: "expr = ?q @ v" using assms(1) by simp
  have a: "a \<noteq> []" using assms(2) by (simp add: plain_word_def)
  have "parse_loop sub expr [] (letters expr) ?st = Inr ?st"
    using e by (subst parse_loop.simps) (simp add: phase_defs)
  with loop_to_value [of expr pre a op v "[]" cls ?q] assms
  have "parse_loop sub expr [] (letters expr) (between b n cls lg an (length pre)) = Inr ?st" by simp
  moreover have "parse_finish expr [] ?st = finish_clauses (cls @ [e]) lg an"
    using parse_finish_closed [OF _ _ value_end [OF e assms(4) a assms(3,5) refl]]
    by (simp add: phase_defs)
  ultimately show ?thesis by simp
qed

lemma loop_presence:
  assumes "expr = pre @ (a @ '' pr'') @ CHR '' '' # post" and "plain_word a"
    and "new_attribute_expression a PR [] = Inr e" and "length cls < 2"
  shows "parse_loop sub expr [] (letters expr) (between b n cls lg an (length pre)) =
    parse_loop sub expr [] (letters expr) (combine_logic (between False n (cls @ [e]) lg an
      (length pre + length (a @ '' pr'') + 1)))"
proof -
  have "parse_loop sub expr [] (letters expr) (between b n cls lg an (length pre)) =
      parse_loop sub expr [] (letters expr) (attr_read a (between True n cls lg an (length (pre @ a @ '' ''))))"
    using loop_attr [of expr pre a "''pr'' @ CHR '' '' # post"] assms by simp
  also have "\<dots> = parse_loop sub expr [] (letters expr) (combine_logic (between False n (cls @ [e]) lg an
      (length (pre @ a @ '' '') + 3)))"
    by (rule loop_pr [of _ _ post]) (use assms in \<open>simp_all add: plain_word_def\<close>)
  finally show ?thesis by (simp add: numeral_3_eq_3)
qed

lemma finish_presence:
  assumes "expr = pre @ (a @ '' pr'')" and "plain_word a"
    and "new_attribute_expression a PR [] = Inr e" and "length cls < 2"
  shows "rbind (parse_loop sub expr [] (letters expr) (between b n cls lg an (length pre))) (parse_finish expr []) =
    finish_clauses (cls @ [e]) lg an"
proof -
  let ?k = "length (pre @ a @ '' '')"
  let ?st = "(attr_read a (between True n cls lg an (?k + 2)))\<lparr>is_expr := True, word_index := Some ?k\<rparr>"
  have a: "a \<noteq> []" using assms(2) by (simp add: plain_word_def)
  have "parse_loop sub expr [] (letters expr) (between b n cls lg an (length pre)) =
      parse_loop sub expr [] (letters expr) (attr_read a (between True n cls lg an ?k))"
    using loop_attr [of expr pre a "''pr''"] assms by simp
  also have "\<dots> = parse_loop sub expr [] (letters expr) ?st"
    using loop_op_word [of expr "pre @ a @ '' ''" PR "[]" a] assms a by simp
  also have "\<dots> = Inr ?st"
    using assms(1) by (subst parse_loop.simps) (simp add: phase_defs)
  finally have loop: "parse_loop sub expr [] (letters expr) (between b n cls lg an (length pre)) = Inr ?st" .
  have "finish_word expr [] ?st = Inr (?st\<lparr>clauses := cls @ [e]\<rparr>)"
    using assms a create_comparison [OF assms(3)]
    by (simp add: finish_word_def filter_attribute_def phase_defs)
  from parse_finish_closed [OF _ _ this] loop show ?thesis by (simp add: phase_defs)
qed

subsection \<open>Groups\<close>

text \<open>Texts whose brackets the search for the closing bracket runs over.\<close>

definition balanced :: "string \<Rightarrow> bool" where
  "balanced s \<longleftrightarrow> (\<forall>rest pos k. k \<ge> 1 \<longrightarrow>
     scan_close_paren (letters (s @ rest)) pos k False = scan_close_paren (letters rest) (pos + length s) k False)"

lemma balanced_append: "balanced s \<Longrightarrow> balanced t \<Longrightarrow> balanced (s @ t)"
  by (simp add: balanced_def add.assoc [symmetric] del: map_append)

lemma balanced_plain: "list_all (\<lambda>c. c \<notin> {CHR ''('', CHR '')'', dq}) w \<Longrightarrow> balanced w"
proof (induction w)
  case (Cons c w)
  then have "balanced w" by simp
  with Cons.prems show ?case by (auto simp: balanced_def)
qed (simp add: balanced_def)

lemma scan_in_quotes:
  "dq \<notin> set b \<Longrightarrow> scan_close_paren (letters (b @ dq # rest)) pos k True =
     scan_close_paren (letters rest) (pos + length b + 1) k False"
  by (induction b arbitrary: pos) auto

lemma balanced_quoted: "quoted_word w \<Longrightarrow> balanced w"
  by (auto simp: balanced_def quoted_word_def scan_in_quotes simp del: map_append)

lemma balanced_value: "value_word w \<Longrightarrow> balanced w"
  using balanced_quoted balanced_plain [of w]
  by (auto simp: value_word_def plain_word_def word_char_def list_all_iff)

lemma scan_group: "balanced s \<Longrightarrow> scan_close_paren (letters (s @ CHR '')'' # post)) pos 1 False = (pos + length s, 0)"
  by (simp add: balanced_def del: map_append)

lemma balanced_group: "balanced s \<Longrightarrow> balanced (''('' @ s @ '')'')"
proof -
  assume s: "balanced s"
  have "scan_close_paren (letters (CHR ''('' # s @ CHR '')'' # rest)) pos k False =
      scan_close_paren (letters rest) (pos + length s + 2) k False" if "k \<ge> 1" for rest pos k
    using s that by (simp add: balanced_def del: map_append) 
  then show ?thesis by (simp add: balanced_def)
qed

definition group_expression :: "bool \<Rightarrow> expression \<Rightarrow> expression" where
  "group_expression n e = (if n then NotExpression e else PrecedenceExpression e)"

lemma loop_group:
  assumes "expr = pre @ (''('' @ s @ '')'') @ post" and "balanced s" and "sub s [] = Inr e"
  shows "parse_loop sub expr [] (letters expr) (between b n cls lg an (length pre)) =
    parse_loop sub expr [] (letters expr)
      (combine_logic (between b n (cls @ [group_expression n e]) lg an (length pre + length (''('' @ s @ '')''))))"
proof -
  let ?st = "between b n cls lg an (length pre)"
  have c: "letters expr ! char_pos ?st = ''(''"
    using letters_nth [of expr pre "CHR ''(''" "s @ CHR '')'' # post"] assms(1) by (simp add: phase_defs)
  have d: "drop (Suc (length pre)) (letters expr) = letters (s @ CHR '')'' # post)"
    by (simp add: assms(1))
  have "go_slice expr (Suc (length pre)) (Suc (length pre) + length s) = Inr s"
    using go_slice_word [of "pre @ ''(''" s "CHR '')'' # post"] assms(1) by simp
  then have "parse_step sub expr [] (letters expr) ?st =
      Inr (between b n (cls @ [group_expression n e]) lg an (Suc (length pre) + length s))"
    using c scan_group [OF assms(2), of post "Suc (length pre)"] assms(3)
    by (simp add: parse_step_def step_open_paren_def Let_def group_expression_def)
      (simp add: phase_defs d)
  from loop_step [OF this] assms(1) show ?thesis
    by (simp add: combine_between_pos) (simp add: phase_defs)
qed

lemma loop_not:
  assumes "expr = pre @ (''not'' @ sp) @ CHR ''('' # post" and "length cls < 2" and "sp \<in> {[], '' ''}"
  shows "parse_loop sub expr [] (letters expr) (between b n cls lg an (length pre)) =
    parse_loop sub expr [] (letters expr) (between b True cls lg an (length (pre @ ''not'' @ sp)))"
proof -
  let ?st = "between b n cls lg an (length pre)"
  let ?st' = "between b True cls lg an (length pre + 3)"
  have e: "expr = pre @ ''not'' @ sp @ CHR ''('' # post" using assms(1) by simp
  have "letters expr ! char_pos ?st = ''n''"
    using letters_nth [of expr pre "CHR ''n''" "''ot'' @ sp @ CHR ''('' # post"] e by (simp add: phase_defs)
  then have "parse_step sub expr [] (letters expr) ?st = Inr (between b True cls lg an (length pre + 2))"
    by (simp add: parse_step_def step_n_def e) (simp add: phase_defs)
  from loop_step [OF this] e assms(2)
  have not: "parse_loop sub expr [] (letters expr) ?st = parse_loop sub expr [] (letters expr) ?st'"
    by (simp add: phase_defs combine_short numeral_3_eq_3)
  have "step_blank expr [] ?st' = Inr ?st'"
    by (simp add: step_blank_def phase_defs)
  then have "parse_loop sub expr [] (letters expr) ?st' =
      parse_loop sub expr [] (letters expr) (between b True cls lg an (length pre + 4))" if "sp = '' ''"
    using loop_blank [of expr "pre @ ''not''" "CHR ''('' # post" ?st' "[]"] e assms(2) that
    by (simp add: phase_defs combine_short eval_nat_numeral)
  with not assms(3) show ?thesis by (auto simp: eval_nat_numeral)
qed

subsection \<open>Logical operators\<close>

lemma loop_logic:
  assumes "expr = pre @ logical_string op @ CHR '' '' # post" and "length cls < 2"
  shows "parse_loop sub expr [] (letters expr) (between b n cls lg an (length pre)) =
    parse_loop sub expr [] (letters expr) (between True n cls True (op = AND) (length pre + length (logical_string op) + 1))"
proof -
  let ?w = "logical_string op"
  let ?st = "(between True n cls lg an (length pre + length ?w))\<lparr>word_index := Some (length pre)\<rparr>"
  have w: "list_all word_char ?w \<and> no_not ?w \<and> ?w \<noteq> []"
    by (cases op) (auto simp: word_char_def equal_fold_def to_lower_def lower_char_def)
  then have "parse_loop sub expr [] (letters expr) (between b n cls lg an (length pre)) =
      parse_loop sub expr [] (letters expr) ?st"
    using loop_plain_word [of expr pre ?w "CHR '' '' # post" "between b n cls lg an (length pre)" sub "[]"] assms
    by (simp add: phase_defs word_rune_def Let_def)
  also have "step_blank expr [] ?st = Inr (between True n cls True (op = AND) (length pre + length ?w))"
    using assms(1) go_slice_word [of pre ?w "CHR '' '' # post"]
    by (cases op) (simp_all add: step_blank_def phase_defs equal_fold_def to_lower_def lower_char_def)
  then have "parse_loop sub expr [] (letters expr) ?st = parse_loop sub expr [] (letters expr)
      (between True n cls True (op = AND) (length pre + length ?w + 1))"
    using loop_blank [of expr "pre @ ?w" post ?st "[]"] assms by (simp add: phase_defs combine_short)
  finally show ?thesis .
qed

lemma combine_between:
  "combine_logic (between b n [e] lg an p) = between b n [e] lg an p"
  "combine_logic (between b n [l, r] True (op = AND) p) = between b n [LogicalExpression op l r] False (op = AND) p"
  by (cases op; simp add: combine_logic_def phase_defs)+

lemma finish_one: "finish_clauses [e] lg an = Inr e"
  "finish_clauses [l, r] True (op = AND) = Inr (LogicalExpression op l r)"
  by (simp_all add: finish_clauses_def combine_between) (simp_all add: phase_defs)

subsection \<open>Writable conditions\<close>

text \<open>
  The conditions the printed form of which parses back: every attribute is one word, every value
  one word or a quoted text, the right operand of a logical operator is not itself a logical
  expression, and no bracketed part follows a negation (\<open>isNot\<close> stays set until the end of the text).
\<close>

fun operand :: "expression \<Rightarrow> bool" where
  "operand (LogicalExpression _ _ _) = False"
| "operand NilExpression = False"
| "operand _ = True"

fun ends_not :: "bool \<Rightarrow> expression \<Rightarrow> bool" where
  "ends_not n (LogicalExpression _ l r) = ends_not (ends_not n l) r"
| "ends_not n (NotExpression _) = True"
| "ends_not n _ = n"

fun writable :: "bool \<Rightarrow> expression \<Rightarrow> bool" where
  "writable n (AttributeExpression p op c) =
     (plain_word (value_string p) \<and> parse_value (value_string p) = Inr p \<and>
      (case c of
         None \<Rightarrow> op = PR
       | Some v \<Rightarrow> op \<notin> {PR, IS} \<and> value_word (value_string v) \<and> parse_value (value_string v) = Inr v))"
| "writable n (NotExpression e) = writable False e"
| "writable n (PrecedenceExpression e) = (\<not> n \<and> writable False e)"
| "writable n (LogicalExpression op l r) = (writable n l \<and> operand r \<and> writable (ends_not n l) r)"
| "writable n _ = False"

lemma balanced_space: "balanced s \<Longrightarrow> balanced (CHR '' '' # s)"
  using balanced_append [OF balanced_plain [of "'' ''"]] by simp

text \<open>
  The text of a condition, with or without a blank between a negation and its bracket:
  \<open>String\<close> prints one, \<open>SerializeExpression\<close> does not.
\<close>

fun cond_text :: "string \<Rightarrow> expression \<Rightarrow> string" where
  "cond_text sp (AttributeExpression p op c) =
     value_string p @ '' '' @ op_string op @ (case c of None \<Rightarrow> [] | Some v \<Rightarrow> '' '' @ value_string v)"
| "cond_text sp (NotExpression e) = ''not'' @ sp @ ''('' @ cond_text sp e @ '')''"
| "cond_text sp (PrecedenceExpression e) = ''('' @ cond_text sp e @ '')''"
| "cond_text sp (LogicalExpression op l r) =
     cond_text sp l @ '' '' @ logical_string op @ '' '' @ cond_text sp r"
| "cond_text sp _ = []"

lemma writable_text: "writable n e \<Longrightarrow> expression_string e = Inr (cond_text '' '' e)"
  by (induction n e rule: writable.induct) (auto simp: attribute_string_def split: option.splits)

lemma writable_text_balanced: "writable n e \<Longrightarrow> sp \<in> {[], '' ''} \<Longrightarrow> balanced (cond_text sp e)"
proof (induction n e rule: writable.induct)
  case (1 n p op c)
  have "balanced (op_string op)"
    by (rule balanced_plain) (cases op; simp)
  moreover have "balanced (value_string p)"
    using 1 by (intro balanced_plain) (auto simp: plain_word_def word_char_def list_all_iff)
  moreover have "balanced (value_string v)" if "c = Some v" for v
    using 1 that balanced_value by simp
  ultimately show ?case
    by (cases c) (auto intro!: balanced_append balanced_space)
next
  case (2 n e)
  have "balanced (''not'' @ sp)" using 2 by (intro balanced_plain) auto
  with 2 show ?case using balanced_append [OF _ balanced_group] by (metis append.assoc cond_text.simps(2) writable.simps(2))
next
  case (3 n e)
  then show ?case using balanced_group [of "cond_text sp e"] by simp
next
  case (4 n op l r)
  moreover have "balanced (logical_string op)"
    by (rule balanced_plain) (cases op; simp)
  ultimately show ?case by (auto intro!: balanced_append balanced_space)
qed simp_all

text \<open>What the parser does with the printed form of an operand and of a whole condition.\<close>

definition reads_operand :: "expression \<Rightarrow> string \<Rightarrow> bool \<Rightarrow> bool" where
  "reads_operand e s n \<longleftrightarrow> (\<forall>expr pre b cls lg an. length cls < 2 \<longrightarrow>
     (\<forall>post. expr = pre @ s @ CHR '' '' # post \<longrightarrow>
        (\<exists>b'. parse_loop parse_part expr [] (letters expr) (between b n cls lg an (length pre)) =
          parse_loop parse_part expr [] (letters expr)
            (combine_logic (between b' (ends_not n e) (cls @ [e]) lg an (length pre + length s + 1))))) \<and>
     (expr = pre @ s \<longrightarrow>
        rbind (parse_loop parse_part expr [] (letters expr) (between b n cls lg an (length pre))) (parse_finish expr []) =
        finish_clauses (cls @ [e]) lg an))"

definition reads_condition :: "expression \<Rightarrow> string \<Rightarrow> bool \<Rightarrow> bool" where
  "reads_condition e s n \<longleftrightarrow> (\<forall>expr pre b an.
     (\<forall>post. expr = pre @ s @ CHR '' '' # post \<longrightarrow>
        (\<exists>b' an'. parse_loop parse_part expr [] (letters expr) (between b n [] False an (length pre)) =
          parse_loop parse_part expr [] (letters expr)
            (between b' (ends_not n e) [e] False an' (length pre + length s + 1)))) \<and>
     (expr = pre @ s \<longrightarrow>
        rbind (parse_loop parse_part expr [] (letters expr) (between b n [] False an (length pre))) (parse_finish expr []) =
        Inr e))"

lemma reads_operand_condition: "reads_operand e s n \<Longrightarrow> reads_condition e s n"
  unfolding reads_condition_def
proof (intro allI conjI impI)
  fix expr pre post b an
  assume r: "reads_operand e s n" and x: "expr = pre @ s @ CHR '' '' # post"
  show "\<exists>b' an'. parse_loop parse_part expr [] (letters expr) (between b n [] False an (length pre)) =
      parse_loop parse_part expr [] (letters expr) (between b' (ends_not n e) [e] False an' (length pre + length s + 1))"
    using r [unfolded reads_operand_def, rule_format, of "[]" expr pre] x
    by (simp add: combine_between) blast
next
  fix expr pre b an
  assume r: "reads_operand e s n" and x: "expr = pre @ s"
  show "rbind (parse_loop parse_part expr [] (letters expr) (between b n [] False an (length pre))) (parse_finish expr []) = Inr e"
    using r [unfolded reads_operand_def, rule_format, of "[]" expr pre] x by (simp add: finish_one)
qed

lemma reads_condition_part: "reads_condition e s False \<Longrightarrow> ascii s \<Longrightarrow> parse_part s [] = Inr e"
proof -
  assume r: "reads_condition e s False" and a: "ascii s"
  have "pstate_init = between False False [] False False (length [])" by (simp add: phase_defs)
  with r [unfolded reads_condition_def, rule_format, of s "[]" False False] show ?thesis
    by (simp add: parse_part_unfold [of s] runes_ascii a)
qed

lemma reads_comparison:
  assumes "plain_word (value_string p)" and "parse_value (value_string p) = Inr p" and "op \<notin> {PR, IS}"
    and "value_word (value_string v)" and "parse_value (value_string v) = Inr v"
  shows "reads_operand (AttributeExpression p op (Some v)) (value_string p @ '' '' @ op_string op @ '' '' @ value_string v) n"
proof -
  have "new_attribute_expression (value_string p) op (value_string v) = Inr (AttributeExpression p op (Some v))"
    using assms by (simp add: new_attribute_expression_def)
  from loop_comparison [OF _ assms(1,3,4) this] finish_comparison [OF _ assms(1,3,4) this]
  show ?thesis by (auto simp: reads_operand_def simp del: append_assoc)
qed

lemma reads_presence:
  assumes "plain_word (value_string p)" and "parse_value (value_string p) = Inr p"
  shows "reads_operand (AttributeExpression p PR None) (value_string p @ '' pr'') n"
proof -
  have "new_attribute_expression (value_string p) PR [] = Inr (AttributeExpression p PR None)"
    using assms by (simp add: new_attribute_expression_def)
  from loop_presence [OF _ assms(1) this] finish_presence [OF _ assms(1) this]
  show ?thesis by (auto simp: reads_operand_def simp del: append_assoc)
qed

lemma combine_cases:
  "combine_logic st = st \<or>
   (\<exists>l r op. clauses st = [l, r] \<and> is_logic st \<and>
      combine_logic st = st\<lparr>clauses := [LogicalExpression op l r], is_logic := False\<rparr>)"
  by (auto simp: combine_logic_def split: list.split)

lemma combine_keeps [simp]:
  "word_index (combine_logic st) = word_index st" "bracket_count (combine_logic st) = bracket_count st"
  "val_path_cnt (combine_logic st) = val_path_cnt st"
  using combine_cases [of st] by auto

lemma combine_idem [simp]: "combine_logic (combine_logic st) = combine_logic st"
  using combine_cases [of st] by (auto simp: combine_short)

lemma between_idle [simp]: "word_index (between b n cls lg an p) = None"
  "bracket_count (between b n cls lg an p) = 0" "val_path_cnt (between b n cls lg an p) = 0"
  by (simp_all add: phase_defs)

lemma reads_group:
  assumes "parse_part s [] = Inr e" and "balanced s" and "x = group_expression n e"
  shows "\<And>post. expr = pre @ (''('' @ s @ '')'') @ CHR '' '' # post \<Longrightarrow> length cls < 2 \<Longrightarrow>
      parse_loop parse_part expr [] (letters expr) (between b n cls lg an (length pre)) =
      parse_loop parse_part expr [] (letters expr)
        (combine_logic (between b n (cls @ [x]) lg an (length pre + length (''('' @ s @ '')'') + 1)))"
    and "expr = pre @ (''('' @ s @ '')'') \<Longrightarrow>
      rbind (parse_loop parse_part expr [] (letters expr) (between b n cls lg an (length pre))) (parse_finish expr []) =
      finish_clauses (cls @ [x]) lg an"
proof -
  let ?g = "''('' @ s @ '')''"
  let ?c = "\<lambda>p. combine_logic (between b n (cls @ [x]) lg an p)"
  fix post
  assume e: "expr = pre @ ?g @ CHR '' '' # post" and cls: "length cls < 2"
  have step: "step_blank expr [] (?c (length (pre @ ?g))) = Inr (?c (length (pre @ ?g)))"
    by (simp add: step_blank_def)
  have "char_pos (?c (length (pre @ ?g))) = length (pre @ ?g)" by (simp add: phase_defs)
  from loop_blank [OF _ this step] e
  have "parse_loop parse_part expr [] (letters expr) (?c (length (pre @ ?g))) =
      parse_loop parse_part expr [] (letters expr) (?c (Suc (length (pre @ ?g))))"
    by (simp add: combine_between_pos)
  with loop_group [where sub = parse_part, OF e assms(2,1)] assms(3)
  show "parse_loop parse_part expr [] (letters expr) (between b n cls lg an (length pre)) =
      parse_loop parse_part expr [] (letters expr) (?c (length pre + length ?g + 1))" by simp
next
  let ?g = "''('' @ s @ '')''"
  let ?st = "combine_logic (between b n (cls @ [x]) lg an (length pre + length ?g))"
  assume e: "expr = pre @ ?g"
  then have "parse_loop parse_part expr [] (letters expr) ?st = Inr ?st"
    by (subst parse_loop.simps) (simp add: phase_defs)
  with loop_group [where sub = parse_part and post = "[]", OF _ assms(2,1)] assms(3) e
  have loop: "parse_loop parse_part expr [] (letters expr) (between b n cls lg an (length pre)) = Inr ?st" by simp
  have "finish_word expr [] ?st = Inr ?st" "bracket_count ?st = 0" "val_path_cnt ?st = 0"
    "clauses (combine_logic ?st) = clauses (combine_logic (between False False (cls @ [x]) lg an 0))"
    using clauses_combine [of "between b n (cls @ [x]) lg an 0"]
      clauses_combine [of "between b n (cls @ [x]) lg an (length pre + length ?g)"]
    by (simp_all add: finish_word_def) (simp_all add: phase_defs)
  then have "parse_finish expr [] ?st = finish_clauses (cls @ [x]) lg an"
    by (simp add: parse_finish_def finish_clauses_def)
  with loop show "rbind (parse_loop parse_part expr [] (letters expr) (between b n cls lg an (length pre))) (parse_finish expr []) =
      finish_clauses (cls @ [x]) lg an" by simp
qed

lemma reads_precedence:
  assumes "parse_part s [] = Inr e" and "balanced s"
  shows "reads_operand (PrecedenceExpression e) (''('' @ s @ '')'') False"
  using reads_group [OF assms, of "PrecedenceExpression e" False]
  unfolding reads_operand_def by (force simp: group_expression_def simp del: append.simps append_assoc)

lemma reads_not:
  assumes "parse_part s [] = Inr e" and "balanced s" and sp: "sp \<in> {[], '' ''}"
  shows "reads_operand (NotExpression e) (''not'' @ sp @ ''('' @ s @ '')'') n"
  unfolding reads_operand_def
proof (intro allI conjI impI)
  fix expr pre b lg an post and cls :: "expression list"
  let ?g = "''('' @ s @ '')''"
  let ?n = "''not'' @ sp"
  assume cls: "length cls < 2" and e: "expr = pre @ (''not'' @ sp @ ?g) @ CHR '' '' # post"
  have "parse_loop parse_part expr [] (letters expr) (between b n cls lg an (length pre)) =
      parse_loop parse_part expr [] (letters expr) (between b True cls lg an (length (pre @ ?n)))"
    using loop_not [of expr pre sp "s @ '')'' @ CHR '' '' # post", OF _ cls sp] e by simp
  also have "\<dots> = parse_loop parse_part expr [] (letters expr)
      (combine_logic (between b True (cls @ [NotExpression e]) lg an (length (pre @ ?n) + length ?g + 1)))"
    by (rule reads_group(1) [OF assms(1,2) _ _ cls]) (use e in \<open>simp_all add: group_expression_def\<close>)
  finally show "\<exists>b'. parse_loop parse_part expr [] (letters expr) (between b n cls lg an (length pre)) =
      parse_loop parse_part expr [] (letters expr) (combine_logic (between b' (ends_not n (NotExpression e))
        (cls @ [NotExpression e]) lg an (length pre + length (''not'' @ sp @ ?g) + 1)))"
    by (auto simp: add.assoc)
next
  fix expr pre b lg an and cls :: "expression list"
  let ?g = "''('' @ s @ '')''"
  assume cls: "length cls < 2" and e: "expr = pre @ (''not'' @ sp @ ?g)"
  have "parse_loop parse_part expr [] (letters expr) (between b n cls lg an (length pre)) =
      parse_loop parse_part expr [] (letters expr) (between b True cls lg an (length (pre @ ''not'' @ sp)))"
    using loop_not [of expr pre sp "s @ '')''", OF _ cls sp] e by simp
  with reads_group(2) [OF assms(1,2), of "NotExpression e" True expr "pre @ ''not'' @ sp" b cls lg an] e
  show "rbind (parse_loop parse_part expr [] (letters expr) (between b n cls lg an (length pre))) (parse_finish expr []) =
      finish_clauses (cls @ [NotExpression e]) lg an" by (simp add: group_expression_def)
qed

lemma reads_logic:
  assumes l: "reads_condition l ls n" and r: "reads_operand r rs (ends_not n l)"
  shows "reads_condition (LogicalExpression op l r) (ls @ '' '' @ logical_string op @ '' '' @ rs) n"
  unfolding reads_condition_def
proof (intro allI conjI impI)
  let ?lo = "logical_string op"
  let ?o = "ls @ '' '' @ ?lo @ '' ''"
  have steps: "\<exists>b'. parse_loop parse_part expr [] (letters expr) (between b n [] False an (length pre)) =
      parse_loop parse_part expr [] (letters expr)
        (between b' (ends_not n l) [l] True (op = AND) (length (pre @ ?o)))"
    if e: "expr = pre @ ?o @ post" for expr pre post b an
  proof -
    from l [unfolded reads_condition_def, rule_format, of expr pre b an] e obtain b' an' where
      "parse_loop parse_part expr [] (letters expr) (between b n [] False an (length pre)) =
       parse_loop parse_part expr [] (letters expr) (between b' (ends_not n l) [l] False an' (length (pre @ ls @ '' '')))"
      by auto
    also have "\<dots> = parse_loop parse_part expr [] (letters expr)
        (between True (ends_not n l) [l] True (op = AND) (length (pre @ ls @ '' '') + length ?lo + 1))"
      by (rule loop_logic [of _ _ _ post]) (use e in simp_all)
    finally show ?thesis by (auto simp: add.assoc)
  qed
  fix expr pre b an
  show "\<exists>b' an'. parse_loop parse_part expr [] (letters expr) (between b n [] False an (length pre)) =
      parse_loop parse_part expr [] (letters expr) (between b' (ends_not n (LogicalExpression op l r))
        [LogicalExpression op l r] False an' (length pre + length (ls @ '' '' @ ?lo @ '' '' @ rs) + 1))"
    if e: "expr = pre @ (ls @ '' '' @ ?lo @ '' '' @ rs) @ CHR '' '' # post" for post
  proof -
    from steps [of expr pre "rs @ CHR '' '' # post" b an] e obtain b1 where
      s: "parse_loop parse_part expr [] (letters expr) (between b n [] False an (length pre)) =
        parse_loop parse_part expr [] (letters expr)
          (between b1 (ends_not n l) [l] True (op = AND) (length (pre @ ?o)))" by auto
    from e have "expr = (pre @ ?o) @ rs @ CHR '' '' # post" by simp
    with r [unfolded reads_operand_def, rule_format, of "[l]" expr "pre @ ?o" b1 True "op = AND"]
    obtain b2 where "parse_loop parse_part expr [] (letters expr)
        (between b1 (ends_not n l) [l] True (op = AND) (length (pre @ ?o))) =
      parse_loop parse_part expr [] (letters expr)
        (between b2 (ends_not n (LogicalExpression op l r)) [LogicalExpression op l r] False (op = AND)
          (length (pre @ ?o) + length rs + 1))"
      by (auto simp: combine_between)
    with s show ?thesis by (auto simp: add.assoc)
  qed
  assume e: "expr = pre @ (ls @ '' '' @ ?lo @ '' '' @ rs)"
  with steps [of expr pre rs b an] obtain b1 where
    s: "parse_loop parse_part expr [] (letters expr) (between b n [] False an (length pre)) =
      parse_loop parse_part expr [] (letters expr)
        (between b1 (ends_not n l) [l] True (op = AND) (length (pre @ ?o)))" by auto
  from e have "expr = (pre @ ?o) @ rs" by simp
  with r [unfolded reads_operand_def, rule_format, of "[l]" expr "pre @ ?o" b1 True "op = AND"] s
  show "rbind (parse_loop parse_part expr [] (letters expr) (between b n [] False an (length pre))) (parse_finish expr []) =
      Inr (LogicalExpression op l r)"
    by (simp add: finish_one)
qed

lemma ascii_append [simp]: "ascii (s @ t) \<longleftrightarrow> ascii s \<and> ascii t"
  by (auto simp: ascii_def)

lemma writable_reads:
  "writable n e \<Longrightarrow> sp \<in> {[], '' ''} \<Longrightarrow> ascii (cond_text sp e) \<Longrightarrow>
   reads_condition e (cond_text sp e) n \<and> (operand e \<longrightarrow> reads_operand e (cond_text sp e) n)"
proof (induction n e rule: writable.induct)
  case (1 n p op c)
  have "reads_operand (AttributeExpression p op c) (cond_text sp (AttributeExpression p op c)) n"
    using 1 reads_presence [of p n] reads_comparison [of p op _ n] by (cases c) auto
  then show ?case using reads_operand_condition by blast
next
  case (2 n e)
  then have "parse_part (cond_text sp e) [] = Inr e" by (auto intro!: reads_condition_part)
  with 2 have "reads_operand (NotExpression e) (cond_text sp (NotExpression e)) n"
    using reads_not writable_text_balanced [of False e sp] by simp
  then show ?case using reads_operand_condition by blast
next
  case (3 n e)
  then have "parse_part (cond_text sp e) [] = Inr e" by (auto intro!: reads_condition_part)
  with 3 have "reads_operand (PrecedenceExpression e) (cond_text sp (PrecedenceExpression e)) n"
    using reads_precedence writable_text_balanced [of False e sp] by simp
  then show ?case using reads_operand_condition by blast
next
  case (4 n op l r)
  then have "reads_condition l (cond_text sp l) n" "reads_operand r (cond_text sp r) (ends_not n l)" by simp_all
  then show ?case using reads_logic by simp
qed simp_all

lemma parse_cond_text:
  "writable False e \<Longrightarrow> sp \<in> {[], '' ''} \<Longrightarrow> ascii (cond_text sp e) \<Longrightarrow> parse_filter (cond_text sp e) = Inr e"
  using writable_reads reads_condition_part by (simp add: parse_filter_part)

lemma parse_writable: "writable False e \<Longrightarrow> expression_string e = Inr s \<Longrightarrow> ascii s \<Longrightarrow> parse_filter s = Inr e"
  using writable_text [of False e] parse_cond_text [of e "'' ''"] by simp

section \<open>A negation is never undone\<close>

text \<open>\<open>isNot\<close> is set by the first \<open>not\<close> and never reset.\<close>

lemma parse_after_not:
  assumes "writable False l" "expression_string l = Inr ls" "ascii ls"
    and "writable False r" "expression_string r = Inr rs" "ascii rs"
  shows "parse_filter (''not ('' @ ls @ '') '' @ logical_string op @ '' ('' @ rs @ '')'') =
    Inr (LogicalExpression op (NotExpression l) (NotExpression r))"
proof -
  let ?t = "''not ('' @ ls @ '') '' @ logical_string op @ '' ('' @ rs @ '')''"
  have t: "ls = cond_text '' '' l" "rs = cond_text '' '' r" using assms writable_text by auto
  have p: "parse_part ls [] = Inr l" "parse_part rs [] = Inr r"
    using assms t parse_cond_text by (simp_all add: parse_filter_part)
  have b: "balanced ls" "balanced rs" using assms t writable_text_balanced by auto
  have "reads_operand (NotExpression r) (''('' @ rs @ '')'') True"
    using reads_group [OF p(2) b(2), of "NotExpression r" True]
    unfolding reads_operand_def by (force simp: group_expression_def simp del: append.simps append_assoc)
  moreover have "reads_condition (NotExpression l) (''not'' @ '' '' @ ''('' @ ls @ '')'') False"
    by (rule reads_operand_condition [OF reads_not [OF p(1) b(1)]]) simp
  ultimately have "reads_condition (LogicalExpression op (NotExpression l) (NotExpression r)) ?t False"
    using reads_logic [of "NotExpression l" "''not'' @ '' '' @ ''('' @ ls @ '')''" False "NotExpression r" "''('' @ rs @ '')''" op]
    by simp
  moreover have "ascii ?t" using assms(3,6) by (cases op) (auto simp: ascii_def)
  ultimately show ?thesis using reads_condition_part by (simp add: parse_filter_part)
qed

section \<open>Properties\<close>

text \<open>Property C1.  Every writable condition (any nesting of comparisons, presence tests, brackets,
  negations and logical operators associated to the left) is parsed back from its printed form as
  the same tree.\<close>

theorem condition_roundtrip:
  assumes "writable False e" and "expression_string e = Inr s" and "ascii s"
  shows "parse_filter s = Inr e"
  using assms by (rule parse_writable)

text \<open>Two attributes the witnesses use.\<close>

definition level_present :: expression where
  "level_present = AttributeExpression (VEntity (EEquals [] ''level'')) PR None"

definition team_is_blue :: expression where
  "team_is_blue = AttributeExpression (VEntity (EEquals [] ''team'')) EQ (Some (VEntity (EEquals [] ''blue'')))"

lemmas word_eval = plain_path_def plain_id_def plain_name_def numeral_char_def is_digit_def is_space_def Let_def
  equal_fold_def to_lower_def lower_char_def plain_word_def value_word_def word_char_def ascii_def

lemma example_texts:
  "expression_string level_present = Inr ''level pr''" "expression_string team_is_blue = Inr ''team eq blue''"
  by (simp_all add: level_present_def team_is_blue_def attribute_string_def)

lemma example_writable: "writable n level_present" "writable n team_is_blue"
  by (auto simp: level_present_def team_is_blue_def parse_value_path word_eval)

theorem condition_roundtrip_witness:
  "parse_filter ''not (team eq blue) and level pr or team eq blue'' =
     Inr (LogicalExpression OR (LogicalExpression AND (NotExpression team_is_blue) level_present) team_is_blue)"
proof (rule condition_roundtrip)
  show "writable False (LogicalExpression OR (LogicalExpression AND (NotExpression team_is_blue) level_present) team_is_blue)"
    using example_writable by (simp add: level_present_def team_is_blue_def)
qed (simp_all add: example_texts ascii_def)

text \<open>Property C32.  Whatever \<open>ParseFilter\<close> accepts has no missing node or comparison value, so that
  printing it never panics.\<close>

theorem parsed_conditions_print:
  "parse_filter s = Inr e \<Longrightarrow> wf_expression e \<and> (\<exists>t. expression_string e = Inr t)"
  using parse_filter_wf wf_iff_printable by blast

theorem parsed_conditions_print_witness: "\<exists>t. expression_string team_is_blue = Inr t"
proof -
  have "parse_filter ''team eq blue'' = Inr team_is_blue"
    by (rule parse_writable [OF example_writable(2) example_texts(2)]) (simp add: ascii_def)
  from parsed_conditions_print [OF this] show ?thesis by blast
qed



text \<open>Once a negation has been read, every later bracketed part of the same text is
  negated too, whether or not \<open>not\<close> stands before it.\<close>

lemma negation_sticks:
  assumes "writable False l" "expression_string l = Inr ls" "ascii ls"
    and "writable False r" "expression_string r = Inr rs" "ascii rs"
  shows "parse_filter (''not ('' @ ls @ '') '' @ logical_string op @ '' ('' @ rs @ '')'') =
    Inr (LogicalExpression op (NotExpression l) (NotExpression r))"
  using assms by (rule parse_after_not)

end
