(* ===== verification/Conditions.thy ===== *)
theory Conditions
  imports Condition_Roundtrip "HOL-Library.Multiset"
begin

text \<open>
  The package \<^verbatim>\<open>pkg/hexapolicy/conditions\<close> (\<^verbatim>\<open>conditions.go\<close>): the condition clause of a
  policy, its comparison by the sorted sequence of its nodes, the attribute name mapper the
  condition translators share, the serializer \<open>SerializeExpression\<close> and the search for entities.

  The two goroutines of \<open>Equals\<close> only produce the node texts in order, which the receiver reads to
  the end, so each is the list of what it sends.  A Go map is an association list in the order one
  iteration visits it.
\<close>

section \<open>ConditionInfo\<close>

record condition_info =
  rule :: string
  action :: string

definition condition_ast :: "condition_info \<Rightarrow> expression res" where
  "condition_ast c = parse_filter (rule c)"

text \<open>\<open>compareWalk\<close>: the non-empty \<open>Dif\<close> texts of the nodes, a parent before its children.\<close>

fun compare_walk :: "expression \<Rightarrow> string list res" where
  "compare_walk NilExpression = Inr []"
| "compare_walk (PrecedenceExpression e) =
     rbind (expression_dif (PrecedenceExpression e)) (\<lambda>v.
     rbind (compare_walk e) (\<lambda>vs. Inr ((if v = [] then [] else [v]) @ vs)))"
| "compare_walk (LogicalExpression op l r) =
     rbind (expression_dif (LogicalExpression op l r)) (\<lambda>v.
     rbind (compare_walk l) (\<lambda>ls.
     rbind (compare_walk r) (\<lambda>rs. Inr ((if v = [] then [] else [v]) @ ls @ rs))))"
| "compare_walk (NotExpression e) =
     rbind (expression_dif (NotExpression e)) (\<lambda>v.
     rbind (compare_walk e) (\<lambda>vs. Inr ((if v = [] then [] else [v]) @ vs)))"
| "compare_walk e = rbind (expression_dif e) (\<lambda>v. Inr (if v = [] then [] else [v]))"

definition slices_are_equal :: "string list \<Rightarrow> string list \<Rightarrow> bool" where
  "slices_are_equal a b \<longleftrightarrow> length a = length b \<and> list_all (\<lambda>(v, w). equal_fold v w) (zip a b)"

text \<open>The result of a call whose error is only tested: panics pass, errors become None.\<close>

fun try_call :: "'a res \<Rightarrow> 'a option res" where
  "try_call (Inr x) = Inr (Some x)"
| "try_call (Inl (Error _)) = Inr None"
| "try_call (Inl (Panic m)) = Inl (Panic m)"

definition condition_equals :: "condition_info \<Rightarrow> condition_info option \<Rightarrow> bool res" where
  "condition_equals c compare =
     (case compare of
        None \<Rightarrow> Inr False
      | Some d \<Rightarrow>
          if action c \<noteq> action d then Inr False
          else if rule c = rule d then Inr True
          else
            rbind (try_call (parse_filter (rule c))) (\<lambda>e1.
            rbind (try_call (parse_filter (rule d))) (\<lambda>e2.
              case (e1, e2) of
                (Some x, Some y) \<Rightarrow>
                  rbind (compare_walk x) (\<lambda>seq1.
                  rbind (compare_walk y) (\<lambda>seq2.
                    Inr (slices_are_equal (sort seq1) (sort seq2))))
              | _ \<Rightarrow> Inr False)))"

section \<open>Attribute names\<close>

record attribute_map =
  forward :: "string go_map"
  reverse_map :: "string go_map"

definition new_name_mapper :: "string go_map \<Rightarrow> attribute_map" where
  "new_name_mapper attribute_map =
     foldl (\<lambda>n (k, v). \<lparr>forward = AList.update (to_lower k) v (forward n),
                         reverse_map = AList.update (to_lower v) k (reverse_map n)\<rparr>)
       \<lparr>forward = [], reverse_map = []\<rparr> attribute_map"

definition get_provider_attribute_name :: "attribute_map \<Rightarrow> string \<Rightarrow> string" where
  "get_provider_attribute_name n hexa_name =
     (case map_of (forward n) (to_lower hexa_name) of Some v \<Rightarrow> v | None \<Rightarrow> hexa_name)"

definition get_hexa_filter_attribute_path :: "attribute_map \<Rightarrow> string \<Rightarrow> string" where
  "get_hexa_filter_attribute_path n prov_name =
     (case map_of (reverse_map n) prov_name of Some v \<Rightarrow> v | None \<Rightarrow> prov_name)"

section \<open>SerializeExpression\<close>

fun strip_precedence :: "expression \<Rightarrow> expression" where
  "strip_precedence (PrecedenceExpression e) = e"
| "strip_precedence e = e"

fun repeats_operator :: "logical_op \<Rightarrow> expression \<Rightarrow> bool" where
  "repeats_operator op (LogicalExpression o' _ _) = (o' = op)"
| "repeats_operator op _ = False"

lemma size_strip [simp]: "size (strip_precedence e) \<le> size e"
  by (cases e) auto

text \<open>\<open>walk\<close> and \<open>checkNestedLogic\<close> call each other.\<close>

function serialize_walk :: "expression \<Rightarrow> bool \<Rightarrow> string res"
  and check_nested_logic :: "expression \<Rightarrow> logical_op \<Rightarrow> string res" where
  "check_nested_logic e op =
     (let e' = strip_precedence e in serialize_walk e' (\<not> repeats_operator op e'))"
| "serialize_walk (LogicalExpression op l r) is_child =
     rbind (check_nested_logic l op) (\<lambda>lh.
     rbind (check_nested_logic r op) (\<lambda>rh.
       if is_child \<and> op = OR then Inr (''('' @ lh @ '' or '' @ rh @ '')'')
       else Inr (lh @ '' '' @ logical_string op @ '' '' @ rh)))"
| "serialize_walk (NotExpression e) is_child =
     rbind (serialize_walk e False) (\<lambda>s. Inr (''not('' @ s @ '')''))"
| "serialize_walk (PrecedenceExpression e) is_child =
     rbind (serialize_walk e False) (\<lambda>s. Inr (''('' @ s @ '')''))"
| "serialize_walk (ValuePathExpression a sub f op c) is_child = serialize_walk f True"
| "serialize_walk (AttributeExpression p op c) is_child = expression_string (AttributeExpression p op c)"
| "serialize_walk NilExpression is_child = nil_panic"
  by pat_completeness auto
termination
  by (relation "measure (case_sum (\<lambda>(e, b). 2 * size e) (\<lambda>(e, op). 2 * size e + 1))")
    (auto simp: less_Suc_eq_le)

definition serialize_expression :: "expression \<Rightarrow> string res" where
  "serialize_expression ast = serialize_walk ast False"

section \<open>Entities of a condition\<close>

fun is_entity :: "idql_value \<Rightarrow> bool" where
  "is_entity (VEntity _) = True"
| "is_entity _ = False"

fun find_entity_uses :: "expression \<Rightarrow> expression list" where
  "find_entity_uses (PrecedenceExpression e) = find_entity_uses e"
| "find_entity_uses (LogicalExpression _ l r) = find_entity_uses l @ find_entity_uses r"
| "find_entity_uses (NotExpression e) = find_entity_uses e"
| "find_entity_uses (AttributeExpression p op c) =
     (if is_entity p \<or> (case c of Some v \<Rightarrow> is_entity v | None \<Rightarrow> False)
      then [AttributeExpression p op c] else [])"
| "find_entity_uses (ValuePathExpression a s f op c) = [ValuePathExpression a s f op c]"
| "find_entity_uses NilExpression = []"

definition entity_operands :: "idql_value option \<Rightarrow> entity list" where
  "entity_operands c = (case c of Some (VEntity e) \<Rightarrow> [e] | _ \<Rightarrow> [])"

fun use_entities :: "expression \<Rightarrow> entity list" where
  "use_entities (AttributeExpression p op c) = entity_operands (Some p) @ entity_operands c"
| "use_entities (ValuePathExpression a s f op c) = a # entity_operands c"
| "use_entities _ = []"

definition find_entities :: "expression \<Rightarrow> entity list" where
  "find_entities ast = concat (map use_entities (find_entity_uses ast))"

section \<open>The meaning of a condition\<close>

text \<open>The abstract semantics: truth under an assignment of the comparisons.\<close>

fun cond_eval :: "(expression \<Rightarrow> bool) \<Rightarrow> expression \<Rightarrow> bool" where
  "cond_eval v (LogicalExpression AND l r) = (cond_eval v l \<and> cond_eval v r)"
| "cond_eval v (LogicalExpression OR l r) = (cond_eval v l \<or> cond_eval v r)"
| "cond_eval v (NotExpression e) = (\<not> cond_eval v e)"
| "cond_eval v (PrecedenceExpression e) = cond_eval v e"
| "cond_eval v e = v e"

section \<open>Equality of conditions\<close>

lemma slices_are_equal_iff: "slices_are_equal a b \<longleftrightarrow> map to_lower a = map to_lower b"
proof (induction a arbitrary: b)
  case (Cons x a)
  then show ?case by (cases b) (auto simp: slices_are_equal_def equal_fold_def)
qed (auto simp: slices_are_equal_def)

lemma wf_dif: "wf_expression e \<Longrightarrow> \<exists>s. expression_dif e = Inr s"
  using wf_iff_printable by (cases e) (auto simp: rbind_iff split: expression.splits)

lemma wf_walk: "wf_expression e \<Longrightarrow> \<exists>vs. compare_walk e = Inr vs"
proof (induction e)
  case (NotExpression e)
  then show ?case using wf_dif [of "NotExpression e"] by auto
next
  case (AttributeExpression p op c)
  then show ?case using wf_dif [of "AttributeExpression p op c"] by auto
next
  case (ValuePathExpression a s f op c)
  then show ?case using wf_dif [of "ValuePathExpression a s f op c"] by auto
qed auto

text \<open>The nodes \<open>Equals\<close> compares, for a tree that prints.\<close>

definition node_texts :: "expression \<Rightarrow> string list" where
  "node_texts e = (case compare_walk e of Inr vs \<Rightarrow> vs | Inl _ \<Rightarrow> [])"

lemma parsed_walk: "parse_filter s = Inr e \<Longrightarrow> compare_walk e = Inr (node_texts e)"
  using wf_walk parse_filter_wf by (fastforce simp: node_texts_def)

definition same_nodes :: "expression \<Rightarrow> expression \<Rightarrow> bool" where
  "same_nodes e f \<longleftrightarrow> map to_lower (sort (node_texts e)) = map to_lower (sort (node_texts f))"

lemma condition_equals_parsed:
  assumes "parse_filter (rule c) = Inr e" and "parse_filter (rule d) = Inr f"
  shows "condition_equals c (Some d) = Inr (action c = action d \<and> same_nodes e f)"
proof (cases "rule c = rule d")
  case True
  with assms show ?thesis by (simp add: condition_equals_def same_nodes_def)
next
  case False
  with assms parsed_walk show ?thesis
    by (simp add: condition_equals_def same_nodes_def slices_are_equal_iff)
qed

lemma same_mset_nodes: "mset (node_texts e) = mset (node_texts f) \<Longrightarrow> same_nodes e f"
  using properties_for_sort [of "sort (node_texts f)" "node_texts e"] by (simp add: same_nodes_def)

lemma regrouped_nodes:
  assumes "wf_expression x" "wf_expression y" "wf_expression z"
  shows "same_nodes (LogicalExpression AND x (PrecedenceExpression (LogicalExpression OR y z)))
    (LogicalExpression OR (LogicalExpression AND x y) z)"
proof -
  from assms wf_walk obtain a b c where "compare_walk x = Inr a" "compare_walk y = Inr b" "compare_walk z = Inr c"
    by metis
  then show ?thesis by (intro same_mset_nodes) (simp add: node_texts_def)
qed

section \<open>Attribute names\<close>

lemma forward_lookup:
  "map_of (forward (foldl (\<lambda>n (k, v). \<lparr>forward = AList.update (to_lower k) v (forward n),
       reverse_map = AList.update (to_lower v) k (reverse_map n)\<rparr>) n m)) x =
   (case map_of (rev (map (\<lambda>(k, v). (to_lower k, v)) m)) x of Some v \<Rightarrow> Some v | None \<Rightarrow> map_of (forward n) x)"
  by (induction m arbitrary: n) (auto simp: update_conv map_add_def split: option.splits)

lemma reverse_lookup:
  "map_of (reverse_map (foldl (\<lambda>n (k, v). \<lparr>forward = AList.update (to_lower k) v (forward n),
       reverse_map = AList.update (to_lower v) k (reverse_map n)\<rparr>) n m)) x =
   (case map_of (rev (map (\<lambda>(k, v). (to_lower v, k)) m)) x of Some v \<Rightarrow> Some v | None \<Rightarrow> map_of (reverse_map n) x)"
  by (induction m arbitrary: n) (auto simp: update_conv map_add_def split: option.splits)

lemma map_of_rev_distinct:
  "distinct (map fst xs) \<Longrightarrow> (k, v) \<in> set xs \<Longrightarrow> map_of (rev xs) k = Some v"
  by (simp add: rev_map [symmetric])

lemma provider_name:
  assumes "distinct (map (to_lower \<circ> fst) m)" and "(k, v) \<in> set m" and "equal_fold n k"
  shows "get_provider_attribute_name (new_name_mapper m) n = v"
proof -
  let ?m = "map (\<lambda>(k, v). (to_lower k, v)) m"
  have "distinct (map fst ?m)" using assms(1) by (simp add: comp_def case_prod_unfold)
  moreover have "(to_lower k, v) \<in> set ?m" using assms(2) by force
  ultimately have "map_of (rev ?m) (to_lower k) = Some v" by (rule map_of_rev_distinct)
  then have "map_of (rev ?m) (to_lower n) = Some v" using assms(3) by (simp add: equal_fold_def)
  then show ?thesis
    by (simp add: get_provider_attribute_name_def new_name_mapper_def forward_lookup)
qed

lemma hexa_name:
  assumes "distinct (map (to_lower \<circ> snd) m)" and "(k, v) \<in> set m" and "to_lower v = v"
  shows "get_hexa_filter_attribute_path (new_name_mapper m) v = k"
proof -
  let ?m = "map (\<lambda>(k, v). (to_lower v, k)) m"
  have "distinct (map fst ?m)" using assms(1) by (simp add: comp_def case_prod_unfold)
  moreover have "(v, k) \<in> set ?m" using assms(2,3) by force
  ultimately have "map_of (rev ?m) v = Some k" using map_of_rev_distinct by fast
  then show ?thesis
    by (simp add: get_hexa_filter_attribute_path_def new_name_mapper_def reverse_lookup)
qed

lemma hexa_name_upper:
  assumes "to_lower v \<noteq> v"
  shows "get_hexa_filter_attribute_path (new_name_mapper m) v = v"
proof -
  have "v \<notin> fst ` set (map (\<lambda>(k, v). (to_lower v, k)) m)"
    using assms by (auto simp: image_iff)
  then have "map_of (rev (map (\<lambda>(k, v). (to_lower v, k)) m)) v = None"
    by (simp add: map_of_eq_None_iff)
  then show ?thesis
    by (simp add: get_hexa_filter_attribute_path_def new_name_mapper_def reverse_lookup)
qed

section \<open>Entities\<close>

fun comparisons :: "expression \<Rightarrow> expression list" where
  "comparisons (PrecedenceExpression e) = comparisons e"
| "comparisons (LogicalExpression _ l r) = comparisons l @ comparisons r"
| "comparisons (NotExpression e) = comparisons e"
| "comparisons NilExpression = []"
| "comparisons e = [e]"

lemma use_entities_none: "\<not> is_entity p \<Longrightarrow> (case c of Some v \<Rightarrow> \<not> is_entity v | None \<Rightarrow> True) \<Longrightarrow>
    use_entities (AttributeExpression p op c) = []"
  by (cases p; cases c; cases "the c") (auto simp: entity_operands_def)

lemma find_entities_comparisons: "find_entities e = concat (map use_entities (comparisons e))"
proof (induction e)
  case (AttributeExpression p op c)
  then show ?case using use_entities_none [of p c op]
    by (auto simp: find_entities_def split: option.splits)
qed (simp_all add: find_entities_def)

section \<open>What a serialized condition means\<close>

text \<open>
  The serializer writes a chain of operands without brackets where a nested operator repeats or is
  \<open>and\<close>, and the parser reads every chain from the left.  \<open>chain e\<close> is the chain written for \<open>e\<close>:
  its first operand and the operators and operands that follow; \<open>reread e\<close> is the tree the
  parser makes of it.
\<close>

fun extend :: "expression \<Rightarrow> logical_op \<times> expression \<Rightarrow> expression" where
  "extend l (op, r) = LogicalExpression op l r"

definition rebuild :: "expression \<times> (logical_op \<times> expression) list \<Rightarrow> expression" where
  "rebuild ch = foldl extend (fst ch) (snd ch)"

fun or_below_and :: "logical_op \<Rightarrow> expression \<Rightarrow> bool" where
  "or_below_and AND (LogicalExpression OR _ _) = True"
| "or_below_and _ _ = False"

function chain :: "expression \<Rightarrow> expression \<times> (logical_op \<times> expression) list"
  and nested :: "logical_op \<Rightarrow> expression \<Rightarrow> expression \<times> (logical_op \<times> expression) list" where
  "chain (LogicalExpression op l r) =
     (fst (nested op l), snd (nested op l) @ (op, fst (nested op r)) # snd (nested op r))"
| "chain (NotExpression e) = (NotExpression (rebuild (chain e)), [])"
| "chain (PrecedenceExpression e) = (PrecedenceExpression (rebuild (chain e)), [])"
| "chain (AttributeExpression p op c) = (AttributeExpression p op c, [])"
| "chain (ValuePathExpression a s f op c) = (ValuePathExpression a s f op c, [])"
| "chain NilExpression = (NilExpression, [])"
| "nested op e =
     (let e' = strip_precedence e in
      if or_below_and op e' then (PrecedenceExpression (rebuild (chain e')), []) else chain e')"
  by pat_completeness auto
termination
  by (relation "measure (case_sum (\<lambda>e. 2 * size e) (\<lambda>(op, e). 2 * size e + 1))")
    (auto simp: less_Suc_eq_le)

declare nested.simps [simp del]

definition reread :: "expression \<Rightarrow> expression" where
  "reread e = rebuild (chain e)"

subsection \<open>Chains\<close>

fun writable_chain :: "bool \<Rightarrow> (logical_op \<times> expression) list \<Rightarrow> bool" where
  "writable_chain n [] = True"
| "writable_chain n ((op, r) # ys) = (operand r \<and> writable n r \<and> writable_chain (ends_not n r) ys)"

definition chain_text :: "(logical_op \<times> expression) list \<Rightarrow> string" where
  "chain_text ys = concat (map (\<lambda>(op, r). '' '' @ logical_string op @ '' '' @ cond_text [] r) ys)"

lemma writable_foldl:
  "writable n (foldl extend b ys) \<longleftrightarrow>
     writable n b \<and> writable_chain (ends_not n b) ys"
proof (induction ys arbitrary: b)
  case (Cons y ys)
  then show ?case by (cases y) simp
qed simp

lemma cond_text_foldl:
  "cond_text [] (foldl extend b ys) = cond_text [] b @ chain_text ys"
proof (induction ys arbitrary: b)
  case (Cons y ys)
  then show ?case by (cases y) (simp add: chain_text_def)
qed (simp add: chain_text_def)

lemma chain_text_append: "chain_text (xs @ (op, r) # ys) =
    chain_text xs @ '' '' @ logical_string op @ '' '' @ cond_text [] r @ chain_text ys"
  by (simp add: chain_text_def)

lemma writable_chain_append:
  "writable_chain n (xs @ ys) \<Longrightarrow> writable_chain n xs \<and> (\<exists>m. writable_chain m ys)"
  by (induction xs arbitrary: n) auto

lemma rebuild_text: "cond_text [] (rebuild ch) = cond_text [] (fst ch) @ chain_text (snd ch)"
  by (simp add: rebuild_def cond_text_foldl)

lemma writable_rebuild:
  "writable n (rebuild ch) \<longleftrightarrow> writable n (fst ch) \<and> writable_chain (ends_not n (fst ch)) (snd ch)"
  by (simp add: rebuild_def writable_foldl)

subsection \<open>The text of a chain\<close>

lemma walk_child:
  "serialize_walk e b = (if b \<and> or_below_and AND e
     then rbind (serialize_walk e False) (\<lambda>s. Inr (''('' @ s @ '')'')) else serialize_walk e False)"
proof (cases e)
  case (LogicalExpression op l r)
  then show ?thesis
    by (cases op; cases b) (auto simp: rbind_def simp del: check_nested_logic.simps split: sum.splits)
qed auto

lemma nested_walk:
  "check_nested_logic e op = (let e' = strip_precedence e in
     if or_below_and op e' then rbind (serialize_walk e' False) (\<lambda>s. Inr (''('' @ s @ '')'')) else serialize_walk e' False)"
proof -
  have "(\<not> repeats_operator op e' \<and> or_below_and AND e') = or_below_and op e'" for e'
    by (cases op; cases e') (auto split: logical_op.splits elim: or_below_and.elims)
  then show ?thesis
    using walk_child [of "strip_precedence e" "\<not> repeats_operator op (strip_precedence e)"]
    by (simp add: Let_def)
qed

lemma serialized_chain:
  "(\<forall>n. writable n (rebuild (chain e)) \<longrightarrow> serialize_walk e False = Inr (cond_text [] (rebuild (chain e))))"
  "(\<forall>n. writable n (rebuild (nested op e')) \<longrightarrow> check_nested_logic e' op = Inr (cond_text [] (rebuild (nested op e'))))"
proof (induction e and op e' rule: chain_nested.induct)
  case (1 op l r)
  show ?case
  proof (intro allI impI)
    fix n
    assume "writable n (rebuild (chain (LogicalExpression op l r)))"
    then have w: "writable n (fst (nested op l))"
      "writable_chain (ends_not n (fst (nested op l))) (snd (nested op l) @ (op, fst (nested op r)) # snd (nested op r))"
      by (simp_all add: writable_rebuild)
    from writable_chain_append [OF w(2)] obtain m where
      "writable_chain (ends_not n (fst (nested op l))) (snd (nested op l))"
      "writable m (fst (nested op r))" "writable_chain (ends_not m (fst (nested op r))) (snd (nested op r))"
      by auto
    with w(1) 1 have "check_nested_logic l op = Inr (cond_text [] (rebuild (nested op l)))"
      "check_nested_logic r op = Inr (cond_text [] (rebuild (nested op r)))"
      by (auto simp: writable_rebuild simp del: check_nested_logic.simps)
    then show "serialize_walk (LogicalExpression op l r) False = Inr (cond_text [] (rebuild (chain (LogicalExpression op l r))))"
      by (simp add: rebuild_text chain_text_append del: check_nested_logic.simps)
  qed
next
  case (2 e)
  then show ?case by (auto simp: rebuild_def)
next
  case (3 e)
  then show ?case by (auto simp: rebuild_def)
next
  case (4 p op c)
  then show ?case
    by (auto simp: rebuild_def attribute_string_def split: option.splits)
next
  case (7 op e)
  show ?case
  proof (intro allI impI)
    fix n
    assume w: "writable n (rebuild (nested op e))"
    show "check_nested_logic e op = Inr (cond_text [] (rebuild (nested op e)))"
    proof (cases "or_below_and op (strip_precedence e)")
      case True
      then have "nested op e = (PrecedenceExpression (rebuild (chain (strip_precedence e))), [])"
        by (simp add: nested.simps)
      with w 7(1) [OF refl True] have "serialize_walk (strip_precedence e) False =
          Inr (cond_text [] (rebuild (chain (strip_precedence e))))"
        by (auto simp: rebuild_def)
      with True show ?thesis unfolding nested_walk
        by (simp add: nested.simps) (simp add: rebuild_def)
    next
      case False
      with w have "writable n (rebuild (chain (strip_precedence e)))" by (simp add: nested.simps)
      with 7(2) [OF refl False] False show ?thesis
        unfolding nested_walk by (auto simp: nested.simps)
    qed
  qed
qed (simp_all add: rebuild_def)

lemma serialize_writable:
  "writable False (reread e) \<Longrightarrow> serialize_expression e = Inr (cond_text [] (reread e))"
  using serialized_chain(1) [of e] by (auto simp: serialize_expression_def reread_def)

lemma serialize_parse:
  assumes "writable False (reread e)" and "serialize_expression e = Inr s" and "ascii s"
  shows "parse_filter s = Inr (reread e)"
  using serialize_writable [OF assms(1)] parse_cond_text [OF assms(1), of "[]"] assms(2,3) by simp

subsection \<open>The meaning of a chain\<close>

text \<open>Every operator of the chain written for a right operand is the operator before it.\<close>

function safe_nesting :: "expression \<Rightarrow> bool" where
  "safe_nesting (LogicalExpression op l r) =
     (safe_nesting (strip_precedence l) \<and> safe_nesting (strip_precedence r) \<and>
      list_all (\<lambda>(o', _). o' = op) (snd (nested op r)))"
| "safe_nesting (NotExpression e) = safe_nesting e"
| "safe_nesting (PrecedenceExpression e) = safe_nesting e"
| "safe_nesting (AttributeExpression _ _ _) = True"
| "safe_nesting (ValuePathExpression _ _ _ _ _) = True"
| "safe_nesting NilExpression = True"
  by pat_completeness auto
termination
  by (relation "measure size") (auto simp: less_Suc_eq_le intro: le_trans [OF size_strip])

definition op_eval :: "logical_op \<Rightarrow> bool \<Rightarrow> bool \<Rightarrow> bool" where
  "op_eval op a b = (case op of AND \<Rightarrow> a \<and> b | OR \<Rightarrow> a \<or> b)"

lemma cond_eval_logical: "cond_eval v (LogicalExpression op l r) = op_eval op (cond_eval v l) (cond_eval v r)"
  by (cases op) (simp_all add: op_eval_def)

lemma op_eval_assoc: "op_eval op (op_eval op a b) c = op_eval op a (op_eval op b c)"
  by (cases op) (auto simp: op_eval_def)

lemma eval_foldl_assoc:
  "list_all (\<lambda>(o', _). o' = op) ys \<Longrightarrow>
   cond_eval v (foldl extend (LogicalExpression op b x) ys) =
   op_eval op (cond_eval v b) (cond_eval v (foldl extend x ys))"
proof (induction ys rule: rev_induct)
  case Nil
  then show ?case by (simp add: cond_eval_logical)
next
  case (snoc y ys)
  then show ?case by (cases y) (simp add: cond_eval_logical op_eval_assoc)
qed

lemma rebuild_append: "rebuild (x, xs @ (op, y) # ys) =
    foldl extend (LogicalExpression op (rebuild (x, xs)) y) ys"
  by (simp add: rebuild_def)

lemma eval_strip [simp]: "cond_eval v (strip_precedence e) = cond_eval v e"
  by (cases e) simp_all

lemma eval_chain:
  "safe_nesting e \<longrightarrow> cond_eval v (rebuild (chain e)) = cond_eval v e"
  "safe_nesting (strip_precedence e') \<longrightarrow> cond_eval v (rebuild (nested op e')) = cond_eval v e'"
proof (induction e and op e' rule: chain_nested.induct)
  case (1 op l r)
  show ?case
  proof
    assume s: "safe_nesting (LogicalExpression op l r)"
    then have "cond_eval v (rebuild (nested op l)) = cond_eval v l" "cond_eval v (rebuild (nested op r)) = cond_eval v r"
      using 1 by auto
    with s show "cond_eval v (rebuild (chain (LogicalExpression op l r))) = cond_eval v (LogicalExpression op l r)"
      by (simp add: rebuild_append eval_foldl_assoc cond_eval_logical) (simp add: rebuild_def)
  qed
next
  case (7 op e)
  then show ?case
    by (cases "or_below_and op (strip_precedence e)"; simp add: nested.simps; simp add: rebuild_def)
qed (simp_all add: rebuild_def)

section \<open>The name mapper as an interface\<close>

text \<open>
  What the condition translators rely on: on the names of a valid mapping, translating to the
  provider and back is the identity.
\<close>

locale name_mapping =
  fixes to_prov :: "'m \<Rightarrow> string \<Rightarrow> string"
    and to_hexa :: "'m \<Rightarrow> string \<Rightarrow> string"
    and valid :: "'m \<Rightarrow> bool"
    and names :: "'m \<Rightarrow> string set"
  assumes inverse: "valid m \<Longrightarrow> n \<in> names m \<Longrightarrow> to_hexa m (to_prov m n) = n"
begin

lemma distinct_names: "valid m \<Longrightarrow> inj_on (to_prov m) (names m)"
  by (metis inj_onI inverse)

lemma list_inverse: "valid m \<Longrightarrow> set ns \<subseteq> names m \<Longrightarrow> map (to_hexa m) (map (to_prov m) ns) = ns"
  by (induction ns) (auto simp: inverse)

end

text \<open>No two names and no two provider names differ in case only, and provider names are in lower case.\<close>

definition name_table :: "string go_map \<Rightarrow> bool" where
  "name_table m \<longleftrightarrow> distinct (map (to_lower \<circ> fst) m) \<and> distinct (map (to_lower \<circ> snd) m) \<and>
     list_all (\<lambda>(k, v). to_lower v = v) m"

lemma name_table_inverse:
  assumes "name_table m" and "n \<in> fst ` set m"
  shows "get_hexa_filter_attribute_path (new_name_mapper m) (get_provider_attribute_name (new_name_mapper m) n) = n"
proof -
  from assms(2) obtain v where "(n, v) \<in> set m" by auto
  with assms(1) provider_name [of m n v n] hexa_name [of m n v] show ?thesis
    by (auto simp: name_table_def list_all_iff)
qed

interpretation attribute_names: name_mapping
  "\<lambda>m. get_provider_attribute_name (new_name_mapper m)"
  "\<lambda>m. get_hexa_filter_attribute_path (new_name_mapper m)" name_table "\<lambda>m. fst ` set m"
  by unfold_locales (rule name_table_inverse)

section \<open>Properties\<close>

text \<open>On conditions whose rules parse, \<open>Equals\<close> is an equivalence relation.\<close>

lemma condition_equals_equivalence:
  assumes "parse_filter (rule c) = Inr e" and "parse_filter (rule d) = Inr f" and "parse_filter (rule x) = Inr g"
  shows "condition_equals c (Some c) = Inr True \<and>
    condition_equals c (Some d) = condition_equals d (Some c) \<and>
    (condition_equals c (Some d) = Inr True \<and> condition_equals d (Some x) = Inr True \<longrightarrow>
     condition_equals c (Some x) = Inr True)"
  using assms by (auto simp: condition_equals_parsed same_nodes_def)

text \<open>\<open>Equals\<close> does not see how the operators are grouped: \<open>x and (y or z)\<close> equals
  \<open>x and y or z\<close>, which the parser reads as \<open>(x and y) or z\<close>, although the two differ in meaning.\<close>

lemma equals_ignores_grouping:
  assumes "parse_filter (rule c) = Inr (LogicalExpression AND x (PrecedenceExpression (LogicalExpression OR y z)))"
    and "parse_filter (rule d) = Inr (LogicalExpression OR (LogicalExpression AND x y) z)"
    and "action c = action d"
  shows "condition_equals c (Some d) = Inr True"
proof -
  have "wf_expression x" "wf_expression y" "wf_expression z"
    using parse_filter_wf [OF assms(1)] by simp_all
  then show ?thesis
    using condition_equals_parsed [OF assms(1,2)] assms(3) regrouped_nodes by simp
qed

lemma regrouped_examples:
  "parse_filter ''level pr and (level pr or team eq blue)'' =
     Inr (LogicalExpression AND level_present (PrecedenceExpression (LogicalExpression OR level_present team_is_blue)))"
  "parse_filter ''level pr and level pr or team eq blue'' =
     Inr (LogicalExpression OR (LogicalExpression AND level_present level_present) team_is_blue)"
  using example_writable
  by (auto intro!: parse_writable simp: example_texts ascii_def)
    (simp_all add: level_present_def team_is_blue_def)


definition grouped_example :: expression where
  "grouped_example = LogicalExpression AND level_present
     (PrecedenceExpression (LogicalExpression OR (NotExpression team_is_blue) (PrecedenceExpression level_present)))"


text \<open>A conjunction on the right of a disjunction loses its brackets: what is serialized
  as \<open>x or (y and z)\<close> is read back as \<open>(x or y) and z\<close>.\<close>

lemma serialize_loses_grouping:
  fixes p1 p2 p3 op1 op2 op3 c1 c2 c3
  defines "x \<equiv> AttributeExpression p1 op1 c1" and "y \<equiv> AttributeExpression p2 op2 c2"
    and "z \<equiv> AttributeExpression p3 op3 c3"
  assumes "writable False x" and "writable False y" and "writable False z"
    and "serialize_expression (LogicalExpression OR x (PrecedenceExpression (LogicalExpression AND y z))) = Inr s"
    and "ascii s"
  shows "parse_filter s = Inr (LogicalExpression AND (LogicalExpression OR x y) z)"
proof -
  have r: "reread (LogicalExpression OR x (PrecedenceExpression (LogicalExpression AND y z))) =
      LogicalExpression AND (LogicalExpression OR x y) z"
    by (simp add: reread_def x_def y_def z_def nested.simps rebuild_def)
  have "writable False (LogicalExpression AND (LogicalExpression OR x y) z)"
    using assms(4-6) by (simp add: x_def y_def z_def)
  with serialize_parse [OF _ assms(7,8)] r show ?thesis by simp
qed

text \<open>For a table whose names differ not only in case and whose provider names are in
  lower case, mapping a name to the provider and back gives the name.\<close>

lemma name_mapper_roundtrip:
  assumes "name_table m" and "n \<in> fst ` set m"
  shows "get_hexa_filter_attribute_path (new_name_mapper m) (get_provider_attribute_name (new_name_mapper m) n) = n"
  using assms by (rule attribute_names.inverse)

text \<open>A provider name with an upper case letter is never mapped back: the reverse table
  has keys in lower case only and is searched with the name as it is.\<close>

lemma upper_case_not_mapped_back:
  "to_lower v \<noteq> v \<Longrightarrow> get_hexa_filter_attribute_path (new_name_mapper m) v = v"
  by (rule hexa_name_upper)

text \<open>\<open>FindEntities\<close> returns the entities among the operands of every comparison of
  the tree, from left to right.\<close>

lemma find_entities_complete: "find_entities e = concat (map use_entities (comparisons e))"
  by (rule find_entities_comparisons)

end
