(* ===== verification/Hexa_Policy.thy ===== *)
theory Hexa_Policy
  imports Conditions
begin

text \<open>
  \<^verbatim>\<open>pkg/hexapolicy/hexa_policy.go\<close> up to \<open>ScopeInfo\<close>: the policy statement and its clauses, the
  content hash, and the two ways policies are compared (\<open>Equals\<close>, \<open>Compare\<close>).

  \<open>etag.Generate\<close> is a library function and a parameter, \<open>gen\<close>.  A method with a pointer receiver
  that writes it returns the new receiver.  A nil slice is None.  Times are the texts of their
  timestamps; the values of the free-form \<open>SourceData\<close> are texts, string tables or the name of
  anything else.
\<close>

section \<open>The data\<close>

datatype source_value = SText string | STable "string go_map" | SOther string

record meta_info =
  meta_version :: string
  source_data :: "source_value go_map option"
  description :: string
  created :: "string option"
  modified :: "string option"
  etag :: string
  policy_id :: "string option"
  pap_id :: "string option"
  provider_type :: string

record scope_info =
  scope_filter :: "string option"
  scope_attributes :: "string slice"

record policy_info =
  meta :: meta_info
  subjects :: "string slice"
  actions :: "string slice"
  object_info :: string
  condition :: "condition_info option"
  scope :: "scope_info option"

record policies =
  policy_list :: "policy_info slice"
  app :: "string option"

definition add_policy :: "policies \<Rightarrow> policy_info \<Rightarrow> policies" where
  "add_policy p info = p\<lparr>policy_list := append_slice (policy_list p) [info]\<rparr>"

definition add_policies :: "policies \<Rightarrow> policies \<Rightarrow> policies" where
  "add_policies p q = foldl add_policy p (elems (policy_list q))"

section \<open>The content hash\<close>

text \<open>
  The bytes that are hashed.  For the scope the code marshals the condition once more, which is
  \<open>null\<close> when there is none.
\<close>

definition marshal_condition :: "condition_info option \<Rightarrow> string" where
  "marshal_condition c =
     (case c of
        None \<Rightarrow> ''null''
      | Some ci \<Rightarrow> marshal_object
          ((if rule ci = [] then [] else [(''Rule'', marshal_string (rule ci))]) @
           (if action ci = [] then [] else [(''Action'', marshal_string (action ci))])))"

definition policy_bytes :: "policy_info \<Rightarrow> string" where
  "policy_bytes p =
     marshal_strings (subjects p) @ marshal_strings (actions p) @ marshal_string (object_info p) @
     (if condition p \<noteq> None then marshal_condition (condition p) else []) @
     (if scope p \<noteq> None then marshal_condition (condition p) else [])"

definition etag_value :: "(string \<Rightarrow> string) \<Rightarrow> policy_info \<Rightarrow> string res" where
  "etag_value gen p =
     (let v = gen (policy_bytes p) in
      rbind (go_slice v 0 1) (\<lambda>c.
        if c = [dq] then go_slice v 1 (length v - 1) else Inr v))"

definition calculate_etag :: "(string \<Rightarrow> string) \<Rightarrow> policy_info \<Rightarrow> (policy_info \<times> string) res" where
  "calculate_etag gen p =
     rbind (etag_value gen p) (\<lambda>v. Inr (p\<lparr>meta := (meta p)\<lparr>etag := v\<rparr>\<rparr>, v))"

definition calculate_etags :: "(string \<Rightarrow> string) \<Rightarrow> policies \<Rightarrow> policies res" where
  "calculate_etags gen ps =
     (case policy_list ps of
        None \<Rightarrow> Inr ps
      | Some xs \<Rightarrow>
          rbind (mapM (\<lambda>p. rbind (calculate_etag gen p) (\<lambda>(p', _). Inr p')) xs)
            (\<lambda>ys. Inr (ps\<lparr>policy_list := Some ys\<rparr>)))"

section \<open>Equality of the clauses\<close>

definition action_equals :: "string \<Rightarrow> string \<Rightarrow> bool" where
  "action_equals a b = equal_fold a b"

definition action_entity_path :: "string \<Rightarrow> entity" where
  "action_entity_path a = parse_entity a"

definition actions_equal :: "policy_info \<Rightarrow> string slice \<Rightarrow> bool" where
  "actions_equal p acts \<longleftrightarrow>
     \<not> (acts = None \<or> length (elems (actions p)) \<noteq> length (elems acts)) \<and>
     (\<forall>a \<in> set (elems (actions p)). \<exists>b \<in> set (elems acts). action_equals a b)"

definition subject_equals :: "string slice \<Rightarrow> string slice \<Rightarrow> bool" where
  "subject_equals s t \<longleftrightarrow>
     length (elems s) = length (elems t) \<and>
     (\<forall>m \<in> set (elems s). \<exists>n \<in> set (elems t). equal_fold m n)"

definition subject_entity_paths :: "string slice \<Rightarrow> entity list" where
  "subject_entity_paths s = map parse_entity (elems s)"

definition object_equals :: "string \<Rightarrow> string option \<Rightarrow> bool" where
  "object_equals ob other = (case other of None \<Rightarrow> False | Some ob' \<Rightarrow> equal_fold ob ob')"

definition object_entity :: "string \<Rightarrow> entity" where
  "object_entity ob = parse_entity ob"

datatype scope_kind = ScopeSQL | ScopeIDQL | ScopeUnassigned

definition scope_type :: "scope_info \<Rightarrow> scope_kind" where
  "scope_type s =
     (case scope_filter s of
        None \<Rightarrow> ScopeUnassigned
      | Some f \<Rightarrow>
          if f = [] then ScopeUnassigned
          else
            (let p = to_lower (hd (split_str f '':'')) in
             if p = ''sql'' then ScopeSQL else if p = ''idql'' then ScopeIDQL else ScopeUnassigned))"

definition scope_value :: "scope_info \<Rightarrow> string res" where
  "scope_value s =
     rbind (go_deref (scope_filter s)) (\<lambda>f.
       case scope_type s of
         ScopeSQL \<Rightarrow> go_slice f 4 (length f)
       | ScopeIDQL \<Rightarrow> go_slice f 5 (length f)
       | ScopeUnassigned \<Rightarrow> Inr f)"

definition attributes_match :: "string slice \<Rightarrow> string slice \<Rightarrow> bool" where
  "attributes_match s t \<longleftrightarrow>
     length (elems s) = length (elems t) \<and>
     (\<forall>a \<in> set (elems s). \<exists>b \<in> set (elems t). equal_fold a b)"

definition scope_equals :: "scope_info \<Rightarrow> scope_info option \<Rightarrow> bool res" where
  "scope_equals s other =
     rbind (go_deref other) (\<lambda>t.
       if scope_type s \<noteq> scope_type t then Inr False
       else
         rbind (case scope_filter s of
                  None \<Rightarrow> Inr True
                | Some f \<Rightarrow> rbind (go_deref (scope_filter t)) (\<lambda>g. Inr (f = g)))
           (\<lambda>same. if \<not> same then Inr False
                   else Inr (attributes_match (scope_attributes s) (scope_attributes t))))"

section \<open>Equality and difference of policies\<close>

text \<open>What \<open>Equals\<close> does once the hashes differ.\<close>

definition clauses_equal :: "policy_info \<Rightarrow> policy_info \<Rightarrow> bool" where
  "clauses_equal p q \<longleftrightarrow>
     subject_equals (subjects p) (subjects q) \<and> actions_equal p (actions q) \<and>
     object_equals (object_info p) (Some (object_info q))"

definition conditions_equal :: "condition_info option \<Rightarrow> condition_info option \<Rightarrow> bool res" where
  "conditions_equal c d =
     (case c of
        Some c' \<Rightarrow> (case d of None \<Rightarrow> Inr False | Some _ \<Rightarrow> condition_equals c' d)
      | None \<Rightarrow> Inr (d = None))"

definition scopes_equal :: "scope_info option \<Rightarrow> scope_info option \<Rightarrow> bool res" where
  "scopes_equal s t =
     (case s of
        Some s' \<Rightarrow> (case t of None \<Rightarrow> Inr False | Some _ \<Rightarrow> scope_equals s' t)
      | None \<Rightarrow> Inr (t = None))"

definition semantic_equals :: "policy_info \<Rightarrow> policy_info \<Rightarrow> bool res" where
  "semantic_equals p q =
     (if \<not> clauses_equal p q then Inr False
      else
        rbind (conditions_equal (condition p) (condition q)) (\<lambda>c.
          if \<not> c then Inr False else scopes_equal (scope p) (scope q)))"

definition policy_equals ::
  "(string \<Rightarrow> string) \<Rightarrow> policy_info \<Rightarrow> policy_info \<Rightarrow> (policy_info \<times> bool) res" where
  "policy_equals gen p q =
     rbind (calculate_etag gen p) (\<lambda>(p', e).
     rbind (calculate_etag gen q) (\<lambda>(_, f).
       if e = f then Inr (p', True)
       else rbind (semantic_equals p' q) (\<lambda>b. Inr (p', b))))"

datatype difference = CompareEqual | DifAction | DifSubject | DifObject | DifCondition

text \<open>
  The test of the condition in \<open>Compare\<close>: the second half of its disjunction asks for a condition
  that is both nil and not nil.
\<close>

definition condition_differs :: "condition_info option \<Rightarrow> condition_info option \<Rightarrow> bool res" where
  "condition_differs c d =
     (if c \<noteq> None \<and> d = None \<or> c = None \<and> c \<noteq> None then Inr True
      else
        (case c of
           None \<Rightarrow> Inr False
         | Some c' \<Rightarrow> rbind (condition_equals c' d) (\<lambda>b. Inr (\<not> b))))"

definition compare_policies ::
  "(string \<Rightarrow> string) \<Rightarrow> policy_info \<Rightarrow> policy_info \<Rightarrow> (policy_info \<times> difference list) res" where
  "compare_policies gen p q =
     rbind (policy_equals gen p q) (\<lambda>(p', same).
       if same then Inr (p', [CompareEqual])
       else
         rbind (condition_differs (condition p') (condition q)) (\<lambda>cd.
           let difs =
             (if \<not> subject_equals (subjects p') (subjects q) then [DifSubject] else []) @
             (if \<not> actions_equal p' (actions q) then [DifAction] else []) @
             (if \<not> object_equals (object_info p') (Some (object_info q)) then [DifObject] else []) @
             (if cd then [DifCondition] else [])
           in Inr (p', if difs = [] then [CompareEqual] else difs)))"

section \<open>The hashed bytes determine the content\<close>

lemma marshal_string_Cons: "\<exists>r. marshal_string s = dq # r"
  by (simp add: marshal_string_def)

lemma marshal_items_inj:
  "join_str (map marshal_string xs) '','' @ CHR '']'' # r = join_str (map marshal_string ys) '','' @ CHR '']'' # s \<Longrightarrow>
   xs = ys \<and> r = s"
proof (induction xs arbitrary: ys)
  case Nil
  then show ?case
  proof (cases ys)
    case (Cons y ys')
    then show ?thesis using Nil marshal_string_Cons [of y] by (cases ys') auto
  qed simp
next
  case (Cons x xs)
  obtain y ys' where ys: "ys = y # ys'"
    using Cons.prems marshal_string_Cons [of x] by (cases ys; cases xs) auto
  define tail where "tail = (\<lambda>zs r. (case zs of [] \<Rightarrow> [] | _ \<Rightarrow> CHR '','' # join_str (map marshal_string zs) '','') @ CHR '']'' # r)"
  have step: "join_str (map marshal_string (z # zs)) '','' @ CHR '']'' # r = marshal_string z @ tail zs r" for z zs r
    by (cases zs) (simp_all add: tail_def)
  from Cons.prems have "marshal_string x @ tail xs r = marshal_string y @ tail ys' s"
    by (simp only: ys step)
  from marshal_string_inj [OF this] have "x = y" "tail xs r = tail ys' s" by simp_all
  moreover from this(2) have "xs = ys' \<and> r = s"
    using Cons.IH [of ys'] by (cases xs; cases ys') (auto simp: tail_def)
  ultimately show ?case by (simp add: ys)
qed

lemma marshal_strings_inj: "marshal_strings xs @ r = marshal_strings ys @ s \<Longrightarrow> xs = ys \<and> r = s"
proof (cases xs; cases ys)
  fix us vs
  assume eq: "marshal_strings xs @ r = marshal_strings ys @ s" and c: "xs = Some us" "ys = Some vs"
  then have "join_str (map marshal_string us) '','' @ CHR '']'' # r = join_str (map marshal_string vs) '','' @ CHR '']'' # s"
    by (simp add: marshal_strings_def)
  from marshal_items_inj [OF this] c show ?thesis by simp
qed (simp_all add: marshal_strings_def)

lemma marshal_fields_inj:
  "marshal_condition (Some c) @ r = marshal_condition (Some d) @ s \<Longrightarrow> c = d \<and> r = s"
proof -
  assume eq: "marshal_condition (Some c) @ r = marshal_condition (Some d) @ s"
  have names: "marshal_string ''Rule'' = dq # ''Rule'' @ [dq]" "marshal_string ''Action'' = dq # ''Action'' @ [dq]"
    by (simp_all add: marshal_string_def json_quote_char_def)
  define f where "f = (\<lambda>c :: condition_info. \<lambda>r :: string.
     (if rule c = [] then [] else dq # ''Rule'' @ dq # CHR '':'' # marshal_string (rule c) @ (if action c = [] then [] else '','')) @
     (if action c = [] then [] else dq # ''Action'' @ dq # CHR '':'' # marshal_string (action c)) @ CHR ''}'' # r)"
  have m: "marshal_condition (Some c) @ r = CHR ''{'' # f c r" for c r
    by (simp add: marshal_condition_def marshal_object_def names f_def)
  from eq have f: "f c r = f d s" by (simp add: m)
  have "rule c = rule d \<and> action c = action d \<and> r = s"
  proof (cases "rule c = []"; cases "rule d = []")
    assume *: "rule c \<noteq> []" "rule d \<noteq> []"
    with f have "marshal_string (rule c) @ (if action c = [] then [] else '','' @ dq # ''Action'' @ dq # CHR '':'' # marshal_string (action c)) @ CHR ''}'' # r =
        marshal_string (rule d) @ (if action d = [] then [] else '','' @ dq # ''Action'' @ dq # CHR '':'' # marshal_string (action d)) @ CHR ''}'' # s"
      by (simp add: f_def split: if_splits)
    from marshal_string_inj [OF this] show ?thesis
      by (auto dest: marshal_string_inj split: if_splits)
  qed (use f in \<open>auto simp: f_def dest: marshal_string_inj split: if_splits\<close>)
  then show ?thesis by simp
qed

definition same_content :: "policy_info \<Rightarrow> policy_info \<Rightarrow> bool" where
  "same_content p q \<longleftrightarrow>
     subjects p = subjects q \<and> actions p = actions q \<and> object_info p = object_info q \<and>
     condition p = condition q \<and> (scope p = None \<longleftrightarrow> scope q = None)"

lemma marshal_condition_ne: "marshal_condition c \<noteq> []" "hd (marshal_condition (Some d)) = CHR ''{''"
  "marshal_condition None = ''null''"
  by (auto simp: marshal_condition_def marshal_object_def split: option.splits)

lemma policy_bytes_iff: "policy_bytes p = policy_bytes q \<longleftrightarrow> same_content p q"
proof
  assume "policy_bytes p = policy_bytes q"
  then have "subjects p = subjects q" and "actions p = actions q" and "object_info p = object_info q"
    and c: "(if condition p \<noteq> None then marshal_condition (condition p) else []) @
        (if scope p \<noteq> None then marshal_condition (condition p) else []) =
      (if condition q \<noteq> None then marshal_condition (condition q) else []) @
        (if scope q \<noteq> None then marshal_condition (condition q) else [])"
    unfolding policy_bytes_def by (blast dest: marshal_strings_inj marshal_string_inj)+
  moreover have "condition p = condition q \<and> (scope p = None \<longleftrightarrow> scope q = None)"
  proof (cases "condition p"; cases "condition q")
    fix x y assume "condition p = Some x" "condition q = Some y"
    with c marshal_condition_ne(1) marshal_condition_ne(1) [THEN not_sym] show ?thesis
      using marshal_fields_inj [of x "[]" y "[]"] marshal_fields_inj [of x "[]" y "marshal_condition (Some y)"]
        marshal_fields_inj [of x "marshal_condition (Some x)" y "[]"] marshal_fields_inj [of x _ y "marshal_condition (Some y)"]
      by (auto split: if_splits)
  next
    fix y assume "condition p = None" "condition q = Some y"
    with c marshal_condition_ne(2) [of y] marshal_condition_ne show ?thesis
      by (cases "marshal_condition (Some y)") (auto split: if_splits)
  next
    fix x assume "condition p = Some x" "condition q = None"
    with c marshal_condition_ne(2) [of x] marshal_condition_ne show ?thesis
      by (cases "marshal_condition (Some x)") (auto split: if_splits)
  qed (use c in \<open>auto simp: marshal_condition_ne split: if_splits\<close>)
  ultimately show "same_content p q" by (simp add: same_content_def)
qed (auto simp: same_content_def policy_bytes_def)

text \<open>What the hash function promises: a quoted text, and no two inputs with the same one.\<close>

definition quoted_hash :: "(string \<Rightarrow> string) \<Rightarrow> bool" where
  "quoted_hash gen \<longleftrightarrow> (\<forall>b. \<exists>h. gen b = dq # h @ [dq])"

definition with_etag :: "(string \<Rightarrow> string) \<Rightarrow> policy_info \<Rightarrow> policy_info" where
  "with_etag gen p = p\<lparr>meta := (meta p)\<lparr>etag := butlast (tl (gen (policy_bytes p)))\<rparr>\<rparr>"

lemma calculate_etag_quoted:
  "quoted_hash gen \<Longrightarrow> calculate_etag gen p = Inr (with_etag gen p, butlast (tl (gen (policy_bytes p))))"
proof -
  assume "quoted_hash gen"
  then obtain h where "gen (policy_bytes p) = dq # h @ [dq]" by (auto simp: quoted_hash_def)
  then show ?thesis
    by (simp add: calculate_etag_def etag_value_def go_slice_def with_etag_def)
qed

lemma with_etag_keeps [simp]:
  "subjects (with_etag gen p) = subjects p" "actions (with_etag gen p) = actions p"
  "object_info (with_etag gen p) = object_info p" "condition (with_etag gen p) = condition p"
  "scope (with_etag gen p) = scope p" "policy_id (meta (with_etag gen p)) = policy_id (meta p)"
  by (simp_all add: with_etag_def)

lemma etag_eq_content:
  assumes "quoted_hash gen" and "inj gen"
  shows "butlast (tl (gen b)) = butlast (tl (gen c)) \<longleftrightarrow> b = c"
proof
  assume eq: "butlast (tl (gen b)) = butlast (tl (gen c))"
  from assms(1) obtain h k where "gen b = dq # h @ [dq]" "gen c = dq # k @ [dq]"
    by (meson quoted_hash_def)
  with eq have "gen b = gen c" by simp
  with assms(2) show "b = c" by (simp add: inj_eq)
qed simp

lemma semantic_with_etag [simp]: "semantic_equals (with_etag gen p) q = semantic_equals p q"
  unfolding semantic_equals_def clauses_equal_def actions_equal_def with_etag_keeps by (rule refl)

lemma policy_equals_quoted:
  assumes "quoted_hash gen"
  shows "policy_equals gen p q =
    (if butlast (tl (gen (policy_bytes p))) = butlast (tl (gen (policy_bytes q))) then Inr (with_etag gen p, True)
     else rbind (semantic_equals p q) (\<lambda>b. Inr (with_etag gen p, b)))"
  by (simp add: policy_equals_def calculate_etag_quoted [OF assms])

lemma policy_equals_content:
  assumes "quoted_hash gen" and "inj gen"
  shows "policy_equals gen p q =
    (if same_content p q then Inr (with_etag gen p, True)
     else rbind (semantic_equals p q) (\<lambda>b. Inr (with_etag gen p, b)))"
  by (simp add: policy_equals_quoted [OF assms(1)] etag_eq_content [OF assms] policy_bytes_iff)

section \<open>Matching of members\<close>

text \<open>
  Subjects, actions and scope attributes are compared in the same way: the same number of
  members, and every member of the first list matches one of the second.
\<close>

locale member_match =
  fixes matches :: "string list \<Rightarrow> string list \<Rightarrow> bool"
  assumes matches_iff: "matches s t \<longleftrightarrow> length s = length t \<and> (\<forall>m \<in> set s. \<exists>n \<in> set t. equal_fold m n)"
begin

lemma folded: "matches s t \<longleftrightarrow> length s = length t \<and> to_lower ` set s \<subseteq> to_lower ` set t"
  by (auto simp: matches_iff equal_fold_def image_subset_iff image_iff)

lemma reflexive: "matches s s"
  by (simp add: folded)

lemma transitive: "matches s t \<Longrightarrow> matches t u \<Longrightarrow> matches s u"
  by (auto simp: folded)

lemma distinct_sets:
  assumes "distinct (map to_lower s)" and "distinct (map to_lower t)"
  shows "matches s t \<longleftrightarrow> to_lower ` set s = to_lower ` set t"
proof -
  have card: "card (to_lower ` set s) = length s" "card (to_lower ` set t) = length t"
    using assms distinct_card [of "map to_lower s"] distinct_card [of "map to_lower t"] by simp_all
  show ?thesis
  proof
    assume "matches s t"
    then have "to_lower ` set s \<subseteq> to_lower ` set t" "length s = length t" by (simp_all add: folded)
    with card show "to_lower ` set s = to_lower ` set t" by (metis List.finite_set card_subset_eq finite_imageI)
  next
    assume "to_lower ` set s = to_lower ` set t"
    with card show "matches s t" by (simp add: folded)
  qed
qed

lemma symmetric: "distinct (map to_lower s) \<Longrightarrow> distinct (map to_lower t) \<Longrightarrow> matches s t = matches t s"
  using distinct_sets by blast

lemma duplicates_hide: "\<not> equal_fold a b \<Longrightarrow> matches [a, a] [a, b] \<and> \<not> matches [a, b] [a, a]"
  using equal_fold_sym by (auto simp: matches_iff)

end

interpretation subject_members: member_match "\<lambda>s t. subject_equals (Some s) (Some t)"
  by unfold_locales (simp add: subject_equals_def)

interpretation action_members: member_match "\<lambda>s t. actions_equal (p\<lparr>actions := Some s\<rparr>) (Some t)" for p
  by unfold_locales (simp add: actions_equal_def action_equals_def)

interpretation attribute_members: member_match "\<lambda>s t. attributes_match (Some s) (Some t)"
  by unfold_locales (simp add: attributes_match_def)

section \<open>Compare\<close>

lemma compare_cases:
  assumes "quoted_hash gen" and "compare_policies gen p q = Inr (p', ds)"
  shows "ds = [CompareEqual] \<or>
    (CompareEqual \<notin> set ds \<and> distinct ds \<and>
     (DifSubject \<in> set ds \<longleftrightarrow> \<not> subject_equals (subjects p) (subjects q)) \<and>
     (DifAction \<in> set ds \<longleftrightarrow> \<not> actions_equal p (actions q)) \<and>
     (DifObject \<in> set ds \<longleftrightarrow> \<not> equal_fold (object_info p) (object_info q)))"
proof -
  have a: "actions_equal (with_etag gen p) = actions_equal p"
    by (simp add: actions_equal_def fun_eq_iff)
  from assms(2) show ?thesis
    by (auto simp: compare_policies_def rbind_iff policy_equals_quoted [OF assms(1)] Let_def a object_equals_def
        split: if_splits)
qed

lemma compare_added_condition:
  assumes "quoted_hash gen" and "condition p = None" and "clauses_equal p q" and "condition q \<noteq> None"
  shows "compare_policies gen p q = Inr (with_etag gen p, [CompareEqual])"
proof -
  have "semantic_equals p q = Inr False"
    using assms by (auto simp: semantic_equals_def conditions_equal_def)
  moreover have "actions_equal (with_etag gen p) = actions_equal p"
    by (simp add: actions_equal_def fun_eq_iff)
  ultimately show ?thesis
    using assms by (auto simp: compare_policies_def policy_equals_quoted condition_differs_def clauses_equal_def)
qed

lemma compare_scope:
  assumes "quoted_hash gen" and "clauses_equal p q" and "condition p = condition q"
    and "scopes_equal (scope p) (scope q) = Inr b"
  shows "compare_policies gen p q = Inr (with_etag gen p, [CompareEqual])"
proof -
  have c: "conditions_equal (condition p) (condition q) = Inr True" "condition_differs (condition p) (condition q) = Inr False"
    using assms(3) by (auto simp: conditions_equal_def condition_differs_def condition_equals_def split: option.splits)
  then have "semantic_equals p q = Inr b"
    using assms by (auto simp: semantic_equals_def)
  moreover have "actions_equal (with_etag gen p) = actions_equal p"
    by (simp add: actions_equal_def fun_eq_iff)
  ultimately show ?thesis
    using assms(1,2) c by (auto simp: compare_policies_def policy_equals_quoted clauses_equal_def)
qed

section \<open>Scopes\<close>

lemma scope_equals_fault:
  "(\<exists>f. scope_equals s (Some t) = Inl f) \<longleftrightarrow>
     scope_filter s \<noteq> None \<and> scope_filter t = None \<and> scope_type s = ScopeUnassigned"
  by (auto simp: scope_equals_def rbind_Inl_iff go_deref_def scope_type_def Let_def split: option.splits if_splits)

section \<open>Properties\<close>

text \<open>A policy for the witnesses, and a hash function that keeps the two promises.\<close>

definition sample_meta :: "string option \<Rightarrow> meta_info" where
  "sample_meta i = \<lparr>meta_version = ''0.7'', source_data = None, description = [], created = None, modified = None,
     etag = [], policy_id = i, pap_id = None, provider_type = []\<rparr>"

definition sample_policy :: "string option \<Rightarrow> string list \<Rightarrow> policy_info" where
  "sample_policy i subs = \<lparr>meta = sample_meta i, subjects = Some subs, actions = Some [''http:GET''],
     object_info = ''PhotoApp'', condition = None, scope = None\<rparr>"

definition identity_hash :: "string \<Rightarrow> string" where
  "identity_hash b = dq # b @ [dq]"

lemma identity_hash_ok: "quoted_hash identity_hash" "inj identity_hash"
  by (auto simp: identity_hash_def quoted_hash_def inj_on_def)

lemma sample_fields [simp]:
  "subjects (sample_policy i s) = Some s" "actions (sample_policy i s) = Some [''http:GET'']"
  "object_info (sample_policy i s) = ''PhotoApp''" "condition (sample_policy i s) = None"
  "scope (sample_policy i s) = None" "policy_id (meta (sample_policy i s)) = i"
  by (simp_all add: sample_policy_def sample_meta_def)

text \<open>Property C8.  With a hash that has no collisions, \<open>Equals\<close> holds when subjects, actions, object and
  condition are the same and both or none of the policies has a scope, and otherwise compares the
  clauses, the condition and the scope semantically.\<close>

theorem policy_equals_by_content:
  assumes "quoted_hash gen" and "inj gen"
  shows "policy_equals gen p q =
    (if same_content p q then Inr (with_etag gen p, True)
     else rbind (semantic_equals p q) (\<lambda>b. Inr (with_etag gen p, b)))"
  using assms by (rule policy_equals_content)

theorem policy_equals_by_content_witness:
  "map_sum id snd (policy_equals identity_hash (sample_policy None [''any'']) (sample_policy (Some ''x'') [''any''])) = Inr True \<and>
   map_sum id snd (policy_equals identity_hash (sample_policy None [''any'']) (sample_policy None [''User:a'', ''b''])) = Inr False"
  using policy_equals_by_content [OF identity_hash_ok]
  by (simp add: same_content_def semantic_equals_def clauses_equal_def subject_equals_def)

text \<open>A change of the scope alone is invisible to \<open>Equals\<close>: the hash contains the condition
  in place of the scope, so two policies that differ only in their scopes are equal.\<close>

lemma scope_change_invisible:
  assumes "quoted_hash gen" and "scope p = Some s"
  shows "policy_equals gen p (p\<lparr>scope := Some t\<rparr>) = Inr (with_etag gen p, True)"
proof -
  have "policy_bytes (p\<lparr>scope := Some t\<rparr>) = policy_bytes p" using assms(2) by (simp add: policy_bytes_def)
  then show ?thesis by (simp add: policy_equals_quoted [OF assms(1)])
qed


lemma compare_sample:
  "compare_policies identity_hash (sample_policy None [''any'']) (sample_policy None [''User:a'']) =
     Inr (with_etag identity_hash (sample_policy None [''any'']), [DifSubject])"
proof -
  have "policy_equals identity_hash (sample_policy None [''any'']) (sample_policy None [''User:a'']) =
      Inr (with_etag identity_hash (sample_policy None [''any'']), False)"
    by (simp add: policy_equals_content [OF identity_hash_ok] same_content_def semantic_equals_def clauses_equal_def
        subject_equals_def equal_fold_def to_lower_def)
  then show ?thesis
    by (simp add: compare_policies_def condition_differs_def subject_equals_def actions_equal_def action_equals_def
        object_equals_def equal_fold_def to_lower_def)
qed


text \<open>When the first policy has no condition, the second has one and all clauses match,
  \<open>Compare\<close> reports the policies as equal.\<close>

lemma compare_misses_added_condition:
  assumes "quoted_hash gen" and "condition p = None" and "clauses_equal p q" and "condition q \<noteq> None"
  shows "compare_policies gen p q = Inr (with_etag gen p, [CompareEqual])"
  using assms by (rule compare_added_condition)

text \<open>Lists of subjects without repetitions (up to case) match exactly when they are the
  same sets, in any order; with repetitions the match is not even symmetric.\<close>

lemma subjects_match_as_sets:
  assumes "distinct (map to_lower s)" and "distinct (map to_lower t)" and "\<not> equal_fold a b"
  shows "subject_equals (Some s) (Some t) = (to_lower ` set s = to_lower ` set t) \<and>
    subject_equals (Some [a, a]) (Some [a, b]) \<and> \<not> subject_equals (Some [a, b]) (Some [a, a])"
  using subject_members.distinct_sets [OF assms(1,2)] subject_members.duplicates_hide [OF assms(3)] by simp

text \<open>Comparing two scopes panics exactly when the first has a filter that is neither SQL
  nor IDQL and the second has none.\<close>

lemma scope_equals_panics:
  "(\<exists>f. scope_equals s (Some t) = Inl f) \<longleftrightarrow>
     scope_filter s \<noteq> None \<and> scope_filter t = None \<and> scope_type s = ScopeUnassigned"
  by (rule scope_equals_fault)

end
