(* ===== verification/Policy_Reconcile.thy ===== *)
theory Policy_Reconcile
  imports Hexa_Policy
begin

text \<open>
  The last part of \<^verbatim>\<open>pkg/hexapolicy/hexa_policy.go\<close>: \<open>PolicyDif\<close> and \<open>ReconcilePolicies\<close>, which
  computes the changes that turn a set of existing policies into another one.

  The function keeps two maps of the existing policies not handled yet, one by policy id and one
  by content hash, and a list of differences: the fields of \<open>rec_state\<close>.  The existing policies it
  puts into the hash map carry their new hash; the copies it reports for the new side are taken
  before the hash is computed.
\<close>

section \<open>Differences\<close>

datatype change_type = ChangeNew | ChangeEqual | ChangeUpdate | ChangeDelete | ChangeIgnore

record policy_dif =
  dif_type :: change_type
  dif_policy_id :: string
  dif_hash :: string
  dif_types :: "difference slice"
  policy_exist :: "policy_info slice"
  policy_compare :: "policy_info option"

definition get_identifier :: "policy_dif \<Rightarrow> string" where
  "get_identifier d =
     (if dif_policy_id d \<noteq> [] then ''PolicyId: '' @ dif_policy_id d
      else if dif_hash d \<noteq> [] then ''Hash: '' @ dif_hash d
      else [])"

section \<open>ReconcilePolicies\<close>

record rec_state =
  id_map :: "policy_info go_map"
  etag_map :: "policy_info go_map"
  difs :: "policy_dif list"

definition index_policy :: "(string \<Rightarrow> string) \<Rightarrow> rec_state \<Rightarrow> policy_info \<Rightarrow> rec_state res" where
  "index_policy gen st p =
     (case policy_id (meta p) of
        Some i \<Rightarrow> Inr (st\<lparr>id_map := AList.update i p (id_map st)\<rparr>)
      | None \<Rightarrow>
          rbind (calculate_etag gen p) (\<lambda>(p', e).
            Inr (st\<lparr>etag_map := AList.update e p' (etag_map st)\<rparr>)))"

text \<open>A new policy whose id is the id of an existing one.\<close>

definition reconcile_by_id ::
  "(string \<Rightarrow> string) \<Rightarrow> bool \<Rightarrow> rec_state \<Rightarrow> policy_info \<Rightarrow> string \<Rightarrow> policy_info \<Rightarrow> rec_state res" where
  "reconcile_by_id gen diffs_only st c i source =
     rbind (compare_policies gen c source) (\<lambda>(_, types).
     rbind (go_deref (policy_id (meta source))) (\<lambda>sid.
       let dif = \<lparr>dif_type = (if CompareEqual \<in> set types then ChangeEqual else ChangeUpdate),
                  dif_policy_id = sid, dif_hash = [], dif_types = Some types,
                  policy_exist = Some [source], policy_compare = Some c\<rparr>
       in Inr (st\<lparr>id_map := AList.delete i (id_map st),
                  difs := difs st @ (if CompareEqual \<in> set types \<and> diffs_only then [] else [dif])\<rparr>)))"

text \<open>Any other new policy: the same content as an existing one without id, or new.\<close>

definition reconcile_by_hash ::
  "(string \<Rightarrow> string) \<Rightarrow> bool \<Rightarrow> rec_state \<Rightarrow> policy_info \<Rightarrow> rec_state res" where
  "reconcile_by_hash gen diffs_only st c =
     rbind (calculate_etag gen c) (\<lambda>(c', e).
       case map_of (etag_map st) e of
         Some source \<Rightarrow>
           (let dif = \<lparr>dif_type = ChangeEqual, dif_policy_id = [], dif_hash = etag (meta source),
                       dif_types = Some [CompareEqual], policy_exist = Some [source],
                       policy_compare = Some c\<rparr>
            in Inr (st\<lparr>etag_map := AList.delete (etag (meta c')) (etag_map st),
                       difs := difs st @ (if diffs_only then [] else [dif])\<rparr>))
       | None \<Rightarrow>
           Inr (st\<lparr>difs := difs st @
             [\<lparr>dif_type = ChangeNew,
               dif_policy_id = (case policy_id (meta c) of Some i \<Rightarrow> i | None \<Rightarrow> []),
               dif_hash = etag (meta c'), dif_types = None, policy_exist = None,
               policy_compare = Some c\<rparr>]\<rparr>))"

definition reconcile_policy ::
  "(string \<Rightarrow> string) \<Rightarrow> bool \<Rightarrow> rec_state \<Rightarrow> policy_info \<Rightarrow> rec_state res" where
  "reconcile_policy gen diffs_only st c =
     (case policy_id (meta c) of
        None \<Rightarrow> reconcile_by_hash gen diffs_only st c
      | Some i \<Rightarrow>
          (case map_of (id_map st) i of
             Some source \<Rightarrow> reconcile_by_id gen diffs_only st c i source
           | None \<Rightarrow> reconcile_by_hash gen diffs_only st c))"

text \<open>The existing policies left in the two maps are to be deleted.\<close>

definition delete_by_id :: "policy_info \<Rightarrow> policy_dif res" where
  "delete_by_id p =
     rbind (go_deref (policy_id (meta p))) (\<lambda>i.
       Inr \<lparr>dif_type = ChangeDelete, dif_policy_id = i, dif_hash = [], dif_types = None,
            policy_exist = Some [p], policy_compare = None\<rparr>)"

definition delete_by_hash :: "policy_info \<Rightarrow> policy_dif" where
  "delete_by_hash p =
     \<lparr>dif_type = ChangeDelete, dif_policy_id = [], dif_hash = etag (meta p), dif_types = None,
      policy_exist = Some [p], policy_compare = None\<rparr>"

definition reconcile_policies ::
  "(string \<Rightarrow> string) \<Rightarrow> policies \<Rightarrow> policy_info list \<Rightarrow> bool \<Rightarrow> policy_dif list res" where
  "reconcile_policies gen ps compare diffs_only =
     rbind (foldM (index_policy gen) \<lparr>id_map = [], etag_map = [], difs = []\<rparr> (elems (policy_list ps))) (\<lambda>st0.
     rbind (foldM (reconcile_policy gen diffs_only) st0 compare) (\<lambda>st.
     rbind (mapM delete_by_id (map snd (id_map st))) (\<lambda>dels.
       Inr (difs st @ dels @ map delete_by_hash (map snd (etag_map st))))))"

section \<open>Entries of the two maps\<close>

definition content_hash :: "(string \<Rightarrow> string) \<Rightarrow> policy_info \<Rightarrow> string" where
  "content_hash gen p = butlast (tl (gen (policy_bytes p)))"

lemma calculate_etag_hash:
  "quoted_hash gen \<Longrightarrow> calculate_etag gen p = Inr (with_etag gen p, content_hash gen p)"
  by (simp add: calculate_etag_quoted content_hash_def)

lemma with_etag_hash [simp]:
  "etag (meta (with_etag gen p)) = content_hash gen p" "content_hash gen (with_etag gen p) = content_hash gen p"
  by (simp_all add: with_etag_def content_hash_def policy_bytes_def)

text \<open>The key a policy is indexed by, and the policy as it stands in the index.\<close>

definition policy_key :: "(string \<Rightarrow> string) \<Rightarrow> policy_info \<Rightarrow> string + string" where
  "policy_key gen p = (case policy_id (meta p) of Some i \<Rightarrow> Inl i | None \<Rightarrow> Inr (content_hash gen p))"

definition indexed :: "(string \<Rightarrow> string) \<Rightarrow> policy_info \<Rightarrow> policy_info" where
  "indexed gen p = (case policy_id (meta p) of Some i \<Rightarrow> p | None \<Rightarrow> with_etag gen p)"

definition id_entries :: "policy_info list \<Rightarrow> policy_info go_map" where
  "id_entries ps = concat (map (\<lambda>p. case policy_id (meta p) of Some i \<Rightarrow> [(i, p)] | None \<Rightarrow> []) ps)"

definition hash_entries :: "(string \<Rightarrow> string) \<Rightarrow> policy_info list \<Rightarrow> policy_info go_map" where
  "hash_entries gen ps =
     concat (map (\<lambda>p. case policy_id (meta p) of Some i \<Rightarrow> [] | None \<Rightarrow> [(content_hash gen p, with_etag gen p)]) ps)"

lemma entries_simps [simp]:
  "id_entries [] = []" "hash_entries gen [] = []"
  "id_entries (p # ps) = (case policy_id (meta p) of Some i \<Rightarrow> [(i, p)] | None \<Rightarrow> []) @ id_entries ps"
  "hash_entries gen (p # ps) =
     (case policy_id (meta p) of Some i \<Rightarrow> [] | None \<Rightarrow> [(content_hash gen p, with_etag gen p)]) @ hash_entries gen ps"
  "id_entries (ps @ qs) = id_entries ps @ id_entries qs"
  "hash_entries gen (ps @ qs) = hash_entries gen ps @ hash_entries gen qs"
  by (simp_all add: id_entries_def hash_entries_def)

lemma entries_keys:
  "i \<in> fst ` set (id_entries ps) \<longleftrightarrow> Inl i \<in> policy_key gen ` set ps"
  "e \<in> fst ` set (hash_entries gen ps) \<longleftrightarrow> Inr e \<in> policy_key gen ` set ps"
  by (induction ps) (auto simp: policy_key_def split: option.splits)

lemma update_fresh: "k \<notin> fst ` set m \<Longrightarrow> AList.update k v m = m @ [(k, v)]"
  by (induction m) auto

lemma delete_absent: "k \<notin> fst ` set m \<Longrightarrow> AList.delete k m = m"
  by (induction m) (auto simp: AList.delete_eq)

lemma delete_mset:
  "go_map_ok m \<Longrightarrow> map_of m k = Some v \<Longrightarrow>
   add_mset v (mset (map snd (AList.delete k m))) = mset (map snd m)"
proof (induction m)
  case (Cons x m)
  obtain a b where x: "x = (a, b)" by (cases x)
  show ?case
  proof (cases "a = k")
    case True
    with Cons.prems x delete_absent [of k m] show ?thesis by (simp add: AList.delete_eq)
  next
    case False
    with Cons x show ?thesis by (simp add: AList.delete_eq add_mset_commute)
  qed
qed simp

lemma foldM_append: "foldM f s (xs @ ys) = rbind (foldM f s xs) (\<lambda>t. foldM f t ys)"
  by (induction xs arbitrary: s) (auto simp: rbind_def split: sum.splits)

lemma index_policies:
  assumes "quoted_hash gen" and "distinct (map (policy_key gen) ps)"
  shows "foldM (index_policy gen) \<lparr>id_map = [], etag_map = [], difs = []\<rparr> ps =
    Inr \<lparr>id_map = id_entries ps, etag_map = hash_entries gen ps, difs = []\<rparr>"
  using assms(2)
proof (induction ps rule: rev_induct)
  case (snoc p ps)
  have "index_policy gen \<lparr>id_map = id_entries ps, etag_map = hash_entries gen ps, difs = []\<rparr> p =
      Inr \<lparr>id_map = id_entries (ps @ [p]), etag_map = hash_entries gen (ps @ [p]), difs = []\<rparr>"
  proof (cases "policy_id (meta p)")
    case None
    with snoc.prems have "content_hash gen p \<notin> fst ` set (hash_entries gen ps)"
      by (simp add: entries_keys) (simp add: policy_key_def)
    with None show ?thesis
      by (simp add: index_policy_def calculate_etag_hash [OF assms(1)] update_fresh)
  next
    case (Some i)
    with snoc.prems have "i \<notin> fst ` set (id_entries ps)"
      by (simp add: entries_keys(1) [where gen = gen]) (simp add: policy_key_def)
    with Some show ?thesis by (simp add: index_policy_def update_fresh)
  qed
  with snoc show ?case by (simp add: foldM_append)
qed simp

lemma entries_ok:
  assumes "distinct (map (policy_key gen) ps)"
  shows "go_map_ok (id_entries ps)" "go_map_ok (hash_entries gen ps)"
proof -
  have "go_map_ok (id_entries ps) \<and> go_map_ok (hash_entries gen ps)"
    using assms
  proof (induction ps)
    case (Cons p ps)
    then show ?case
      using entries_keys(1) [where gen = gen and ps = ps] entries_keys(2) [where gen = gen and ps = ps]
      by (auto simp: policy_key_def image_iff split: option.splits)
  qed simp
  then show "go_map_ok (id_entries ps)" "go_map_ok (hash_entries gen ps)" by simp_all
qed

lemma entries_mset:
  "mset (map snd (id_entries ps)) + mset (map snd (hash_entries gen ps)) = mset (map (indexed gen) ps)"
  by (induction ps) (auto simp: indexed_def split: option.splits)

section \<open>Invariants of the two maps\<close>

text \<open>Every entry of the first map has its key as id, every entry of the second its key as hash.\<close>

definition maps_ok :: "(string \<Rightarrow> string) \<Rightarrow> rec_state \<Rightarrow> bool" where
  "maps_ok gen st \<longleftrightarrow>
     go_map_ok (id_map st) \<and> go_map_ok (etag_map st) \<and>
     (\<forall>(i, p) \<in> set (id_map st). policy_id (meta p) = Some i) \<and>
     (\<forall>(e, p) \<in> set (etag_map st). content_hash gen p = e)"

lemma set_delete_subset: "set (AList.delete k m) \<subseteq> set m"
  by (auto simp: AList.delete_eq)

lemma maps_ok_delete:
  assumes "maps_ok gen st"
  shows "maps_ok gen (st\<lparr>id_map := AList.delete i (id_map st), difs := ds\<rparr>)"
    and "maps_ok gen (st\<lparr>etag_map := AList.delete e (etag_map st), difs := ds\<rparr>)"
    and "maps_ok gen (st\<lparr>difs := ds\<rparr>)"
proof -
  show "maps_ok gen (st\<lparr>id_map := AList.delete i (id_map st), difs := ds\<rparr>)"
    using assms set_delete_subset [of i "id_map st"] go_map_ok_delete [of "id_map st" i]
    by (simp add: maps_ok_def) blast
  show "maps_ok gen (st\<lparr>etag_map := AList.delete e (etag_map st), difs := ds\<rparr>)"
    using assms set_delete_subset [of e "etag_map st"] go_map_ok_delete [of "etag_map st" e]
    by (simp add: maps_ok_def) blast
  show "maps_ok gen (st\<lparr>difs := ds\<rparr>)" using assms by (simp add: maps_ok_def)
qed

lemma set_update_cases: "x \<in> set (AList.update k v m) \<Longrightarrow> x = (k, v) \<or> x \<in> set m"
  by (induction m) (auto split: if_splits)

lemma index_ok:
  assumes "quoted_hash gen"
    and "foldM (index_policy gen) \<lparr>id_map = [], etag_map = [], difs = []\<rparr> ps = Inr st"
  shows "maps_ok gen st \<and> difs st = []"
  using assms(2)
proof (rule foldM_invariant [where P = "\<lambda>_ st. maps_ok gen st \<and> difs st = []"])
  fix ys y u v
  assume u: "maps_ok gen u \<and> difs u = []" and v: "index_policy gen u y = Inr v"
  then show "maps_ok gen v \<and> difs v = []"
    by (auto simp: index_policy_def calculate_etag_hash [OF assms(1)] maps_ok_def distinct_update
        dest!: set_update_cases split: option.splits)
qed (simp add: maps_ok_def)

text \<open>One step: what it reports, and what it takes out of the maps.\<close>

definition same_policy :: "(string \<Rightarrow> string) \<Rightarrow> policy_info \<Rightarrow> policy_info \<Rightarrow> bool" where
  "same_policy gen c p \<longleftrightarrow> (\<exists>c'. compare_policies gen c p = Inr (c', [CompareEqual]))"

lemma same_hash_same: "quoted_hash gen \<Longrightarrow> content_hash gen c = content_hash gen p \<Longrightarrow> same_policy gen c p"
  by (simp add: same_policy_def compare_policies_def policy_equals_quoted content_hash_def)

text \<open>The policies that stand after one change.\<close>

definition applied :: "policy_dif \<Rightarrow> policy_info list" where
  "applied d =
     (case dif_type d of
        ChangeEqual \<Rightarrow> elems (policy_exist d)
      | ChangeDelete \<Rightarrow> []
      | _ \<Rightarrow> (case policy_compare d of None \<Rightarrow> [] | Some c \<Rightarrow> [c]))"

definition reported :: "policy_dif list \<Rightarrow> policy_info list" where
  "reported ds = concat (map (\<lambda>d. elems (policy_exist d)) ds)"

definition new_sides :: "policy_dif list \<Rightarrow> policy_info list" where
  "new_sides ds = concat (map (\<lambda>d. case policy_compare d of None \<Rightarrow> [] | Some c \<Rightarrow> [c]) ds)"

definition left_over :: "rec_state \<Rightarrow> policy_info multiset" where
  "left_over st = mset (map snd (id_map st)) + mset (map snd (etag_map st))"

lemma reconcile_step:
  assumes "quoted_hash gen" and "maps_ok gen st" and "reconcile_policy gen False st c = Inr st'"
  shows "maps_ok gen st'" and "\<exists>d. difs st' = difs st @ [d] \<and> policy_compare d = Some c \<and>
      mset (elems (policy_exist d)) + left_over st' = left_over st \<and>
      (\<exists>p. applied d = [p] \<and> same_policy gen c p)"
proof -
  have "maps_ok gen st' \<and> (\<exists>d. difs st' = difs st @ [d] \<and> policy_compare d = Some c \<and>
      mset (elems (policy_exist d)) + left_over st' = left_over st \<and>
      (\<exists>p. applied d = [p] \<and> same_policy gen c p))"
  proof (cases "\<exists>i source. policy_id (meta c) = Some i \<and> map_of (id_map st) i = Some source")
    case True
    then obtain i source where i: "policy_id (meta c) = Some i" "map_of (id_map st) i = Some source" by blast
    with assms(3) obtain c' types sid where cmp: "compare_policies gen c source = Inr (c', types)"
      and st': "st' = st\<lparr>id_map := AList.delete i (id_map st), difs := difs st @
        [\<lparr>dif_type = (if CompareEqual \<in> set types then ChangeEqual else ChangeUpdate), dif_policy_id = sid,
          dif_hash = [], dif_types = Some types, policy_exist = Some [source], policy_compare = Some c\<rparr>]\<rparr>"
      by (auto simp: reconcile_policy_def reconcile_by_id_def rbind_iff Let_def)
    have "add_mset source (mset (map snd (AList.delete i (id_map st)))) = mset (map snd (id_map st))"
      using assms(2) i(2) by (intro delete_mset) (auto simp: maps_ok_def)
    moreover have "same_policy gen c source" if "CompareEqual \<in> set types"
      using compare_cases [OF assms(1) cmp] cmp that by (auto simp: same_policy_def)
    moreover have "same_policy gen c c" by (rule same_hash_same [OF assms(1) refl])
    ultimately show ?thesis
      using maps_ok_delete(1) [OF assms(2)] by (auto simp: st' applied_def left_over_def)
  next
    case False
    then have "reconcile_by_hash gen False st c = Inr st'"
      using assms(3) by (auto simp: reconcile_policy_def split: option.splits)
    then have h: "(case map_of (etag_map st) (content_hash gen c) of
         Some source \<Rightarrow> st' = st\<lparr>etag_map := AList.delete (content_hash gen c) (etag_map st), difs := difs st @
           [\<lparr>dif_type = ChangeEqual, dif_policy_id = [], dif_hash = etag (meta source),
             dif_types = Some [CompareEqual], policy_exist = Some [source], policy_compare = Some c\<rparr>]\<rparr>
       | None \<Rightarrow> \<exists>i. st' = st\<lparr>difs := difs st @ [\<lparr>dif_type = ChangeNew, dif_policy_id = i,
             dif_hash = content_hash gen c, dif_types = None, policy_exist = None, policy_compare = Some c\<rparr>]\<rparr>)"
      by (auto simp: reconcile_by_hash_def calculate_etag_hash [OF assms(1)] Let_def split: option.splits)
    show ?thesis
    proof (cases "map_of (etag_map st) (content_hash gen c)")
      case None
      with h same_hash_same [OF assms(1), of c c] maps_ok_delete(3) [OF assms(2)] show ?thesis
        by (auto simp: applied_def left_over_def)
    next
      case (Some source)
      have "add_mset source (mset (map snd (AList.delete (content_hash gen c) (etag_map st)))) = mset (map snd (etag_map st))"
        using assms(2) Some by (intro delete_mset) (auto simp: maps_ok_def)
      moreover have "content_hash gen source = content_hash gen c"
        using assms(2) map_of_SomeD [OF Some] by (auto simp: maps_ok_def)
      ultimately show ?thesis
        using Some h same_hash_same [OF assms(1), of c source] maps_ok_delete(2) [OF assms(2)]
        by (auto simp: applied_def left_over_def)
    qed
  qed
  then show "maps_ok gen st'" and "\<exists>d. difs st' = difs st @ [d] \<and> policy_compare d = Some c \<and>
      mset (elems (policy_exist d)) + left_over st' = left_over st \<and>
      (\<exists>p. applied d = [p] \<and> same_policy gen c p)" by simp_all
qed

lemma reconcile_loop:
  assumes "quoted_hash gen" and "maps_ok gen st0" and "difs st0 = []"
    and "foldM (reconcile_policy gen False) st0 cs = Inr st"
  shows "new_sides (difs st) = cs" and "mset (reported (difs st)) + left_over st = left_over st0"
    and "list_all2 (same_policy gen) cs (concat (map applied (difs st)))" and "maps_ok gen st"
proof -
  let ?P = "\<lambda>ys st. maps_ok gen st \<and> new_sides (difs st) = ys \<and> mset (reported (difs st)) + left_over st = left_over st0 \<and>
    list_all2 (same_policy gen) ys (concat (map applied (difs st)))"
  from assms(4) have "?P cs st"
  proof (rule foldM_invariant [where P = ?P])
    fix ys y u v
    assume u: "?P ys u" and v: "reconcile_policy gen False u y = Inr v"
    then have mu: "maps_ok gen u" by simp
    from reconcile_step(2) [OF assms(1) mu v] obtain d p where
      d: "difs v = difs u @ [d]" "policy_compare d = Some y"
        "mset (elems (policy_exist d)) + left_over v = left_over u" "applied d = [p]" "same_policy gen y p"
      by blast
    from u d(3) have "mset (reported (difs u)) + (mset (elems (policy_exist d)) + left_over v) = left_over st0"
      by simp
    with u d reconcile_step(1) [OF assms(1) mu v] show "?P (ys @ [y]) v"
      by (simp add: new_sides_def reported_def list_all2_appendI add.assoc)
  qed (use assms in \<open>simp add: new_sides_def reported_def\<close>)
  then show "new_sides (difs st) = cs" and "mset (reported (difs st)) + left_over st = left_over st0"
    and "list_all2 (same_policy gen) cs (concat (map applied (difs st)))" and "maps_ok gen st" by simp_all
qed

text \<open>The deletions at the end report what is left.\<close>

lemma deletions:
  assumes "maps_ok gen st" and "mapM delete_by_id (map snd (id_map st)) = Inr dels"
  shows "mset (reported (dels @ map delete_by_hash (map snd (etag_map st)))) = left_over st"
    and "new_sides (dels @ map delete_by_hash (map snd (etag_map st))) = []"
    and "concat (map applied (dels @ map delete_by_hash (map snd (etag_map st)))) = []"
proof -
  have "list_all2 (\<lambda>p d. policy_exist d = Some [p] \<and> policy_compare d = None \<and> dif_type d = ChangeDelete)
      (map snd (id_map st)) dels"
    using assms(2) unfolding mapM_Inr_iff by (rule list_all2_mono) (auto simp: delete_by_id_def rbind_iff)
  then have d: "reported dels = map snd (id_map st) \<and> new_sides dels = [] \<and> concat (map applied dels) = []"
    by (induction rule: list_all2_induct) (auto simp: reported_def new_sides_def applied_def)
  have h: "reported (map delete_by_hash ps) = ps" "new_sides (map delete_by_hash ps) = []"
    "concat (map applied (map delete_by_hash ps)) = []" for ps
    by (induction ps) (auto simp: reported_def new_sides_def applied_def delete_by_hash_def)
  show "mset (reported (dels @ map delete_by_hash (map snd (etag_map st)))) = left_over st"
    using d h(1) [of "map snd (etag_map st)"] by (simp add: reported_def left_over_def)
  show "new_sides (dels @ map delete_by_hash (map snd (etag_map st))) = []"
    using d h(2) [of "map snd (etag_map st)"] by (simp add: new_sides_def)
  show "concat (map applied (dels @ map delete_by_hash (map snd (etag_map st)))) = []"
    using d h(3) [of "map snd (etag_map st)"] by simp
qed

lemma reconcile_report:
  assumes "quoted_hash gen" and "reconcile_policies gen ps cs False = Inr ds"
  shows "new_sides ds = cs" and "list_all2 (same_policy gen) cs (concat (map applied ds))"
    and "distinct (map (policy_key gen) (elems (policy_list ps))) \<Longrightarrow>
      mset (reported ds) = mset (map (indexed gen) (elems (policy_list ps)))"
proof -
  from assms(2) obtain st0 st dels where
    st0: "foldM (index_policy gen) \<lparr>id_map = [], etag_map = [], difs = []\<rparr> (elems (policy_list ps)) = Inr st0"
    and st: "foldM (reconcile_policy gen False) st0 cs = Inr st"
    and dels: "mapM delete_by_id (map snd (id_map st)) = Inr dels"
    and ds: "ds = difs st @ dels @ map delete_by_hash (map snd (etag_map st))"
    by (auto simp: reconcile_policies_def rbind_Inr_iff)
  from index_ok [OF assms(1) st0] have ok: "maps_ok gen st0" "difs st0 = []" by simp_all
  note loop = reconcile_loop [OF assms(1) ok st]
  note del = deletions [OF loop(4) dels]
  show "new_sides ds = cs" using loop(1) del(2) by (simp add: ds new_sides_def)
  show "list_all2 (same_policy gen) cs (concat (map applied ds))" 
  proof -
    have "concat (map applied ds) = concat (map applied (difs st)) @
        concat (map applied (dels @ map delete_by_hash (map snd (etag_map st))))" by (simp add: ds)
    with loop(3) show ?thesis unfolding del(3) by simp
  qed
  assume "distinct (map (policy_key gen) (elems (policy_list ps)))"
  with index_policies [OF assms(1) this] st0 entries_mset [of "elems (policy_list ps)" gen]
  have "left_over st0 = mset (map (indexed gen) (elems (policy_list ps)))" by (auto simp: left_over_def)
  with loop(2) del(1) show "mset (reported ds) = mset (map (indexed gen) (elems (policy_list ps)))"
    by (simp add: ds reported_def)
qed

section \<open>Reconciling with the same policies\<close>

lemma reconcile_same:
  assumes "quoted_hash gen"
  shows "distinct (map (policy_key gen) zs) \<Longrightarrow>
    foldM (reconcile_policy gen True) \<lparr>id_map = id_entries zs, etag_map = hash_entries gen zs, difs = []\<rparr> zs =
    Inr \<lparr>id_map = [], etag_map = [], difs = []\<rparr>"
proof (induction zs)
  case (Cons z zs)
  have "reconcile_policy gen True \<lparr>id_map = id_entries (z # zs), etag_map = hash_entries gen (z # zs), difs = []\<rparr> z =
      Inr \<lparr>id_map = id_entries zs, etag_map = hash_entries gen zs, difs = []\<rparr>"
  proof (cases "policy_id (meta z)")
    case None
    with Cons.prems have "content_hash gen z \<notin> fst ` set (hash_entries gen zs)"
      by (simp add: entries_keys) (simp add: policy_key_def)
    with None show ?thesis
      by (simp add: reconcile_policy_def reconcile_by_hash_def calculate_etag_hash [OF assms] delete_absent Let_def)
  next
    case (Some i)
    with Cons.prems have "i \<notin> fst ` set (id_entries zs)"
      by (simp add: entries_keys(1) [where gen = gen]) (simp add: policy_key_def)
    moreover have "same_policy gen z z" by (rule same_hash_same [OF assms refl])
    ultimately show ?thesis using Some
      by (auto simp: reconcile_policy_def reconcile_by_id_def same_policy_def go_deref_def Let_def delete_absent)
  qed
  with Cons show ?case by simp
qed simp

section \<open>Properties\<close>

text \<open>Property C3.  Every new policy is reported exactly once, in order, and applying the reported changes
  leaves, for every new policy, a policy that \<open>Compare\<close> finds equal to it: the policy itself when it
  is new or an update, the existing one when it is matched.\<close>

theorem reconcile_reaches_target:
  assumes "quoted_hash gen" and "reconcile_policies gen ps cs False = Inr ds"
  shows "new_sides ds = cs \<and> list_all2 (same_policy gen) cs (concat (map applied ds))"
  using reconcile_report(1,2) [OF assms] by blast

lemma reconcile_sample:
  "reconcile_policies identity_hash \<lparr>policy_list = Some [sample_policy (Some ''x'') [''any'']], app = None\<rparr>
     [sample_policy None [''User:a'']] False =
   Inr [\<lparr>dif_type = ChangeNew, dif_policy_id = [], dif_hash = content_hash identity_hash (sample_policy None [''User:a'']),
          dif_types = None, policy_exist = None, policy_compare = Some (sample_policy None [''User:a''])\<rparr>,
        \<lparr>dif_type = ChangeDelete, dif_policy_id = ''x'', dif_hash = [], dif_types = None,
          policy_exist = Some [sample_policy (Some ''x'') [''any'']], policy_compare = None\<rparr>]"
  by (simp add: reconcile_policies_def index_policy_def reconcile_policy_def reconcile_by_hash_def
      calculate_etag_hash [OF identity_hash_ok(1)] delete_by_id_def go_deref_def)

theorem reconcile_reaches_target_witness:
  "\<exists>ds. reconcile_policies identity_hash \<lparr>policy_list = Some [sample_policy (Some ''x'') [''any'']], app = None\<rparr>
     [sample_policy None [''User:a'']] False = Inr ds \<and> new_sides ds = [sample_policy None [''User:a'']]"
  using reconcile_reaches_target [OF identity_hash_ok(1) reconcile_sample] reconcile_sample by blast



text \<open>Reconciling a set of policies with itself finds no differences.\<close>

lemma reconcile_identity:
  assumes "quoted_hash gen" and "distinct (map (policy_key gen) (elems (policy_list ps)))"
  shows "reconcile_policies gen ps (elems (policy_list ps)) True = Inr []"
  using assms by (simp add: reconcile_policies_def index_policies reconcile_same)

end
