(* ===== verification/Pim_Schema.thy ===== *)
theory Pim_Schema
  imports Hexa_Policy
begin

text \<open>
  The policy information model, \<^verbatim>\<open>models/policyInfoModel/schema.go\<close>: attribute types, entity types,
  actions and common types, and the search for the type of an attribute path.

  A custom attribute type is looked up among the common types with the same path, so the search
  need not end.  The model counts the depth of nested calls and raises the panic of an exhausted
  stack at depth 0; the theorems say when some depth suffices and when none does.  The search goes
  through a Go map in the order of its association list.
\<close>

section \<open>The data\<close>

text \<open>\<open>AttrType\<close> with the fields of the two structs it embeds: \<open>Element\<close> and \<open>Attributes\<close>.\<close>

datatype attr_type =
  AttrType (at_type: string) (at_name: string) (at_required: bool)
    (at_element: "attr_type option") (at_attributes: "(string \<times> attr_type) list option")

record context_type =
  context_kind :: string
  context_attributes :: "attr_type go_map option"

record applies_type =
  principal_types :: "string list option"
  resource_types :: "string list option"
  applies_context :: "context_type option"

record action_type =
  member_of :: "string slice"
  applies_to :: applies_type

record shape_types =
  shape_kind :: string
  shape_attributes :: "attr_type go_map option"

record entity_type =
  member_of_types :: "string slice"
  shape :: shape_types

record schema_type =
  schema_entity_types :: "entity_type go_map"
  schema_actions :: "action_type go_map"
  common_types :: "context_type go_map"

type_synonym namespaces = "schema_type go_map"

section \<open>The search for an attribute\<close>

definition builtin_types :: "string list" where
  "builtin_types = [''String'', ''Bool'', ''Date'', ''Numeric'', ''Long'', ''Extension'', ''Record'', ''Set'']"

definition stack_overflow :: "'a res" where
  "stack_overflow = Inl (Panic ''stack overflow'')"

text \<open>The loop over the attributes: the first entry that yields a type.\<close>

fun first_hit :: "('a \<Rightarrow> 'b option res) \<Rightarrow> 'a list \<Rightarrow> 'b option res" where
  "first_hit f [] = Inr None"
| "first_hit f (x # xs) = rbind (f x) (\<lambda>r. case r of None \<Rightarrow> first_hit f xs | Some b \<Rightarrow> Inr (Some b))"

lemma first_hit_cong [fundef_cong]:
  "xs = ys \<Longrightarrow> (\<And>x. x \<in> set ys \<Longrightarrow> f x = g x) \<Longrightarrow> first_hit f xs = first_hit g ys"
  by (induction ys arbitrary: xs) (auto intro!: rbind_cong split: option.splits)

text \<open>\<open>doFindAttr\<close> and the method \<open>AttrType.FindAttrTypes\<close>.\<close>

fun do_find_attr ::
    "nat \<Rightarrow> context_type go_map \<Rightarrow> attr_type go_map option \<Rightarrow> string \<Rightarrow> attr_type option res"
  and attr_find_types :: "nat \<Rightarrow> context_type go_map \<Rightarrow> attr_type \<Rightarrow> string \<Rightarrow> attr_type option res" where
  "do_find_attr 0 common attributes path = stack_overflow"
| "do_find_attr (Suc d) common attributes path =
     (if path = [] \<or> attributes = None then Inr None
      else
        (let comps = split_n2 path ''.'' in
         first_hit (\<lambda>(name, a).
           rbind
             (if equal_fold (hd comps) name then
                (if length comps = 1 then Inr (Some a) else attr_find_types d common a (comps ! 1))
              else Inr None)
             (\<lambda>hit. case hit of
                Some r \<Rightarrow> Inr (Some r)
              | None \<Rightarrow>
                  if at_type a \<in> set builtin_types then Inr None
                  else (case map_of common (at_type a) of
                          None \<Rightarrow> Inr None
                        | Some c \<Rightarrow> do_find_attr d common (context_attributes c) path)))
           (case attributes of Some m \<Rightarrow> m | None \<Rightarrow> [])))"
| "attr_find_types 0 common h path = stack_overflow"
| "attr_find_types (Suc d) common h path =
     (let comps = split_n2 path ''.'';
          inner = (case at_element h of
                     None \<Rightarrow> None
                   | Some e \<Rightarrow> (case at_attributes e of None \<Rightarrow> None | Some m \<Rightarrow> map_of m (hd comps)))
      in case inner of
           Some s \<Rightarrow> if length comps = 1 then Inr (Some s) else attr_find_types d common s (comps ! 1)
         | None \<Rightarrow> if at_attributes h \<noteq> None then do_find_attr d common (at_attributes h) path else Inr None)"

definition context_find_attr_types ::
  "nat \<Rightarrow> context_type go_map \<Rightarrow> context_type \<Rightarrow> string \<Rightarrow> attr_type option res" where
  "context_find_attr_types d common c path = do_find_attr d common (context_attributes c) path"

definition entity_find_attr_type ::
  "nat \<Rightarrow> schema_type \<Rightarrow> entity_type \<Rightarrow> string \<Rightarrow> attr_type option res" where
  "entity_find_attr_type d schema e path =
     do_find_attr d (common_types schema) (shape_attributes (shape e)) path"

definition find_attr_type :: "nat \<Rightarrow> schema_type \<Rightarrow> entity \<Rightarrow> attr_type option res" where
  "find_attr_type d s e =
     (case map_of (schema_entity_types s) (entity_get_type e) of
        None \<Rightarrow> Inr None
      | Some et \<Rightarrow>
          rbind (entity_is_path e) (\<lambda>p.
            if p then entity_find_attr_type d s et (entity_get_id e) else Inr None))"

section \<open>When the search ends\<close>

text \<open>
  Common types are ranked when every attribute of a common type that is itself of a common type is
  of one with a smaller rank: no common type refers to itself through its attributes.
\<close>

definition ranked :: "(string \<Rightarrow> nat) \<Rightarrow> context_type go_map \<Rightarrow> bool" where
  "ranked rank common \<longleftrightarrow>
     (\<forall>t c m n a. map_of common t = Some c \<longrightarrow> context_attributes c = Some m \<longrightarrow> (n, a) \<in> set m \<longrightarrow>
        at_type a \<in> fst ` set common \<longrightarrow> rank (at_type a) < rank t)"

lemma split_n2_shorter: "length (split_n2 path ''.'') \<noteq> 1 \<Longrightarrow> length (split_n2 path ''.'' ! 1) < length path"
  using index_str_bound [of path "''.''"] by (fastforce simp: split_n2_def split: option.splits)

lemma first_hit_total: "(\<And>x. x \<in> set xs \<Longrightarrow> \<exists>r. f x = Inr r) \<Longrightarrow> \<exists>r. first_hit f xs = Inr r"
proof (induction xs)
  case (Cons x xs)
  then obtain r where r: "f x = Inr r" by force
  have "\<exists>r. first_hit f xs = Inr r" using Cons.prems by (intro Cons.IH) simp
  with r show ?case by (cases r) simp_all
qed simp

text \<open>The calls with one path: one for the attribute, one for its attributes, and one per rank.\<close>

definition level_depth :: "nat \<Rightarrow> nat \<Rightarrow> nat" where
  "level_depth r path_length = path_length * (r + 4)"

lemma find_total:
  assumes ranks: "ranked rank common" and bound: "\<And>t. t \<in> fst ` set common \<Longrightarrow> rank t \<le> R"
  shows "level_depth R (length path) + R + 3 < d \<Longrightarrow> \<exists>r. do_find_attr d common attrs path = Inr r"
    and "level_depth R (length path) + R + 4 < d \<Longrightarrow> \<exists>r. attr_find_types d common h path = Inr r"
    and "map_of common t = Some c \<Longrightarrow> level_depth R (length path) + rank t + 1 < d \<Longrightarrow>
      \<exists>r. do_find_attr d common (context_attributes c) path = Inr r"
proof -
  have "(\<forall>d attrs. level_depth R (length path) + R + 3 < d \<longrightarrow> (\<exists>r. do_find_attr d common attrs path = Inr r)) \<and>
    (\<forall>d h. level_depth R (length path) + R + 4 < d \<longrightarrow> (\<exists>r. attr_find_types d common h path = Inr r)) \<and>
    (\<forall>d t c. map_of common t = Some c \<longrightarrow> level_depth R (length path) + rank t + 1 < d \<longrightarrow>
      (\<exists>r. do_find_attr d common (context_attributes c) path = Inr r))"
  proof (induction path rule: length_induct)
    case (1 path)
    let ?comps = "split_n2 path ''.''"
    have sub: "\<exists>r. attr_find_types d common h (?comps ! 1) = Inr r"
      if "length ?comps \<noteq> 1" "level_depth R (length path) < d" for d h
    proof -
      have "length (?comps ! 1) + 1 \<le> length path" using split_n2_shorter [OF that(1)] by simp
      then have "(length (?comps ! 1) + 1) * (R + 4) \<le> length path * (R + 4)" by (rule mult_le_mono1)
      then have "level_depth R (length (?comps ! 1)) + R + 4 < d"
        using that(2) by (simp add: level_depth_def algebra_simps)
      with 1 split_n2_shorter [OF that(1)] show ?thesis by blast
    qed
    have step: "\<exists>r. do_find_attr (Suc d) common attrs path = Inr r"
      if deep: "level_depth R (length path) < d"
        and customs: "\<And>m n a c. attrs = Some m \<Longrightarrow> (n, a) \<in> set m \<Longrightarrow> map_of common (at_type a) = Some c \<Longrightarrow>
          \<exists>r. do_find_attr d common (context_attributes c) path = Inr r" for d attrs
    proof (cases "path = [] \<or> attrs = None")
      case False
      then obtain m where m: "attrs = Some m" by auto
      from False m customs sub [OF _ deep] show ?thesis
        by (auto simp: Let_def intro!: first_hit_total split: option.splits)
          (metis rbind_simps(2) option.simps(4,5) option.exhaust)+
    qed simp
    have custom: "\<exists>r. do_find_attr d common (context_attributes c) path = Inr r"
      if "map_of common t = Some c" "level_depth R (length path) + rank t + 1 < d" for d t c
      using that
    proof (induction "rank t" arbitrary: d t c rule: less_induct)
      case less
      then obtain d' where d: "d = Suc d'" by (cases d) auto
      show ?case unfolding d
      proof (rule step)
        show "level_depth R (length path) < d'" using less.prems(2) d by simp
        fix m n a c'
        assume m: "context_attributes c = Some m" "(n, a) \<in> set m" and c': "map_of common (at_type a) = Some c'"
        have "at_type a \<in> fst ` set common" using c' by (metis map_of_eq_None_iff option.distinct(1))
        with ranks less.prems(1) m have r: "rank (at_type a) < rank t" unfolding ranked_def by blast
        with less.prems(2) d have "level_depth R (length path) + rank (at_type a) + 1 < d'" by simp
        from less.hyps [OF r c' this] show "\<exists>r. do_find_attr d' common (context_attributes c') path = Inr r" .
      qed
    qed
    have entry: "\<exists>r. do_find_attr d common attrs path = Inr r"
      if "level_depth R (length path) + R + 3 < d" for d attrs
    proof -
      from that obtain d' where d: "d = Suc d'" by (cases d) auto
      show ?thesis unfolding d
      proof (rule step)
        show "level_depth R (length path) < d'" using that d by simp
        fix m n a c
        assume c: "map_of common (at_type a) = Some c"
        then have "rank (at_type a) \<le> R" by (intro bound) (metis map_of_eq_None_iff option.distinct(1))
        with that d have "level_depth R (length path) + rank (at_type a) + 1 < d'" by simp
        from custom [OF c this] show "\<exists>r. do_find_attr d' common (context_attributes c) path = Inr r" .
      qed
    qed
    have "\<exists>r. attr_find_types d common h path = Inr r" if "level_depth R (length path) + R + 4 < d" for d h
    proof -
      from that obtain d' where d: "d = Suc d'" by (cases d) auto
      have "\<exists>r. do_find_attr d' common (at_attributes h) path = Inr r" using that d by (intro entry) simp
      moreover have "\<exists>r. attr_find_types d' common s (?comps ! 1) = Inr r" if "length ?comps \<noteq> 1" for s
        using that \<open>level_depth R (length path) + R + 4 < d\<close> d by (intro sub) simp_all
      ultimately show ?thesis by (auto simp: d Let_def split: option.splits)
    qed
    with entry custom show ?case by blast
  qed
  then show "level_depth R (length path) + R + 3 < d \<Longrightarrow> \<exists>r. do_find_attr d common attrs path = Inr r"
    and "level_depth R (length path) + R + 4 < d \<Longrightarrow> \<exists>r. attr_find_types d common h path = Inr r"
    and "map_of common t = Some c \<Longrightarrow> level_depth R (length path) + rank t + 1 < d \<Longrightarrow>
      \<exists>r. do_find_attr d common (context_attributes c) path = Inr r"
    by blast+
qed

text \<open>A depth that suffices for a path, when the ranks are at most \<open>R\<close>.\<close>

definition search_depth :: "nat \<Rightarrow> string \<Rightarrow> nat" where
  "search_depth R path = level_depth R (length path) + R + 4"

text \<open>A common type with an attribute of its own type: the search for any other attribute runs on.\<close>

lemma self_reference_runs_on:
  assumes "context_attributes c = Some [(n, a)]" and "at_type a = t" and "t \<notin> set builtin_types"
    and "path \<noteq> []" and "\<not> equal_fold (hd (split_n2 path ''.'')) n"
  shows "do_find_attr d [(t, c)] (context_attributes c) path = stack_overflow"
proof (induction d)
  case (Suc d)
  with assms show ?case by (simp add: Let_def stack_overflow_def)
qed simp

section \<open>Properties\<close>

text \<open>When the common types are ranked by a function bounded by \<open>R\<close>, the search for the type
  of an entity's attribute returns at every depth above \<open>search_depth R\<close> of its path.\<close>

lemma attribute_search_ends:
  assumes "ranked rank (common_types s)" and "\<And>t. t \<in> fst ` set (common_types s) \<Longrightarrow> rank t \<le> R"
    and "entity_id e \<noteq> None" and "search_depth R (entity_get_id e) \<le> d"
  shows "\<exists>r. find_attr_type d s e = Inr r"
proof -
  have "\<exists>r. do_find_attr d (common_types s) attrs (entity_get_id e) = Inr r" for attrs
    using assms(4) by (intro find_total(1) [OF assms(1,2)]) (simp_all add: search_depth_def)
  then show ?thesis
    using assms(3) by (auto simp: find_attr_type_def entity_is_path_def entity_find_attr_type_def go_deref_def split: option.splits)
qed

definition photo_schema :: schema_type where
  "photo_schema = \<lparr>schema_entity_types = [(''User'', \<lparr>member_of_types = None,
       shape = \<lparr>shape_kind = ''Record'', shape_attributes = Some
         [(''account'', AttrType ''PersonType'' [] False None None)]\<rparr>\<rparr>)],
     schema_actions = [],
     common_types = [(''PersonType'', \<lparr>context_kind = ''Record'', context_attributes = Some
       [(''age'', AttrType ''Long'' [] False None None)]\<rparr>)]\<rparr>"

text \<open>A common type with one attribute, of its own type, sends the search for any other
  attribute into an endless recursion: no depth of the stack suffices.\<close>

lemma self_reference_overflows:
  assumes "context_attributes c = Some [(n, a)]" and "at_type a = t" and "t \<notin> set builtin_types"
    and "path \<noteq> []" and "\<not> equal_fold (hd (split_n2 path ''.'')) n"
  shows "context_find_attr_types d [(t, c)] c path = stack_overflow"
  using self_reference_runs_on [OF assms] by (simp add: context_find_attr_types_def)

end
