(* ===== verification/Pim_Validate.thy ===== *)
theory Pim_Validate
  imports Pim_Schema
begin

text \<open>
  The validation of policies against a policy information model,
  \<^verbatim>\<open>pkg/hexapolicy/pimValidate/validate.go\<close>: subjects, object, actions and the principals and
  resources they apply to, and the operands of the condition.

  The result of a check is the list of its error messages.  The search for attribute types takes
  the depth of the stack as in \<open>Pim_Schema\<close>; the other panics are dereferences of a missing id.
\<close>

section \<open>Messages\<close>

definition quoted :: "string \<Rightarrow> string" where
  "quoted s = [dq] @ s @ [dq]"

text \<open>The verb \<open>%+q\<close> on a slice of strings.\<close>

definition quoted_list :: "string list \<Rightarrow> string" where
  "quoted_list xs = ''['' @ join_str (map quote xs) '' '' @ '']''"

section \<open>The validator\<close>

record validator =
  namespaces :: namespaces
  def_namespace :: string

definition get_validator :: "namespaces \<Rightarrow> string \<Rightarrow> validator" where
  "get_validator ns def = \<lparr>namespaces = ns, def_namespace = def\<rparr>"

text \<open>A map that is nil is read as an empty one; the pointer to it is never nil.\<close>

definition new_validator :: "(string \<Rightarrow> namespaces option res) \<Rightarrow> string \<Rightarrow> string \<Rightarrow> validator res" where
  "new_validator parse pim def = rbind (parse pim) (\<lambda>ns. Inr (get_validator (elems ns) def))"

definition check_subject_entity :: "validator \<Rightarrow> entity \<Rightarrow> string list" where
  "check_subject_entity v e =
     (if e = EAny \<or> e = EAnyAuthenticated then []
      else
        (let ns = entity_get_namespace e (def_namespace v); ty = entity_get_type e in
         case map_of (namespaces v) ns of
           None \<Rightarrow> [''invalid subject namespace '' @ quoted ns]
         | Some schema \<Rightarrow>
             if map_of (schema_entity_types schema) ty = None
             then [''invalid subject entity type: '' @ ns @ '':'' @ ty] else []))"

definition check_subject :: "validator \<Rightarrow> string slice \<Rightarrow> string list" where
  "check_subject v subject = concat (map (check_subject_entity v) (subject_entity_paths subject))"

definition check_object :: "validator \<Rightarrow> string \<Rightarrow> string list res" where
  "check_object v resource =
     (if resource = [] \<or> equal_fold resource (def_namespace v) then Inr []
      else
        (let e = object_entity resource;
             ns = entity_get_namespace e (def_namespace v);
             ty = entity_get_type e
         in case map_of (namespaces v) ns of
              None \<Rightarrow> Inr [''invalid object namespace '' @ quoted ns]
            | Some schema \<Rightarrow>
                if ty = [] then
                  rbind (go_deref (entity_id e)) (\<lambda>i.
                    Inr [''missing object entity type: '' @ ns @ '':<type>:'' @ i])
                else if map_of (schema_entity_types schema) ty = None
                then Inr [''invalid object entity type: '' @ ns @ '':'' @ ty]
                else Inr []))"

subsection \<open>Principals and resources of an action\<close>

text \<open>Whether a declared type names the type of an entity in a namespace.\<close>

definition type_matches :: "string \<Rightarrow> string \<Rightarrow> entity \<Rightarrow> string \<Rightarrow> bool" where
  "type_matches action_ns ns e declared =
     (if contains_str declared '':'' then equal_fold declared (ns @ '':'' @ entity_get_type e)
      else action_ns = ns \<and> equal_fold (entity_get_type e) declared)"

definition check_principal :: "validator \<Rightarrow> string \<Rightarrow> string list \<Rightarrow> entity \<Rightarrow> string list" where
  "check_principal v action_ns principals e =
     (if e = EAny \<or> e = EAnyAuthenticated \<or> e = EEmpty then []
      else if \<exists>p \<in> set principals. type_matches action_ns (entity_get_namespace e (def_namespace v)) e p then []
      else [''policy cannot be applied to subject '' @ quoted (entity_string e) @ '', must be one of '' @
            quoted_list principals])"

definition check_resource :: "validator \<Rightarrow> string \<Rightarrow> string list \<Rightarrow> policy_info \<Rightarrow> string list" where
  "check_resource v action_ns resources policy =
     (let e = object_entity (object_info policy) in
      if e = EEmpty then []
      else if \<exists>r \<in> set resources. type_matches action_ns (entity_get_namespace e (def_namespace v)) e r then []
      else [''policy cannot be applied to object type '' @ quoted (object_info policy) @ '', must be one of '' @
            quoted_list resources])"

definition check_applies_to :: "validator \<Rightarrow> string \<Rightarrow> applies_type \<Rightarrow> policy_info \<Rightarrow> string list" where
  "check_applies_to v action_ns applies policy =
     (case principal_types applies of
        None \<Rightarrow> []
      | Some ps \<Rightarrow> concat (map (check_principal v action_ns ps) (subject_entity_paths (subjects policy)))) @
     (case resource_types applies of
        None \<Rightarrow> []
      | Some rs \<Rightarrow> check_resource v action_ns rs policy)"

definition check_one_action :: "validator \<Rightarrow> policy_info \<Rightarrow> string \<Rightarrow> string list" where
  "check_one_action v policy act =
     (let e = action_entity_path act; ns = entity_get_namespace e (def_namespace v) in
      case map_of (namespaces v) ns of
        None \<Rightarrow> [''invalid namespace '' @ quoted ns]
      | Some schema \<Rightarrow>
          (case map_of (schema_actions schema) (entity_get_id e) of
             None \<Rightarrow> [''invalid action '' @ quoted (entity_string e)]
           | Some ty \<Rightarrow> check_applies_to v ns (applies_to ty) policy))"

definition check_action :: "validator \<Rightarrow> policy_info \<Rightarrow> string list" where
  "check_action v policy = concat (map (check_one_action v policy) (elems (actions policy)))"

subsection \<open>Conditions\<close>

definition special_entities :: "string list" where
  "special_entities = [''subject'', ''action'', ''resource'', ''principal'']"

text \<open>The type of an operand, or the message of an error.\<close>

definition check_operand :: "nat \<Rightarrow> validator \<Rightarrow> idql_value \<Rightarrow> (string + string) res" where
  "check_operand d v x =
     (case x of
        VEntity e \<Rightarrow>
          (let ns = entity_get_namespace e (def_namespace v) in
           case map_of (namespaces v) ns of
             None \<Rightarrow> Inr (Inl (''invalid namespace '' @ quoted ns @ '' for '' @ entity_string e))
           | Some schema \<Rightarrow>
               rbind (go_deref (entity_id e)) (\<lambda>i.
                 if to_lower i \<in> set special_entities then Inr (Inr ''Record'')
                 else if map_of (schema_entity_types schema) (entity_get_type e) = None
                 then Inr (Inl (''invalid condition entity type: '' @ entity_string e))
                 else
                   rbind (entity_is_path e) (\<lambda>p.
                     if p then
                       rbind (find_attr_type d schema e) (\<lambda>attr.
                         case attr of
                           None \<Rightarrow> Inr (Inl (''invalid condition attribute: '' @ entity_string e))
                         | Some a \<Rightarrow> Inr (Inr (at_type a)))
                     else Inr (Inr ''Record''))))
      | VComp (CString _) \<Rightarrow> Inr (Inr ''String'')
      | VComp (CBool _) \<Rightarrow> Inr (Inr ''Bool'')
      | VComp (CDate _) \<Rightarrow> Inr (Inr ''Date'')
      | VComp (CNumeric _) \<Rightarrow> Inr (Inr ''Long'')
      | _ \<Rightarrow> Inr (Inl ''invalid operand''))"

definition value_text :: "idql_value option \<Rightarrow> string res" where
  "value_text c = rbind (go_deref c) (\<lambda>v. Inr (value_string v))"

text \<open>One of the two type errors of the operators on texts and on members.\<close>

definition comparator_error :: "string \<Rightarrow> expression \<Rightarrow> idql_value option \<Rightarrow> string \<Rightarrow> string res" where
  "comparator_error what e x ty =
     rbind (expression_string e) (\<lambda>s.
     rbind (value_text x) (\<lambda>o'.
       Inr (''expression '' @ quoted s @ '' requires '' @ what @ '' ('' @ o' @ '' is '' @ ty @ '')'')))"

definition collect :: "(bool \<times> string res) list \<Rightarrow> string list res" where
  "collect errs = mapM snd (filter fst errs)"

definition check_types ::
  "expression \<Rightarrow> idql_value \<Rightarrow> compare_op \<Rightarrow> idql_value option \<Rightarrow> string \<Rightarrow> string \<Rightarrow> string list res" where
  "check_types e p op c lty rty =
     (if op \<in> {EQ, NE, GT, GE, LT, LE} then
        collect [(\<not> equal_fold lty rty,
          rbind (expression_string e) (\<lambda>s. Inr (''expression '' @ quoted s @
            '' has mis-matched attribute types: '' @ lty @ '' and '' @ rty)))]
      else if op \<in> {SW, EW} then
        collect [(\<not> equal_fold lty ''String'', comparator_error ''String comparators'' e (Some p) lty),
                 (\<not> equal_fold rty ''String'', comparator_error ''String comparators'' e c rty)]
      else if op \<in> {CO, IN} then
        collect [(\<not> equal_fold lty ''Record'' \<and> \<not> equal_fold rty ''String'',
                  comparator_error ''an Entity or String comparator'' e (Some p) lty),
                 (\<not> equal_fold rty ''Record'' \<and> \<not> equal_fold lty ''String'',
                  comparator_error ''an Entity or String comparator'' e c rty)]
      else Inr [])"

fun check_expression :: "nat \<Rightarrow> validator \<Rightarrow> expression \<Rightarrow> string list res" where
  "check_expression d v (AttributeExpression p op c) =
     rbind (check_operand d v p) (\<lambda>l.
     rbind (case c of None \<Rightarrow> Inr (Inr ''na'') | Some w \<Rightarrow> check_operand d v w) (\<lambda>r.
       case (l, r) of
         (Inr lty, Inr rty) \<Rightarrow> check_types (AttributeExpression p op c) p op c lty rty
       | (Inl m, Inl n) \<Rightarrow> Inr [m, n]
       | (Inl m, Inr _) \<Rightarrow> Inr [m]
       | (Inr _, Inl n) \<Rightarrow> Inr [n]))"
| "check_expression d v (ValuePathExpression a s f op c) =
     rbind (expression_string (ValuePathExpression a s f op c)) (\<lambda>t.
       Inr [''valuePath expressions '' @ quoted t @ '' are not supported''])"
| "check_expression d v _ = Inr []"

text \<open>A parse error is reported with its message.\<close>

definition check_conditions :: "nat \<Rightarrow> validator \<Rightarrow> policy_info \<Rightarrow> string list res" where
  "check_conditions d v policy =
     (case condition policy of
        None \<Rightarrow> Inr []
      | Some c \<Rightarrow>
          (case condition_ast c of
             Inl (Error m) \<Rightarrow> Inr [m]
           | Inl (Panic m) \<Rightarrow> Inl (Panic m)
           | Inr ast \<Rightarrow>
               rbind (mapM (check_expression d v) (find_entity_uses ast)) (\<lambda>es. Inr (concat es))))"

section \<open>Policies\<close>

definition validate_policy :: "nat \<Rightarrow> validator \<Rightarrow> policy_info \<Rightarrow> string list res" where
  "validate_policy d v policy =
     rbind (check_object v (object_info policy)) (\<lambda>oerrs.
     rbind (check_conditions d v policy) (\<lambda>cerrs.
       Inr (check_subject v (subjects policy) @ oerrs @ check_action v policy @ cerrs)))"

definition policy_label :: "nat \<Rightarrow> policy_info \<Rightarrow> string" where
  "policy_label i policy =
     (case policy_id (meta policy) of
        Some s \<Rightarrow> if s \<noteq> [] then ''Policy-'' @ s else ''Policy-'' @ nat_string i
      | None \<Rightarrow> ''Policy-'' @ nat_string i)"

definition validate_policies :: "nat \<Rightarrow> validator \<Rightarrow> policies \<Rightarrow> string list go_map res" where
  "validate_policies d v ps =
     foldM (\<lambda>m (i, policy).
         rbind (validate_policy d v policy) (\<lambda>errs.
           Inr (if errs \<noteq> [] then AList.update (policy_label i policy) errs m else m)))
       [] (zip [0..<length (elems (policy_list ps))] (elems (policy_list ps)))"

section \<open>What validation establishes\<close>

text \<open>The declarations a policy refers to.\<close>

definition declared_type :: "validator \<Rightarrow> entity \<Rightarrow> bool" where
  "declared_type v e \<longleftrightarrow>
     (\<exists>schema. map_of (namespaces v) (entity_get_namespace e (def_namespace v)) = Some schema \<and>
        map_of (schema_entity_types schema) (entity_get_type e) \<noteq> None)"

definition everyone :: "entity \<Rightarrow> bool" where
  "everyone e \<longleftrightarrow> e = EAny \<or> e = EAnyAuthenticated"

definition principal_allowed :: "validator \<Rightarrow> string \<Rightarrow> applies_type \<Rightarrow> entity \<Rightarrow> bool" where
  "principal_allowed v ns applies e \<longleftrightarrow>
     everyone e \<or> e = EEmpty \<or>
     (\<forall>ps. principal_types applies = Some ps \<longrightarrow>
        (\<exists>p \<in> set ps. type_matches ns (entity_get_namespace e (def_namespace v)) e p))"

definition resource_allowed :: "validator \<Rightarrow> string \<Rightarrow> applies_type \<Rightarrow> entity \<Rightarrow> bool" where
  "resource_allowed v ns applies e \<longleftrightarrow>
     e = EEmpty \<or>
     (\<forall>rs. resource_types applies = Some rs \<longrightarrow>
        (\<exists>r \<in> set rs. type_matches ns (entity_get_namespace e (def_namespace v)) e r))"

definition action_allowed :: "validator \<Rightarrow> policy_info \<Rightarrow> string \<Rightarrow> bool" where
  "action_allowed v policy act \<longleftrightarrow>
     (let e = parse_entity act; ns = entity_get_namespace e (def_namespace v) in
      \<exists>schema ty. map_of (namespaces v) ns = Some schema \<and>
        map_of (schema_actions schema) (entity_get_id e) = Some ty \<and>
        (\<forall>s \<in> set (elems (subjects policy)). principal_allowed v ns (applies_to ty) (parse_entity s)) \<and>
        resource_allowed v ns (applies_to ty) (parse_entity (object_info policy)))"

definition object_allowed :: "validator \<Rightarrow> string \<Rightarrow> bool" where
  "object_allowed v ob \<longleftrightarrow>
     ob = [] \<or> equal_fold ob (def_namespace v) \<or>
     (declared_type v (parse_entity ob) \<and> entity_get_type (parse_entity ob) \<noteq> [])"

lemma check_subject_entity_ok: "check_subject_entity v e = [] \<longleftrightarrow> everyone e \<or> declared_type v e"
  by (auto simp: check_subject_entity_def everyone_def declared_type_def Let_def split: option.splits)

lemma check_subject_ok:
  "check_subject v s = [] \<longleftrightarrow> (\<forall>m \<in> set (elems s). everyone (parse_entity m) \<or> declared_type v (parse_entity m))"
  by (simp add: check_subject_def subject_entity_paths_def check_subject_entity_ok)

lemma check_object_ok: "check_object v ob = Inr [] \<longleftrightarrow> object_allowed v ob"
  by (auto simp: check_object_def object_allowed_def object_entity_def declared_type_def go_deref_def Let_def
      split: option.splits)

lemma check_principal_ok: "check_principal v ns ps e = [] \<longleftrightarrow>
    everyone e \<or> e = EEmpty \<or> (\<exists>p \<in> set ps. type_matches ns (entity_get_namespace e (def_namespace v)) e p)"
  by (simp add: check_principal_def everyone_def)

lemma check_resource_ok: "check_resource v ns rs policy = [] \<longleftrightarrow>
    parse_entity (object_info policy) = EEmpty \<or>
    (\<exists>r \<in> set rs. type_matches ns (entity_get_namespace (parse_entity (object_info policy)) (def_namespace v))
       (parse_entity (object_info policy)) r)"
  by (simp add: check_resource_def object_entity_def Let_def)

lemma check_applies_ok:
  "check_applies_to v ns applies policy = [] \<longleftrightarrow>
     (\<forall>s \<in> set (elems (subjects policy)). principal_allowed v ns applies (parse_entity s)) \<and>
     resource_allowed v ns applies (parse_entity (object_info policy))"
  by (simp add: check_applies_to_def principal_allowed_def resource_allowed_def subject_entity_paths_def
      check_principal_ok check_resource_ok split: option.split)

lemma check_one_action_ok: "check_one_action v policy a = [] \<longleftrightarrow> action_allowed v policy a"
  by (simp add: check_one_action_def action_allowed_def action_entity_path_def Let_def check_applies_ok
      split: option.split)

lemma check_action_ok: "check_action v policy = [] \<longleftrightarrow> (\<forall>a \<in> set (elems (actions policy)). action_allowed v policy a)"
  by (simp add: check_action_def check_one_action_ok)

lemma validate_ok:
  "validate_policy d v policy = Inr [] \<longleftrightarrow>
     (\<forall>m \<in> set (elems (subjects policy)). everyone (parse_entity m) \<or> declared_type v (parse_entity m)) \<and>
     object_allowed v (object_info policy) \<and>
     (\<forall>a \<in> set (elems (actions policy)). action_allowed v policy a) \<and>
     check_conditions d v policy = Inr []"
  by (auto simp: validate_policy_def rbind_Inr_iff check_subject_ok [symmetric] check_object_ok [symmetric]
      check_action_ok [symmetric])

lemma object_set:
  assumes "list_all simple_entity es" and "es \<noteq> []" and "map_of (namespaces v) (def_namespace v) \<noteq> None"
    and "\<not> equal_fold (entity_string (EIn es)) (def_namespace v)"
  shows "check_object v (entity_string (EIn es)) = Inl (Panic ''nil pointer dereference'')"
proof -
  have "parse_entity (entity_string (EIn es)) = EIn es" using assms by (intro parse_printable_entity) simp
  then show ?thesis
    using assms by (auto simp: check_object_def object_entity_def entity_get_namespace_def entity_get_type_def
        go_deref_def Let_def)
qed

section \<open>Properties\<close>

text \<open>Property C9.  Validation reports no error exactly when every subject that is not everyone is of a
  declared type, the object is absent, the application or of a declared type, every action is
  declared and applies to the types of the subjects and the object, and the condition has no error.\<close>

theorem validation_complete:
  "validate_policy d v policy = Inr [] \<longleftrightarrow>
     (\<forall>m \<in> set (elems (subjects policy)). everyone (parse_entity m) \<or> declared_type v (parse_entity m)) \<and>
     object_allowed v (object_info policy) \<and>
     (\<forall>a \<in> set (elems (actions policy)). action_allowed v policy a) \<and>
     check_conditions d v policy = Inr []"
  by (rule validate_ok)

text \<open>A model with one entity type and one action, and a policy that is valid in it.\<close>

definition photo_validator :: validator where
  "photo_validator = get_validator
     [(''PhotoApp'', \<lparr>schema_entity_types = [(''User'', \<lparr>member_of_types = None,
          shape = \<lparr>shape_kind = ''Record'', shape_attributes = None\<rparr>\<rparr>)],
        schema_actions = [(''view'', \<lparr>member_of = None,
          applies_to = \<lparr>principal_types = Some [''User''], resource_types = None, applies_context = None\<rparr>\<rparr>)],
        common_types = []\<rparr>)] ''PhotoApp''"

definition viewing_policy :: policy_info where
  "viewing_policy = (sample_policy None [''User:alice''])\<lparr>actions := Some [''Action:view'']\<rparr>"

lemma viewing_entities: "parse_entity ''User:alice'' = EEquals [''User''] ''alice''"
    "parse_entity ''Action:view'' = EEquals [''Action''] ''view''"
    "parse_entity ''PhotoApp'' = EEquals [] ''PhotoApp''"
  by code_simp+

theorem validation_complete_witness:
  "validate_policy 1 photo_validator viewing_policy = Inr []"
  by (subst validation_complete)
    (auto simp: viewing_policy_def photo_validator_def get_validator_def viewing_entities everyone_def declared_type_def
      entity_get_namespace_def entity_get_type_def entity_get_id_def object_allowed_def action_allowed_def Let_def
      principal_allowed_def resource_allowed_def type_matches_def contains_str_char check_conditions_def)

text \<open>An object that is a set of entities without a type makes the validator panic.\<close>

lemma object_set_panics:
  assumes "list_all simple_entity es" and "es \<noteq> []" and "map_of (namespaces v) (def_namespace v) \<noteq> None"
    and "\<not> equal_fold (entity_string (EIn es)) (def_namespace v)"
  shows "check_object v (entity_string (EIn es)) = Inl (Panic ''nil pointer dereference'')"
  using assms by (rule object_set)

end
