(* ===== verification/Rar_Model.thy ===== *)
theory Rar_Model
  imports Hexa_Policy "HOL-Library.Product_Lexorder"
begin

text \<open>
  The resource-action-roles model of \<^verbatim>\<open>models/rar\<close>, which the role based providers share: the
  string keys under which a provider stores the roles of an action on a resource
  (\<^verbatim>\<open>resource_action_role.go\<close>), the translation to and from policies (\<^verbatim>\<open>policy_transformer.go\<close>),
  the computation of updates (\<^verbatim>\<open>resource_action_role_policy_support.go\<close>) and the operations on
  lists of names they use (\<^verbatim>\<open>functionalsupport/slice_support.go\<close>).

  The code sorts with a comparison that is not strict.  On names equal elements are
  indistinguishable, and flattened policies have no two equal keys, so there the result is the
  sorted list; for built policies with the same resource and action the model keeps their order.
  \<^verbatim>\<open>DiffUnique\<close> and \<^verbatim>\<open>FlattenPolicy\<close> collect their results by ranging over a Go map, in an
  unspecified order; the model takes one order, and the callers sort what they get.
\<close>

section \<open>Lists of names\<close>

definition blank :: "string \<Rightarrow> bool" where
  "blank s \<longleftrightarrow> trim_space s = []"

text \<open>\<open>slices.Compact\<close> is \<^const>\<open>remdups_adj\<close>; after it only a blank prefix is dropped.\<close>

definition sort_compact :: "string list \<Rightarrow> string list" where
  "sort_compact arr = dropWhile blank (remdups_adj (sort arr))"

definition diff_unique :: "string list \<Rightarrow> string list \<Rightarrow> string list \<times> string list \<times> string list" where
  "diff_unique arr1 arr2 =
     (let sorted1 = filter (\<lambda>r. \<not> blank r) (sort_compact arr1);
          sorted2 = filter (\<lambda>r. \<not> blank r) (sort_compact arr2)
      in (filter (\<lambda>r. r \<notin> set sorted2) sorted1,
          filter (\<lambda>r. r \<in> set sorted2) sorted1,
          filter (\<lambda>r. r \<notin> set sorted1) sorted2))"

section \<open>Resource, action, roles\<close>

record rar =
  rar_action :: string
  rar_resource :: string
  rar_roles :: "string slice"

definition empty_rar :: rar where
  "empty_rar = \<lparr>rar_action = [], rar_resource = [], rar_roles = None\<rparr>"

definition http_methods :: "string list" where
  "http_methods = [''GET'', ''HEAD'', ''POST'', ''PUT'', ''PATCH'', ''DELETE'', ''CONNECT'', ''OPTIONS'', ''TRACE'']"

definition get_http_method :: "string \<Rightarrow> string \<Rightarrow> string" where
  "get_http_method act action_prefix =
     (case find (\<lambda>m. to_lower (action_prefix @ m) = to_lower act) http_methods of
        Some m \<Rightarrow> m | None \<Rightarrow> [])"

definition sanitize_members :: "string list \<Rightarrow> string list" where
  "sanitize_members members = map trim_space (filter (\<lambda>m. \<not> blank m) members)"

definition new_rar :: "string \<Rightarrow> string \<Rightarrow> string list \<Rightarrow> rar" where
  "new_rar resource act roles =
     (if blank resource \<or> blank act then empty_rar
      else \<lparr>rar_action = act,
             rar_resource = CHR ''/'' # trim_space (trim_prefix (trim_space resource) ''/''),
             rar_roles = Some (sanitize_members roles)\<rparr>)"

definition new_resource_action_roles :: "string \<Rightarrow> string \<Rightarrow> string list \<Rightarrow> rar" where
  "new_resource_action_roles resource http_method roles =
     (if get_http_method http_method [] = [] then empty_rar else new_rar resource http_method roles)"

definition action_uri_prefix :: string where
  "action_uri_prefix = ''http:''"

definition new_resource_action_uri_roles :: "string \<Rightarrow> string \<Rightarrow> string list \<Rightarrow> rar" where
  "new_resource_action_uri_roles resource action_uri roles =
     (let m = get_http_method action_uri action_uri_prefix in
      if m = [] then empty_rar else new_rar resource m roles)"

definition rar_from_provider_value :: "string \<Rightarrow> string list \<Rightarrow> rar" where
  "rar_from_provider_value key roles =
     (let parts = split_str key ''-'' in
      if length parts < 3 \<or> hd parts \<noteq> ''resrol'' then empty_rar
      else
        (let m = get_http_method (parts ! 1) ''http'' in
         if m = [] then empty_rar else new_rar (join_str (drop 2 parts) ''/'') m roles))"

definition make_rar_key :: "string \<Rightarrow> string \<Rightarrow> string \<Rightarrow> string" where
  "make_rar_key act resource action_prefix =
     (if blank resource \<or> blank act then []
      else
        (let m = get_http_method act action_prefix in
         if m = [] then []
         else join_str [''resrol'', ''http'' @ to_lower m,
                        replace_all (trim_prefix resource ''/'') ''/'' ''-''] ''-''))"

definition rar_name :: "rar \<Rightarrow> string" where
  "rar_name nv = make_rar_key (rar_action nv) (rar_resource nv) []"

definition rar_value :: "rar \<Rightarrow> string" where
  "rar_value nv = marshal_strings (rar_roles nv)"

definition make_rar_key_for_policy :: "string \<Rightarrow> string \<Rightarrow> string" where
  "make_rar_key_for_policy action_uri resource = make_rar_key action_uri resource action_uri_prefix"

section \<open>Policies\<close>

text \<open>The first action; every policy sorted here has exactly one.\<close>

definition first_action :: "policy_info \<Rightarrow> string" where
  "first_action p = (case elems (actions p) of [] \<Rightarrow> [] | a # _ \<Rightarrow> a)"

definition sort_policies :: "policy_info list \<Rightarrow> policy_info list" where
  "sort_policies ps = sort_key (\<lambda>p. (object_info p, first_action p)) ps"

definition plain_policy :: "string \<Rightarrow> string \<Rightarrow> string \<Rightarrow> string list \<Rightarrow> policy_info" where
  "plain_policy provider act resource members =
     \<lparr>meta = \<lparr>meta_version = ''0.7'', source_data = None, description = [], created = None,
              modified = None, etag = [], policy_id = None, pap_id = None, provider_type = provider\<rparr>,
      subjects = Some members, actions = Some [act], object_info = resource,
      condition = None, scope = None\<rparr>"

text \<open>\<open>slices.Sort\<close> sorts the roles in place; a nil slice stays nil.\<close>

definition build_policy :: "rar \<Rightarrow> policy_info" where
  "build_policy one =
     (plain_policy ''RARmodel'' (action_uri_prefix @ rar_action one) (rar_resource one) [])
       \<lparr>subjects := map_option sort (rar_roles one)\<rparr>"

definition build_policies :: "rar list \<Rightarrow> policy_info list" where
  "build_policies rars = sort_policies (map build_policy rars)"

definition compact_actions :: "string list \<Rightarrow> string list \<Rightarrow> string list" where
  "compact_actions existing new = sort_compact (existing @ new)"

definition compact_members :: "string list \<Rightarrow> string list \<Rightarrow> string list" where
  "compact_members existing new = sort_compact (existing @ new)"

definition flatten_action :: "policy_info \<Rightarrow> policy_info go_map \<Rightarrow> string \<Rightarrow> policy_info go_map" where
  "flatten_action pol m act =
     (if blank act then m
      else
        (let key = act @ object_info pol;
             existing = (case map_of m key of Some p \<Rightarrow> elems (subjects p) | None \<Rightarrow> [])
         in AList.update key
              (plain_policy [] act (object_info pol) (compact_members existing (elems (subjects pol)))) m))"

definition flatten_one :: "policy_info go_map \<Rightarrow> policy_info \<Rightarrow> policy_info go_map" where
  "flatten_one m pol =
     (if object_info pol = [] then m else foldl (flatten_action pol) m (elems (actions pol)))"

definition flatten_policy :: "policy_info list \<Rightarrow> policy_info list" where
  "flatten_policy ps = sort_policies (map snd (foldl flatten_one [] ps))"

section \<open>Updates\<close>

definition map_resource_action_roles :: "rar list \<Rightarrow> rar go_map" where
  "map_resource_action_roles rars = foldl (\<lambda>m r. AList.update (rar_name r) r m) [] rars"

text \<open>Whether the roles change, and the roles that remain.\<close>

definition find_roles_to_update :: "string list \<Rightarrow> string list \<Rightarrow> bool \<times> string list" where
  "find_roles_to_update existing new =
     (let (existing_only, matches, new_only) = diff_unique existing new in
      if existing_only = [] \<and> new_only = [] then (False, [])
      else (True, sort_compact (matches @ new_only)))"

definition update_for_policy :: "rar go_map \<Rightarrow> policy_info \<Rightarrow> rar list" where
  "update_for_policy existing pol =
     (case map_of existing (make_rar_key_for_policy (first_action pol) (object_info pol)) of
        None \<Rightarrow> []
      | Some r \<Rightarrow>
          (let (has_changes, roles) = find_roles_to_update (elems (rar_roles r)) (elems (subjects pol)) in
           if has_changes then [new_resource_action_uri_roles (object_info pol) (first_action pol) roles] else []))"

definition calc_updates :: "rar list \<Rightarrow> policy_info list \<Rightarrow> rar list" where
  "calc_updates existing policies =
     (let m = map_resource_action_roles existing; new = flatten_policy policies in
      if m = [] \<or> new = [] then [] else concat (map (update_for_policy m) new))"

section \<open>Sorted lists of names\<close>

lemma distinct_remdups_adj: "sorted xs \<Longrightarrow> distinct (remdups_adj (xs :: 'a :: linorder list))"
proof (induction xs rule: remdups_adj.induct)
  case (3 x y xs)
  then show ?case
    by (cases "x = y") auto
qed simp_all

lemma nonblank_dropWhile: "\<not> blank m \<Longrightarrow> m \<in> set (dropWhile blank xs) \<longleftrightarrow> m \<in> set xs"
  by (induction xs) auto

lemma sort_compact_member: "\<not> blank m \<Longrightarrow> m \<in> set (sort_compact xs) \<longleftrightarrow> m \<in> set xs"
  by (simp add: sort_compact_def nonblank_dropWhile)

lemma sort_compact_sorted: "sorted (sort_compact xs)" "distinct (sort_compact xs)"
proof -
  have s: "sorted (remdups_adj (sort xs))" by (simp add: sorted_remdups_adj)
  then show "sorted (sort_compact xs)" by (simp add: sort_compact_def sorted_dropWhile)
  show "distinct (sort_compact xs)"
    by (simp add: sort_compact_def distinct_dropWhile distinct_remdups_adj)
qed

section \<open>Differences of role lists\<close>

definition named :: "string list \<Rightarrow> string set" where
  "named xs = {m \<in> set xs. \<not> blank m}"

lemma diff_unique_sets:
  assumes "diff_unique xs ys = (d1, i, d2)"
  shows "set d1 = named xs - named ys" "set i = named xs \<inter> named ys" "set d2 = named ys - named xs"
  using assms sort_compact_member by (auto simp: diff_unique_def named_def Let_def)

lemma roles_update:
  assumes "find_roles_to_update existing new = (changed, roles)"
  shows "changed = (named existing \<noteq> named new)" and "changed \<Longrightarrow> set roles = named new \<and> sorted roles \<and> distinct roles"
proof -
  obtain d1 i d2 where d: "diff_unique existing new = (d1, i, d2)" by (cases "diff_unique existing new")
  note s = diff_unique_sets [OF d]
  have e: "d1 = [] \<and> d2 = [] \<longleftrightarrow> named existing = named new"
    using s(1,3) by (metis Diff_eq_empty_iff set_empty subset_antisym subset_refl)
  with assms d show c: "changed = (named existing \<noteq> named new)"
    by (auto simp: find_roles_to_update_def split: if_splits)
  assume changed
  with assms d have roles: "roles = sort_compact (i @ d2)"
    by (auto simp: find_roles_to_update_def split: if_splits)
  have u: "set (i @ d2) = named new" using s(2,3) by auto
  have "set (dropWhile blank xs) = set xs" if "\<forall>m \<in> set xs. \<not> blank m" for xs
    using that by (cases xs) auto
  from this [of "remdups_adj (sort (i @ d2))"] have "set roles = named new"
    using u by (auto simp: roles sort_compact_def named_def)
  with sort_compact_sorted show "set roles = named new \<and> sorted roles \<and> distinct roles"
    by (simp add: roles)
qed

section \<open>Keys\<close>

lemma blank_iff: "blank s \<longleftrightarrow> (\<forall>c \<in> set s. is_space c)"
proof -
  have "blank s \<longleftrightarrow> (\<forall>c \<in> set (dropWhile is_space s). is_space c)"
    by (simp add: blank_def trim_space_def)
  moreover have "dropWhile is_space s = []" if "\<forall>c \<in> set (dropWhile is_space s). is_space c"
    using that hd_dropWhile [of is_space s] by (cases "dropWhile is_space s") auto
  ultimately show ?thesis by (metis dropWhile_eq_Nil_conv set_dropWhileD)
qed

lemma method_text: "m \<in> set http_methods \<Longrightarrow> get_http_method (''http'' @ to_lower m) ''http'' = m"
  "m \<in> set http_methods \<Longrightarrow> get_http_method m [] = m"
  "m \<in> set http_methods \<Longrightarrow> CHR ''-'' \<notin> set (to_lower m) \<and> \<not> blank m \<and> m \<noteq> []"
proof -
  have "\<forall>m \<in> set http_methods. get_http_method (''http'' @ to_lower m) ''http'' = m \<and> get_http_method m [] = m \<and>
      CHR ''-'' \<notin> set (to_lower m) \<and> \<not> blank m \<and> m \<noteq> []"
    by (simp add: http_methods_def get_http_method_def to_lower_def lower_others blank_iff is_space_def)
  then show "m \<in> set http_methods \<Longrightarrow> get_http_method (''http'' @ to_lower m) ''http'' = m"
    "m \<in> set http_methods \<Longrightarrow> get_http_method m [] = m"
    "m \<in> set http_methods \<Longrightarrow> CHR ''-'' \<notin> set (to_lower m) \<and> \<not> blank m \<and> m \<noteq> []" by blast+
qed

text \<open>A resource path the key keeps: trimmed, without dash and with a single leading slash.\<close>

definition plain_resource :: "string \<Rightarrow> bool" where
  "plain_resource r \<longleftrightarrow> r \<noteq> [] \<and> trim_space r = r \<and> CHR ''-'' \<notin> set r \<and> hd r \<noteq> CHR ''/''"

lemma split_chars: "x \<in> set (split_str s [c]) \<Longrightarrow> d \<in> set x \<Longrightarrow> d \<in> set s"
proof -
  assume x: "x \<in> set (split_str s [c])" and d: "d \<in> set x"
  have "d \<in> set (join_str xs sep)" if "x \<in> set xs" for xs sep
    using that d by (induction xs sep rule: join_str.induct) auto
  from this [OF x, of "[c]"] show "d \<in> set s" by (simp add: join_split_str)
qed

lemma key_parts:
  assumes "plain_resource r" and "m \<in> set http_methods"
  shows "split_str (make_rar_key m (CHR ''/'' # r) []) ''-'' = [''resrol'', ''http'' @ to_lower m] @ split_str r ''/''"
proof -
  have "\<not> blank (CHR ''/'' # r)" by (simp add: blank_iff is_space_def)
  then have "make_rar_key m (CHR ''/'' # r) [] = join_str ([''resrol'', ''http'' @ to_lower m] @ split_str r ''/'') ''-''"
    using method_text [OF assms(2)] split_str_not_Nil [of "''/''" r]
    by (cases "split_str r ''/''") (auto simp: make_rar_key_def Let_def replace_all_def trim_prefix_def)
  moreover have "split_str (join_str ([''resrol'', ''http'' @ to_lower m] @ split_str r ''/'') ''-'') ''-'' = [''resrol'', ''http'' @ to_lower m] @ split_str r ''/''"
    by (rule split_join_char)
      (use method_text(3) [OF assms(2)] assms(1) split_chars [of _ r] in \<open>auto simp: plain_resource_def\<close>)
  ultimately show ?thesis by (simp only:)
qed

lemma key_roundtrip:
  assumes "plain_resource r" and "m \<in> set http_methods" and "sanitize_members roles = roles"
    and "nv = \<lparr>rar_action = m, rar_resource = CHR ''/'' # r, rar_roles = Some roles\<rparr>"
  shows "rar_from_provider_value (rar_name nv) roles = nv"
proof -
  have len: "\<not> length (split_str r ''/'') < 1" using split_str_not_Nil [of "''/''" r] by (cases "split_str r ''/''") auto
  have "\<not> blank r" using assms(1) by (auto simp: plain_resource_def blank_def)
  moreover have "trim_space (trim_prefix r ''/'') = r"
    using assms(1) by (cases r) (auto simp: plain_resource_def trim_prefix_def)
  ultimately have "new_rar r m roles = nv"
    using method_text(3) [OF assms(2)] assms by (simp add: new_rar_def plain_resource_def)
  then show ?thesis
    using method_text [OF assms(2)] len
    by (simp add: rar_from_provider_value_def rar_name_def assms(4) key_parts [OF assms(1,2)] join_split_str Let_def)
qed

lemma replace_char: "replace_all s [c] [d] = map (\<lambda>x. if x = c then d else x) s"
proof (induction "length s" arbitrary: s rule: less_induct)
  case less
  show ?case
  proof (cases "c \<in> set s")
    case True
    then obtain x y where s: "s = x @ c # y" "c \<notin> set x" by (meson split_list_first)
    have keep: "map (\<lambda>z. if z = c then d else z) x = x" using s(2) by (auto intro: map_idI)
    have "replace_all s [c] [d] = x @ d # replace_all y [c] [d]"
      using s split_str_not_Nil [of "[c]" y]
      by (cases "split_str y [c]") (auto simp: replace_all_def split_str_char)
    also have "replace_all y [c] [d] = map (\<lambda>z. if z = c then d else z) y" using s(1) by (intro less) simp
    finally show ?thesis by (simp add: s(1) keep)
  next
    case False
    then have "map (\<lambda>z. if z = c then d else z) s = s" by (auto intro: map_idI)
    with False show ?thesis by (simp add: replace_all_def split_str_char_absent)
  qed
qed

lemma key_collision:
  "make_rar_key m (CHR ''/'' # a @ ''-'' @ b) p = make_rar_key m (CHR ''/'' # a @ ''/'' @ b) p"
  by (simp add: make_rar_key_def Let_def trim_prefix_def replace_char blank_iff is_space_def)

section \<open>Flattened policies\<close>

lemma named_Cons: "named [] = {}" "named (m # xs) = (if blank m then named xs else insert m (named xs))"
  by (auto simp: named_def)

text \<open>What a set of policies grants: an action on a resource to a member.\<close>

definition grants :: "policy_info list \<Rightarrow> string \<Rightarrow> string \<Rightarrow> string \<Rightarrow> bool" where
  "grants ps a r x \<longleftrightarrow>
     (\<exists>p \<in> set ps. object_info p = r \<and> a \<in> set (elems (actions p)) \<and> x \<in> set (elems (subjects p)))"

text \<open>The keys the code merges policies by, the action followed by the resource, tell actions apart.\<close>

definition unambiguous :: "policy_info list \<Rightarrow> bool" where
  "unambiguous ps \<longleftrightarrow>
     (\<forall>p \<in> set ps. \<forall>q \<in> set ps. \<forall>a \<in> set (elems (actions p)). \<forall>b \<in> set (elems (actions q)).
        a @ object_info p = b @ object_info q \<longrightarrow> a = b)"

definition contributions :: "policy_info list \<Rightarrow> (string \<times> policy_info) list" where
  "contributions ps = concat (map (\<lambda>p. if object_info p = [] then []
     else map (\<lambda>a. (a, p)) (filter (\<lambda>a. \<not> blank a) (elems (actions p)))) ps)"

lemma flatten_contributions:
  "foldl flatten_one m ps = foldl (\<lambda>m (a, p). flatten_action p m a) m (contributions ps)"
proof (induction ps arbitrary: m)
  case (Cons p ps)
  have "foldl (flatten_action p) m as =
      foldl (\<lambda>m (a, p). flatten_action p m a) m (map (\<lambda>a. (a, p)) (filter (\<lambda>a. \<not> blank a) as))" for as
    by (induction as arbitrary: m) (auto simp: flatten_action_def)
  with Cons show ?case by (auto simp: flatten_one_def contributions_def)
qed (simp add: contributions_def)

lemma contributions_set:
  "(a, p) \<in> set (contributions ps) \<longleftrightarrow>
     p \<in> set ps \<and> object_info p \<noteq> [] \<and> \<not> blank a \<and> a \<in> set (elems (actions p))"
  by (auto simp: contributions_def)

definition flat_map_ok :: "(string \<times> policy_info) list \<Rightarrow> policy_info go_map \<Rightarrow> bool" where
  "flat_map_ok L m \<longleftrightarrow> go_map_ok m \<and> (\<forall>(a, p) \<in> set L. a @ object_info p \<in> fst ` set m) \<and>
     (\<forall>k q. map_of m k = Some q \<longrightarrow>
        (\<exists>(a, p) \<in> set L. k = a @ object_info p \<and> actions q = Some [a] \<and> object_info q = object_info p) \<and>
        (\<forall>x. \<not> blank x \<longrightarrow> x \<in> set (elems (subjects q)) \<longleftrightarrow>
           (\<exists>(b, p) \<in> set L. k = b @ object_info p \<and> x \<in> set (elems (subjects p)))))"

lemma flat_map_okD:
  assumes "flat_map_ok L m" and "map_of m k = Some q"
  shows "\<exists>(a, p) \<in> set L. k = a @ object_info p \<and> actions q = Some [a] \<and> object_info q = object_info p"
    and "\<not> blank x \<Longrightarrow> x \<in> set (elems (subjects q)) \<longleftrightarrow>
      (\<exists>(b, p) \<in> set L. k = b @ object_info p \<and> x \<in> set (elems (subjects p)))"
  using assms unfolding flat_map_ok_def by blast+

lemma plain_policy_fields [simp]:
  "actions (plain_policy pr a r ms) = Some [a]" "object_info (plain_policy pr a r ms) = r"
  "subjects (plain_policy pr a r ms) = Some ms"
  by (simp_all add: plain_policy_def)

lemma flat_map_step:
  assumes "flat_map_ok L m" and "\<not> blank a"
  shows "flat_map_ok (L @ [(a, p)]) (flatten_action p m a)"
proof -
  let ?k = "a @ object_info p"
  let ?old = "case map_of m ?k of Some q \<Rightarrow> elems (subjects q) | None \<Rightarrow> []"
  let ?q = "plain_policy [] a (object_info p) (compact_members ?old (elems (subjects p)))"
  have step: "flatten_action p m a = AList.update ?k ?q m"
    using assms(2) by (simp add: flatten_action_def Let_def)
  have old: "x \<in> set ?old \<longleftrightarrow> (\<exists>(b, p') \<in> set L. ?k = b @ object_info p' \<and> x \<in> set (elems (subjects p')))"
    if "\<not> blank x" for x
  proof (cases "map_of m ?k")
    case None
    then have "?k \<notin> fst ` set m" by (simp add: map_of_eq_None_iff)
    with assms(1) None show ?thesis by (fastforce simp: flat_map_ok_def)
  next
    case (Some q)
    with assms(1) that show ?thesis by (auto simp: flat_map_ok_def)
  qed
  show ?thesis
    unfolding flat_map_ok_def
  proof (intro conjI allI impI ballI)
    show "go_map_ok (flatten_action p m a)"
      using assms(1) by (simp add: step flat_map_ok_def distinct_update)
    show "case y of (b, p') \<Rightarrow> b @ object_info p' \<in> fst ` set (flatten_action p m a)" if "y \<in> set (L @ [(a, p)])" for y
      using that assms(1) by (auto simp: step flat_map_ok_def dom_update)
  next
    fix k q
    assume q: "map_of (flatten_action p m a) k = Some q"
    show "\<exists>(b, p') \<in> set (L @ [(a, p)]). k = b @ object_info p' \<and> actions q = Some [b] \<and> object_info q = object_info p'"
      using q assms(1) by (cases "k = ?k") (auto simp: step update_conv flat_map_ok_def)
    fix x assume x: "\<not> blank x"
    show "x \<in> set (elems (subjects q)) \<longleftrightarrow>
        (\<exists>(b, p') \<in> set (L @ [(a, p)]). k = b @ object_info p' \<and> x \<in> set (elems (subjects p')))"
    proof (cases "k = ?k")
      case True
      with q have "q = ?q" by (simp add: step update_conv)
      with True old [OF x] x show ?thesis by (auto simp: compact_members_def sort_compact_member)
    next
      case False
      with q assms(1) x show ?thesis by (auto simp: step update_conv flat_map_ok_def)
    qed
  qed
qed

lemma flat_map: "flat_map_ok (contributions ps) (foldl flatten_one [] ps)"
proof -
  have "flat_map_ok L (foldl (\<lambda>m (a, p). flatten_action p m a) [] L)" if "\<forall>(a, p) \<in> set L. \<not> blank a" for L
    using that
  proof (induction L rule: rev_induct)
    case (snoc y L)
    then show ?case by (cases y) (simp add: flat_map_step)
  qed (simp add: flat_map_ok_def)
  moreover have "\<forall>(a, p) \<in> set (contributions ps). \<not> blank a" using contributions_set by auto
  ultimately show ?thesis by (simp add: flatten_contributions)
qed

lemma flatten_policy_set: "set (flatten_policy ps) = snd ` set (foldl flatten_one [] ps)"
  by (simp add: flatten_policy_def sort_policies_def)

lemma flatten_grants:
  assumes "unambiguous ps" and "\<not> blank a" and "r \<noteq> []" and "\<not> blank x"
  shows "grants (flatten_policy ps) a r x \<longleftrightarrow> grants ps a r x"
proof -
  let ?m = "foldl flatten_one [] ps"
  have ok: "flat_map_ok (contributions ps) ?m" by (rule flat_map)
  then have distinct: "go_map_ok ?m" by (simp add: flat_map_ok_def)
  show ?thesis
  proof
    assume "grants (flatten_policy ps) a r x"
    then obtain k q where q: "(k, q) \<in> set ?m" "object_info q = r" "a \<in> set (elems (actions q))" "x \<in> set (elems (subjects q))"
      by (auto simp: grants_def flatten_policy_set)
    then have "map_of ?m k = Some q" using distinct by simp
    note kq = \<open>map_of ?m k = Some q\<close>
    from flat_map_okD(1) [OF ok kq] obtain c p where
      p: "(c, p) \<in> set (contributions ps)" "k = c @ object_info p" "actions q = Some [c]" "object_info q = object_info p"
      by blast
    from p(3) q(3) have "c = a" by simp
    from flat_map_okD(2) [OF ok kq assms(4)] q(4) obtain b p' where
      p': "(b, p') \<in> set (contributions ps)" "k = b @ object_info p'" "x \<in> set (elems (subjects p'))"
      by blast
    from p(1) p'(1) have m: "p \<in> set ps" "p' \<in> set ps" "c \<in> set (elems (actions p))" "b \<in> set (elems (actions p'))"
      by (simp_all add: contributions_set)
    from p(2) p'(2) have "c @ object_info p = b @ object_info p'" by simp
    with m assms(1) have "c = b" unfolding unambiguous_def by blast
    with \<open>c @ object_info p = b @ object_info p'\<close> p(4) q(2) have "object_info p' = r" by simp
    with m p'(3) \<open>c = a\<close> \<open>c = b\<close> show "grants ps a r x" unfolding grants_def by blast
  next
    assume "grants ps a r x"
    then obtain p where p: "p \<in> set ps" "object_info p = r" "a \<in> set (elems (actions p))" "x \<in> set (elems (subjects p))"
      by (auto simp: grants_def)
    with assms have c: "(a, p) \<in> set (contributions ps)" by (simp add: contributions_set)
    with ok p obtain q where q: "map_of ?m (a @ r) = Some q"
      by (fastforce simp: flat_map_ok_def map_of_eq_None_iff)
    obtain b p' where b: "(b, p') \<in> set (contributions ps)" "a @ r = b @ object_info p'"
        "actions q = Some [b]" "object_info q = object_info p'"
      using flat_map_okD(1) [OF ok q] by blast
    from b(1) have "p' \<in> set ps" "b \<in> set (elems (actions p'))" by (simp_all add: contributions_set)
    moreover from b(2) p(2) have "a @ object_info p = b @ object_info p'" by simp
    ultimately have "a = b" using p(1,3) assms(1) unfolding unambiguous_def by blast
    moreover have "x \<in> set (elems (subjects q))"
      using flat_map_okD(2) [OF ok q assms(4)] c p by blast
    ultimately show "grants (flatten_policy ps) a r x"
      using b map_of_SomeD [OF q] by (force simp: grants_def flatten_policy_set)
  qed
qed

section \<open>Properties\<close>

text \<open>The provider key of an action on a resource path without dashes gives back the action
  and the resource.\<close>

lemma rar_key_roundtrip:
  assumes "plain_resource r" and "m \<in> set http_methods" and "sanitize_members roles = roles"
  shows "rar_from_provider_value (rar_name \<lparr>rar_action = m, rar_resource = CHR ''/'' # r, rar_roles = Some roles\<rparr>) roles =
    \<lparr>rar_action = m, rar_resource = CHR ''/'' # r, rar_roles = Some roles\<rparr>"
  using key_roundtrip [OF assms refl] .

text \<open>Resources that differ only in a slash instead of a dash have the same provider key.\<close>

lemma rar_key_collision:
  "make_rar_key m (CHR ''/'' # a @ ''-'' @ b) p = make_rar_key m (CHR ''/'' # a @ ''/'' @ b) p"
  by (rule key_collision)

text \<open>Updating roles: there is a change exactly when the sets of non-blank roles differ, and the
  new roles are then exactly the wanted ones, sorted and without repetitions.\<close>

lemma roles_update_exact:
  assumes "find_roles_to_update existing new = (changed, roles)"
  shows "changed = (named existing \<noteq> named new) \<and>
    (changed \<longrightarrow> set roles = named new \<and> sorted roles \<and> distinct roles)"
  using roles_update [OF assms] by blast

text \<open>Property C10.  Flattening grants exactly the same actions on resources to the same members, when the
  concatenation of action and resource tells the actions apart.\<close>

theorem flatten_keeps_grants:
  assumes "unambiguous ps" and "\<not> blank a" and "r \<noteq> []" and "\<not> blank x"
  shows "grants (flatten_policy ps) a r x \<longleftrightarrow> grants ps a r x"
  using assms by (rule flatten_grants)

theorem flatten_keeps_grants_witness:
  "grants (flatten_policy [sample_policy None [''alice''], sample_policy None [''bob'']]) ''http:GET'' ''PhotoApp'' ''bob''"
  using flatten_keeps_grants [of "[sample_policy None [''alice''], sample_policy None [''bob'']]" "''http:GET''" "''PhotoApp''" "''bob''"]
  by (simp add: unambiguous_def blank_iff is_space_def grants_def)

end
