(* ===== verification/Logic_Text.thy ===== *)
theory Logic_Text
  imports Go_Prelude
begin

text \<open>
  How the provider languages read the text of a condition.  The Google and the Cedar conditions
  have the same levels of precedence, so one grammar serves both: 0 is a disjunction, 1 a
  conjunction, 2 a comparison and 3 a negation, a call or a text in brackets.  It holds what the
  translators write; \<open>prim\<close> tells which texts are read as a unit, and at which level.
\<close>

section \<open>The grammar\<close>

datatype cel_tree =
    CText string
  | CNot cel_tree
  | CAnd cel_tree cel_tree
  | COr cel_tree cel_tree
  | CCompare string cel_tree cel_tree
  | CMethod string cel_tree cel_tree
  | CHas cel_tree

definition cel_operators :: "string list" where
  "cel_operators = [''=='', ''!='', ''<'', ''<='', ''>'', ''>='', ''in'']"

inductive cel_reads :: "(nat \<Rightarrow> string \<Rightarrow> bool) \<Rightarrow> nat \<Rightarrow> string \<Rightarrow> cel_tree \<Rightarrow> bool" for prim where
  leaf: "prim n s \<Longrightarrow> 2 \<le> n \<Longrightarrow> cel_reads prim n s (CText s)"
| call: "cel_reads prim 3 s p \<Longrightarrow> cel_reads prim 0 t q \<Longrightarrow>
    cel_reads prim 3 (s @ ''.'' @ f @ ''('' @ t @ '')'') (CMethod f p q)"
| has: "cel_reads prim 3 s p \<Longrightarrow> cel_reads prim 3 (''has('' @ s @ '')'') (CHas p)"
| neg: "cel_reads prim 3 s p \<Longrightarrow> cel_reads prim 3 (''!'' @ s) (CNot p)"
| paren: "cel_reads prim 0 s p \<Longrightarrow> l \<in> {''('', '' ('', ''( ''} \<Longrightarrow> r \<in> {'')'', '' )''} \<Longrightarrow>
    cel_reads prim 3 (l @ s @ r) p"
| compare: "cel_reads prim 2 s p \<Longrightarrow> cel_reads prim 3 t q \<Longrightarrow> r \<in> set cel_operators \<Longrightarrow>
    cel_reads prim 2 (s @ '' '' @ r @ '' '' @ t) (CCompare r p q)"
| conj: "cel_reads prim 1 s p \<Longrightarrow> cel_reads prim 2 t q \<Longrightarrow> cel_reads prim 1 (s @ '' && '' @ t) (CAnd p q)"
| disj: "cel_reads prim 0 s p \<Longrightarrow> cel_reads prim 1 t q \<Longrightarrow> cel_reads prim 0 (s @ '' || '' @ t) (COr p q)"
| weaken: "cel_reads prim (Suc n) s p \<Longrightarrow> cel_reads prim n s p"

lemma cel_reads_le:
  assumes "cel_reads prim m s p" and "n \<le> m"
  shows "cel_reads prim n s p"
  using assms(2,1) by (induction rule: inc_induct) (auto intro: weaken)

fun cel_truth :: "(cel_tree \<Rightarrow> bool) \<Rightarrow> cel_tree \<Rightarrow> bool" where
  "cel_truth v (CNot p) = (\<not> cel_truth v p)"
| "cel_truth v (CAnd p q) = (cel_truth v p \<and> cel_truth v q)"
| "cel_truth v (COr p q) = (cel_truth v p \<or> cel_truth v q)"
| "cel_truth v p = v p"

text \<open>A chain written without brackets is read from the left, which an associative operator allows.\<close>

lemma conj_append:
  assumes "cel_reads prim n t q" and "n = 1" and "cel_reads prim 1 s p"
  shows "\<exists>r. cel_reads prim 1 (s @ '' && '' @ t) r \<and> (\<forall>v. cel_truth v r = (cel_truth v p \<and> cel_truth v q))"
  using assms
proof (induction n t q rule: cel_reads.induct)
  case (conj t1 q1 t2 q2)
  then obtain r where r: "cel_reads prim 1 (s @ '' && '' @ t1) r" "\<forall>v. cel_truth v r = (cel_truth v p \<and> cel_truth v q1)"
    by blast
  from cel_reads.conj [OF r(1) conj(2)] r(2) show ?case by (intro exI [of _ "CAnd r q2"]) simp
next
  case (weaken n t q)
  then have "cel_reads prim 2 t q" by (simp add: numeral_2_eq_2)
  from cel_reads.conj [OF weaken.prems(2) this] show ?case by (intro exI [of _ "CAnd p q"]) simp
next
  case (disj t1 q1 t2 q2)
  from disj.prems(1) show ?case by simp
qed simp_all

lemma disj_append:
  assumes "cel_reads prim n t q" and "n = 0" and "cel_reads prim 0 s p"
  shows "\<exists>r. cel_reads prim 0 (s @ '' || '' @ t) r \<and> (\<forall>v. cel_truth v r = (cel_truth v p \<or> cel_truth v q))"
  using assms
proof (induction n t q rule: cel_reads.induct)
  case (disj t1 q1 t2 q2)
  then obtain r where r: "cel_reads prim 0 (s @ '' || '' @ t1) r" "\<forall>v. cel_truth v r = (cel_truth v p \<or> cel_truth v q1)"
    by blast
  from cel_reads.disj [OF r(1) disj(2)] r(2) show ?case by (intro exI [of _ "COr r q2"]) simp
next
  case (weaken n t q)
  then have "cel_reads prim 1 t q" by simp
  from cel_reads.disj [OF weaken.prems(2) this] show ?case by (intro exI [of _ "COr p q"]) simp
next
  case (conj t1 q1 t2 q2)
  from conj.prems(1) show ?case by simp
qed simp_all

end
