(* ===== verification/Gcp_Cel.thy ===== *)
theory Gcp_Cel
  imports Conditions Logic_Text "HOL-Library.Word"
begin

text \<open>
  The translator between IDQL conditions and the Google Common Expression Language
  (\<^verbatim>\<open>models/conditionLangs/gcpcel/gcp_condition_mapper.go\<close>).

  The library \<^verbatim>\<open>cel-go\<close> is not part of the program: its parser is the argument \<open>cel_parse\<close> of
  \<open>map_provider_to_condition\<close>, and \<open>cel_expr\<close> has the kinds of syntax trees the code tells apart.
  The getters of those trees return zero values for other kinds; a field read without a getter
  panics there.  Error texts leave out the printed syntax tree.
\<close>

section \<open>CEL syntax trees\<close>

text \<open>A double constant is the text \<open>%v\<close> prints; null, bytes, uint64 and the like are \<open>CelNoString\<close>.\<close>

datatype cel_const =
    CelString string
  | CelBool bool
  | CelInt64 "64 word"
  | CelDouble string
  | CelNoString

datatype cel_expr =
    CelConst cel_const
  | CelIdent string
  | CelSelect cel_expr string bool
  | CelCall "cel_expr option" string "cel_expr list"
  | CelOther

text \<open>The getters \<open>GetIdentExpr().GetName()\<close> and \<open>GetConstExpr().GetStringValue()\<close>.\<close>

fun ident_name :: "cel_expr \<Rightarrow> string" where
  "ident_name (CelIdent n) = n"
| "ident_name _ = []"

fun const_string :: "cel_expr \<Rightarrow> string" where
  "const_string (CelConst (CelString s)) = s"
| "const_string _ = []"

section \<open>From conditions to CEL\<close>

fun check_compatibility :: "expression \<Rightarrow> unit res" where
  "check_compatibility (LogicalExpression op l r) =
     rbind (check_compatibility l) (\<lambda>_. check_compatibility r)"
| "check_compatibility (NotExpression e) = check_compatibility e"
| "check_compatibility (PrecedenceExpression e) = check_compatibility e"
| "check_compatibility (ValuePathExpression a s f op c) =
     Inl (Error ''IDQL ValuePath expression mapping to Google CEL currently not supported'')"
| "check_compatibility (AttributeExpression p op c) = Inr ()"
| "check_compatibility NilExpression = Inr ()"

definition cel_value :: "idql_value option \<Rightarrow> string" where
  "cel_value c =
     (case c of
        None \<Rightarrow> []
      | Some (VComp (CDate t)) \<Rightarrow> ''timestamp('' @ CHR 0x27 # comparable_string (CDate t) @ CHR 0x27 # '')''
      | Some v \<Rightarrow> value_string v)"

fun cel_comparison :: "compare_op \<Rightarrow> string \<Rightarrow> string \<Rightarrow> string" where
  "cel_comparison NE m c = m @ '' != '' @ c"
| "cel_comparison LT m c = m @ '' < '' @ c"
| "cel_comparison LE m c = m @ '' <= '' @ c"
| "cel_comparison GT m c = m @ '' > '' @ c"
| "cel_comparison GE m c = m @ '' >= '' @ c"
| "cel_comparison SW m c = m @ ''.startsWith('' @ c @ '')''"
| "cel_comparison EW m c = m @ ''.endsWith('' @ c @ '')''"
| "cel_comparison PR m c = ''has('' @ m @ '')''"
| "cel_comparison CO m c = m @ ''.contains('' @ c @ '')''"
| "cel_comparison IN m c = m @ '' in '' @ c"
| "cel_comparison _ m c = m @ '' == '' @ c"

definition map_filter_attr_expr :: "attribute_map \<Rightarrow> idql_value \<Rightarrow> compare_op \<Rightarrow> idql_value option \<Rightarrow> string" where
  "map_filter_attr_expr nm p op c =
     cel_comparison op (get_provider_attribute_name nm (value_string p)) (cel_value c)"

definition map_filter_logical :: "logical_op \<Rightarrow> string \<Rightarrow> string \<Rightarrow> bool \<Rightarrow> string" where
  "map_filter_logical op l r is_child =
     (case op of
        AND \<Rightarrow> l @ '' && '' @ r
      | OR \<Rightarrow> if is_child then ''('' @ l @ '' || '' @ r @ '')'' else l @ '' || '' @ r)"

fun is_logical :: "expression \<Rightarrow> bool" where
  "is_logical (LogicalExpression _ _ _) = True"
| "is_logical _ = False"

text \<open>The text of the operand of a negation or of a pair of brackets.\<close>

definition map_filter_group :: "expression \<Rightarrow> string \<Rightarrow> string" where
  "map_filter_group e s = (if is_logical e then ''('' @ s @ '')'' else s)"

definition bad_type :: "'a res" where
  "bad_type = Inl (Panic ''interface conversion'')"

fun map_filter_internal :: "attribute_map \<Rightarrow> expression \<Rightarrow> bool \<Rightarrow> string res" where
  "map_filter_internal nm (NotExpression e) is_child =
     rbind (map_filter_internal nm e False) (\<lambda>s. Inr (''!'' @ map_filter_group e s))"
| "map_filter_internal nm (PrecedenceExpression e) is_child =
     rbind (map_filter_internal nm e False) (\<lambda>s. Inr (map_filter_group e s))"
| "map_filter_internal nm (LogicalExpression op l r) is_child =
     rbind (map_filter_internal nm l (\<not> repeats_operator op l)) (\<lambda>ls.
     rbind (map_filter_internal nm r (\<not> repeats_operator op l)) (\<lambda>rs.
       Inr (map_filter_logical op ls rs is_child)))"
| "map_filter_internal nm (AttributeExpression p op c) is_child = Inr (map_filter_attr_expr nm p op c)"
| "map_filter_internal nm e is_child = bad_type"

definition gcp_map_filter :: "attribute_map \<Rightarrow> expression \<Rightarrow> string res" where
  "gcp_map_filter nm ast = rbind (check_compatibility ast) (\<lambda>_. map_filter_internal nm ast False)"

definition gcp_map_condition :: "attribute_map \<Rightarrow> condition_info \<Rightarrow> string res" where
  "gcp_map_condition nm clause = rbind (condition_ast clause) (gcp_map_filter nm)"

section \<open>From CEL to conditions\<close>

definition map_select_expr :: "attribute_map \<Rightarrow> cel_expr \<Rightarrow> string \<Rightarrow> expression res" where
  "map_select_expr nm base field =
     rbind (parse_value (get_hexa_filter_attribute_path nm (ident_name base @ ''.'' @ field)))
       (\<lambda>lhv. Inr (AttributeExpression lhv PR None))"

text \<open>The attribute a method is called on: \<open>name.field.f(..)\<close> or \<open>name.f(..)\<close>.\<close>

definition target_path :: "attribute_map \<Rightarrow> cel_expr option \<Rightarrow> string" where
  "target_path nm target =
     (case target of
        Some (CelSelect base field _) \<Rightarrow>
          if ident_name base = [] then get_hexa_filter_attribute_path nm []
          else get_hexa_filter_attribute_path nm (ident_name base @ ''.'' @ field)
      | Some t \<Rightarrow> get_hexa_filter_attribute_path nm (ident_name t)
      | None \<Rightarrow> get_hexa_filter_attribute_path nm [])"

definition map_cel_attr_function ::
  "attribute_map \<Rightarrow> cel_expr option \<Rightarrow> string \<Rightarrow> cel_expr list \<Rightarrow> expression res" where
  "map_cel_attr_function nm target func args =
     rbind (parse_value (target_path nm target)) (\<lambda>lhv.
     rbind (go_index args 0) (\<lambda>arg.
     rbind (parse_value (quote (const_string arg))) (\<lambda>rhv.
       if func = ''startsWith'' then Inr (AttributeExpression lhv SW (Some rhv))
       else if func = ''endsWith'' then Inr (AttributeExpression lhv EW (Some rhv))
       else if func = ''contains'' then Inr (AttributeExpression lhv CO (Some rhv))
       else Inl (Error (''unimplemented CEL function:'' @ func)))))"

fun convert_const_expr :: "cel_const \<Rightarrow> idql_value res" where
  "convert_const_expr (CelString s) =
     (case new_date s of
        Inr d \<Rightarrow> Inr (VComp d)
      | Inl _ \<Rightarrow> rbind (new_string s) (\<lambda>v. Inr (VComp v)))"
| "convert_const_expr (CelBool b) = Inr (VComp (new_boolean (bool_string b)))"
| "convert_const_expr (CelInt64 i) = rbind (new_numeric (int_string (sint i))) (\<lambda>v. Inr (VComp v))"
| "convert_const_expr (CelDouble s) = rbind (new_numeric s) (\<lambda>v. Inr (VComp v))"
| "convert_const_expr CelNoString = parse_value []"

text \<open>The path on the left of a comparison; a selection from anything but a name panics.\<close>

fun compare_path :: "cel_expr \<Rightarrow> string res" where
  "compare_path (CelIdent n) = Inr n"
| "compare_path (CelSelect (CelIdent n) field _) = Inr (n @ ''.'' @ field)"
| "compare_path _ = nil_panic"

text \<open>The left side, and whether it is negated.\<close>

fun compare_left :: "cel_expr \<Rightarrow> (bool \<times> cel_expr) res" where
  "compare_left (CelCall target func args) =
     (if func = ''!_'' then rbind (go_index args 0) (\<lambda>e. Inr (True, e))
      else Inl (Error (''unimplemented CEL function: '' @ func)))"
| "compare_left e = Inr (False, e)"

text \<open>The right side; nothing is assigned for a list, a selection or a comprehension.\<close>

fun compare_right :: "cel_expr \<Rightarrow> idql_value option res" where
  "compare_right (CelConst c) = rbind (convert_const_expr c) (\<lambda>v. Inr (Some v))"
| "compare_right (CelIdent n) = Inr (Some (VEntity (parse_entity n)))"
| "compare_right (CelCall target func args) =
     (if func = ''timestamp'' then
        rbind (go_index args 0) (\<lambda>arg.
        rbind (new_date (const_string arg)) (\<lambda>d. Inr (Some (VComp d))))
      else Inl (Error (''unsupported function '' @ func)))"
| "compare_right _ = Inr None"

definition map_cel_attr_compare :: "attribute_map \<Rightarrow> cel_expr list \<Rightarrow> compare_op \<Rightarrow> expression res" where
  "map_cel_attr_compare nm args op =
     rbind (go_index args 0) (\<lambda>arg.
     rbind (compare_left arg) (\<lambda>(is_not, lh).
     rbind (compare_path lh) (\<lambda>path.
     rbind (go_index args 1) (\<lambda>rh.
     rbind (compare_right rh) (\<lambda>rhv.
     rbind (parse_value (get_hexa_filter_attribute_path nm path)) (\<lambda>lhv.
       let e = AttributeExpression lhv op rhv in
       Inr (if is_not then NotExpression e else e)))))))"

text \<open>The negation drops an error of its operand and keeps the nil expression it got.\<close>

definition map_cel_not :: "(cel_expr \<Rightarrow> expression res) \<Rightarrow> cel_expr list \<Rightarrow> expression res" where
  "map_cel_not map_expr args =
     (case args of
        [] \<Rightarrow> Inl (Panic ''index out of range'')
      | e # _ \<Rightarrow>
          rbind (try_call (map_expr e)) (\<lambda>r.
            Inr (NotExpression (case r of Some x \<Rightarrow> x | None \<Rightarrow> NilExpression))))"

text \<open>The loop that collapses the clauses from the right.\<close>

fun collapse :: "logical_op \<Rightarrow> expression list \<Rightarrow> expression res" where
  "collapse op [] = Inl (Panic ''index out of range'')"
| "collapse op [e] = Inr e"
| "collapse op (e # f # fs) = rbind (collapse op (f # fs)) (\<lambda>r. Inr (LogicalExpression op e r))"

definition map_cel_logical ::
  "(cel_expr \<Rightarrow> expression res) \<Rightarrow> logical_op \<Rightarrow> cel_expr list \<Rightarrow> expression res" where
  "map_cel_logical map_expr op args = rbind (mapM map_expr args) (collapse op)"

definition cel_compare_op :: "string \<Rightarrow> compare_op option" where
  "cel_compare_op func =
     (if func = ''_==_'' then Some EQ else if func = ''_!=_'' then Some NE
      else if func = ''_>_'' then Some GT else if func = ''_<_'' then Some LT
      else if func = ''_<=_'' then Some LE else if func = ''_>=_'' then Some GE
      else if func = ''@in'' then Some IN else None)"

definition map_call_expr ::
  "(cel_expr \<Rightarrow> expression res) \<Rightarrow> attribute_map \<Rightarrow> cel_expr option \<Rightarrow> string \<Rightarrow> cel_expr list \<Rightarrow> expression res" where
  "map_call_expr map_expr nm target func args =
     (if func = ''_&&_'' then map_cel_logical map_expr AND args
      else if func = ''_||_'' then map_cel_logical map_expr OR args
      else if func = ''_!_'' \<or> func = ''!_'' then map_cel_not map_expr args
      else
        (case cel_compare_op func of
           Some op \<Rightarrow> map_cel_attr_compare nm args op
         | None \<Rightarrow>
             if func \<in> {''startsWith'', ''endsWith'', ''contains'', ''has''}
             then map_cel_attr_function nm target func args
             else Inl (Error (''unimplemented CEL expression operand: '' @ func))))"

lemma map_call_expr_cong [fundef_cong]:
  assumes "args = args'" and "\<And>e. e \<in> set args' \<Longrightarrow> f e = g e"
    and "nm = nm'" and "target = target'" and "func = func'"
  shows "map_call_expr f nm target func args = map_call_expr g nm' target' func' args'"
proof -
  have "mapM f args' = mapM g args'" using assms(2) by (rule mapM_cong [OF refl])
  moreover have "map_cel_not f args' = map_cel_not g args'"
    using assms(2) by (cases args') (simp_all add: map_cel_not_def)
  ultimately show ?thesis using assms by (simp add: map_call_expr_def map_cel_logical_def)
qed

fun map_cel_expr :: "attribute_map \<Rightarrow> cel_expr \<Rightarrow> expression res" where
  "map_cel_expr nm (CelCall target func args) = map_call_expr (map_cel_expr nm) nm target func args"
| "map_cel_expr nm (CelSelect base field test_only) = map_select_expr nm base field"
| "map_cel_expr nm e = Inl (Error ''unimplemented CEL expression'')"

text \<open>\<open>cel_parse\<close> stands for \<open>env.Parse\<close> and \<open>AstToParsedExpr\<close>; its error is the message returned.\<close>

definition map_provider_to_condition ::
  "(string \<Rightarrow> string + cel_expr) \<Rightarrow> attribute_map \<Rightarrow> string \<Rightarrow> condition_info res" where
  "map_provider_to_condition cel_parse nm expr =
     (case cel_parse expr of
        Inl msg \<Rightarrow> Inl (Error msg)
      | Inr ast \<Rightarrow>
          (case map_cel_expr nm ast of
             Inl (Error m) \<Rightarrow> Inl (Error (''IDQL condition mapTool error: '' @ m))
           | Inl (Panic m) \<Rightarrow> Inl (Panic m)
           | Inr idql \<Rightarrow>
               rbind (serialize_expression idql) (\<lambda>text.
                 Inr \<lparr>rule = text, action = ''allow''\<rparr>)))"

section \<open>Conditions CEL reads as they are meant\<close>

text \<open>Names and literals can stand wherever a unit can.\<close>

definition names :: "(string \<Rightarrow> bool) \<Rightarrow> nat \<Rightarrow> string \<Rightarrow> bool" where
  "names prim n s \<longleftrightarrow> n = 3 \<and> prim s"

lemma name_reads: "prim s \<Longrightarrow> n \<le> 3 \<Longrightarrow> cel_reads (names prim) n s (CText s)"
  by (rule cel_reads_le [OF leaf]) (simp_all add: names_def)

text \<open>Comparisons written as a call; the others are written with an infix operator.\<close>

fun call_op :: "compare_op \<Rightarrow> bool" where
  "call_op op = (op \<in> {SW, EW, PR, CO})"

text \<open>The level of the text written for an expression.\<close>

fun cel_level :: "expression \<Rightarrow> bool \<Rightarrow> nat" where
  "cel_level (LogicalExpression AND l r) b = 1"
| "cel_level (LogicalExpression OR l r) b = (if b then 3 else 0)"
| "cel_level (PrecedenceExpression e) b = (if is_logical e then 3 else cel_level e False)"
| "cel_level (AttributeExpression p op c) b = (if call_op op then 3 else 2)"
| "cel_level e b = 3"

text \<open>No negation of an infix comparison, and no \<open>(x and y) and (z or w)\<close> without brackets node.\<close>

fun cel_safe :: "expression \<Rightarrow> bool" where
  "cel_safe (LogicalExpression op l r) =
     (cel_safe l \<and> cel_safe r \<and> \<not> (op = AND \<and> repeats_operator AND l \<and> repeats_operator OR r))"
| "cel_safe (NotExpression e) = (cel_safe e \<and> (is_logical e \<or> cel_level e False = 3))"
| "cel_safe (PrecedenceExpression e) = cel_safe e"
| "cel_safe (AttributeExpression p op c) = True"
| "cel_safe _ = False"

text \<open>What a comparison is in CEL.\<close>

fun cel_atom :: "attribute_map \<Rightarrow> expression \<Rightarrow> cel_tree" where
  "cel_atom nm (AttributeExpression p op c) =
     (let m = CText (get_provider_attribute_name nm (value_string p)); x = CText (cel_value c) in
      case op of
        SW \<Rightarrow> CMethod ''startsWith'' m x
      | EW \<Rightarrow> CMethod ''endsWith'' m x
      | CO \<Rightarrow> CMethod ''contains'' m x
      | PR \<Rightarrow> CHas m
      | NE \<Rightarrow> CCompare ''!='' m x
      | LT \<Rightarrow> CCompare ''<'' m x
      | LE \<Rightarrow> CCompare ''<='' m x
      | GT \<Rightarrow> CCompare ''>'' m x
      | GE \<Rightarrow> CCompare ''>='' m x
      | IN \<Rightarrow> CCompare ''in'' m x
      | _ \<Rightarrow> CCompare ''=='' m x)"
| "cel_atom nm e = CText []"

fun prim_operands :: "(string \<Rightarrow> bool) \<Rightarrow> attribute_map \<Rightarrow> expression \<Rightarrow> bool" where
  "prim_operands prim nm (AttributeExpression p op c) =
     (prim (get_provider_attribute_name nm (value_string p)) \<and> (op = PR \<or> prim (cel_value c)))"
| "prim_operands prim nm e = True"

lemma atom_reads:
  assumes "prim_operands prim nm (AttributeExpression p op c)"
  shows "cel_reads (names prim) (if call_op op then 3 else 2) (map_filter_attr_expr nm p op c) (cel_atom nm (AttributeExpression p op c))"
proof -
  let ?m = "get_provider_attribute_name nm (value_string p)" and ?x = "cel_value c"
  have m: "cel_reads (names prim) 2 ?m (CText ?m)" using assms by (simp add: name_reads)
  have m3: "cel_reads (names prim) 3 ?m (CText ?m)" using assms by (simp add: name_reads)
  have x: "cel_reads (names prim) 3 ?x (CText ?x)" "cel_reads (names prim) 0 ?x (CText ?x)" if "op \<noteq> PR"
    using assms that by (simp_all add: name_reads)
  have infix_op: "cel_reads (names prim) 2 (?m @ '' '' @ r @ '' '' @ ?x) (CCompare r (CText ?m) (CText ?x))"
    if "op \<noteq> PR" "r \<in> set cel_operators" for r
    using compare [OF m x(1) that(2)] that(1) by simp
  have call: "cel_reads (names prim) 3 (?m @ ''.'' @ f @ ''('' @ ?x @ '')'') (CMethod f (CText ?m) (CText ?x))"
    if "op \<noteq> PR" for f
    using cel_reads.call [OF m3 x(2)] that by simp
  note infixes = infix_op [of "''==''"] infix_op [of "''!=''"] infix_op [of "''<''"] infix_op [of "''<=''"]
    infix_op [of "''>''"] infix_op [of "''>=''"] infix_op [of "''in''"]
  note calls = call [of "''startsWith''"] call [of "''endsWith''"] call [of "''contains''"]
  from assms infixes calls has [OF m3] show ?thesis
    by (cases op) (simp_all add: map_filter_attr_expr_def cel_operators_def)
qed

definition means :: "attribute_map \<Rightarrow> cel_tree \<Rightarrow> expression \<Rightarrow> bool" where
  "means nm t e \<longleftrightarrow> (\<forall>v. cel_truth v t = cond_eval (\<lambda>a. v (cel_atom nm a)) e)"

lemma atom_truth: "cel_truth v (cel_atom nm (AttributeExpression p op c)) = v (cel_atom nm (AttributeExpression p op c))"
  by (cases op) (simp_all add: Let_def)

lemma operand_level: "cel_safe e \<Longrightarrow> 1 \<le> cel_level e b \<or> (repeats_operator OR e \<and> \<not> b)"
proof (induction e arbitrary: b)
  case (LogicalExpression op l r)
  then show ?case by (cases op) auto
next
  case (PrecedenceExpression e)
  then show ?case by (cases e) fastforce+
qed auto

lemma logical_reads:
  assumes "cel_reads (names prim) (cel_level l (\<not> repeats_operator op l)) s t" "means nm t l"
    and "cel_reads (names prim) (cel_level r (\<not> repeats_operator op l)) s' t'" "means nm t' r"
    and "cel_safe (LogicalExpression op l r)"
  shows "\<exists>u. cel_reads (names prim) (cel_level (LogicalExpression op l r) b) (map_filter_logical op s s' b) u \<and>
    means nm u (LogicalExpression op l r)"
proof (cases op)
  case AND
  have "1 \<le> cel_level l (\<not> repeats_operator op l)" "1 \<le> cel_level r (\<not> repeats_operator op l)"
    using operand_level [of l] operand_level [of r] assms(5) AND by (cases l; cases r; force)+
  with AND obtain u where u: "cel_reads (names prim) 1 (s @ '' && '' @ s') u" "\<forall>v. cel_truth v u = (cel_truth v t \<and> cel_truth v t')"
    using conj_append [OF cel_reads_le [OF assms(3), of 1] refl cel_reads_le [OF assms(1), of 1]] by blast
  with AND assms(2,4) show ?thesis
    by (intro exI [of _ u]) (simp add: means_def map_filter_logical_def)
next
  case OR
  then obtain u where u: "cel_reads (names prim) 0 (s @ '' || '' @ s') u" "\<forall>v. cel_truth v u = (cel_truth v t \<or> cel_truth v t')"
    using disj_append [OF cel_reads_le [OF assms(3), of 0] refl cel_reads_le [OF assms(1), of 0]] by auto
  with OR assms(2,4) paren [OF u(1), of "''(''" "'')''"] show ?thesis
    by (intro exI [of _ u]) (simp add: means_def map_filter_logical_def)
qed

lemma map_filter_reads:
  assumes "cel_safe e" and "\<forall>a \<in> set (comparisons e). prim_operands prim nm a"
  shows "\<exists>s t. map_filter_internal nm e b = Inr s \<and> cel_reads (names prim) (cel_level e b) s t \<and> means nm t e"
  using assms
proof (induction e arbitrary: b)
  case (LogicalExpression op l r)
  let ?b = "\<not> repeats_operator op l"
  from LogicalExpression obtain s t where l: "map_filter_internal nm l ?b = Inr s" "cel_reads (names prim) (cel_level l ?b) s t"
      "means nm t l" by fastforce
  from LogicalExpression obtain s' t' where r: "map_filter_internal nm r ?b = Inr s'" "cel_reads (names prim) (cel_level r ?b) s' t'"
      "means nm t' r" by fastforce
  from logical_reads [OF l(2,3) r(2,3) LogicalExpression.prems(1)] l(1) r(1) show ?case by auto
next
  case (NotExpression e)
  then obtain s t where s: "map_filter_internal nm e False = Inr s" "cel_reads (names prim) (cel_level e False) s t" "means nm t e"
    by fastforce
  have "cel_reads (names prim) 3 (map_filter_group e s) t"
    using NotExpression.prems(1) s(2) paren [OF cel_reads_le [OF s(2), of 0], of "''(''" "'')''"] by (auto simp: map_filter_group_def)
  from neg [OF this] s show ?case by (intro exI [of _ "CNot t"] exI) (auto simp: means_def)
next
  case (PrecedenceExpression e)
  then obtain s t where s: "map_filter_internal nm e False = Inr s" "cel_reads (names prim) (cel_level e False) s t" "means nm t e"
    by fastforce
  then show ?case
    using paren [OF cel_reads_le [OF s(2), of 0], of "''(''" "'')''"] by (auto simp: map_filter_group_def means_def intro!: exI [of _ t])
next
  case (AttributeExpression p op c)
  then show ?case using atom_reads [of prim nm p op c] by (auto simp: means_def atom_truth simp del: cel_atom.simps call_op.simps)
qed simp_all

section \<open>The meaning of CEL trees\<close>

definition cel_not_op :: "string \<Rightarrow> bool" where
  "cel_not_op f \<longleftrightarrow> f = ''_!_'' \<or> f = ''!_''"

fun cel_ast_truth :: "(cel_expr \<Rightarrow> bool) \<Rightarrow> cel_expr \<Rightarrow> bool" where
  "cel_ast_truth w (CelCall target f args) =
     (if f = ''_&&_'' then \<forall>a \<in> set args. cel_ast_truth w a
      else if f = ''_||_'' then \<exists>a \<in> set args. cel_ast_truth w a
      else if cel_not_op f then (case args of [] \<Rightarrow> False | a # _ \<Rightarrow> \<not> cel_ast_truth w a)
      else w (CelCall target f args))"
| "cel_ast_truth w e = w e"

text \<open>The truth of a comparison, as the comparison it is translated to.\<close>

definition translated_truth :: "attribute_map \<Rightarrow> (expression \<Rightarrow> bool) \<Rightarrow> cel_expr \<Rightarrow> bool" where
  "translated_truth nm v c = (case map_cel_expr nm c of Inr x \<Rightarrow> cond_eval v x | Inl _ \<Rightarrow> False)"

lemma collapse_truth:
  "collapse op fs = Inr x \<Longrightarrow>
   cond_eval v x = (if op = AND then \<forall>f \<in> set fs. cond_eval v f else \<exists>f \<in> set fs. cond_eval v f)"
  by (induction op fs arbitrary: x rule: collapse.induct) (auto simp: rbind_iff cond_eval_logical op_eval_def split: logical_op.splits)

lemma list_all2_quantifiers:
  assumes "list_all2 (\<lambda>a b. P a = Q b) xs ys"
  shows "(\<forall>a \<in> set xs. P a) = (\<forall>b \<in> set ys. Q b)" "(\<exists>a \<in> set xs. P a) = (\<exists>b \<in> set ys. Q b)"
  using assms by (induction rule: list_all2_induct) auto

lemma collapse_wf: "collapse op fs = Inr x \<Longrightarrow> wf_expression x \<Longrightarrow> f \<in> set fs \<Longrightarrow> wf_expression f"
  by (induction op fs arbitrary: x rule: collapse.induct) (auto simp: rbind_iff)

lemma try_call_Inr: "try_call r = Inr y \<longleftrightarrow> (\<exists>x. r = Inr x \<and> y = Some x) \<or> (\<exists>m. r = Inl (Error m) \<and> y = None)"
  by (cases r rule: try_call.cases) auto

lemma cel_truth_translated:
  "map_cel_expr nm e = Inr x \<Longrightarrow> wf_expression x \<Longrightarrow> cel_ast_truth (translated_truth nm v) e = cond_eval v x"
proof (induction e arbitrary: x)
  case (CelCall target f args)
  have logical: "list_all2 (\<lambda>a y. cel_ast_truth (translated_truth nm v) a = cond_eval v y) args ys"
    if "mapM (map_cel_expr nm) args = Inr ys" "collapse op ys = Inr x" for op ys
  proof -
    have "list_all2 (\<lambda>a y. map_cel_expr nm a = Inr y) args ys" using that(1) by (simp add: mapM_Inr_iff)
    moreover have "\<forall>y \<in> set ys. wf_expression y" using collapse_wf that(2) CelCall.prems(2) by blast
    ultimately show ?thesis
      using CelCall.IH(2) by (auto simp: list_all2_conv_all_nth)
  qed
  consider "f = ''_&&_''" | "f = ''_||_''" | "cel_not_op f" | "f \<noteq> ''_&&_''" "f \<noteq> ''_||_''" "\<not> cel_not_op f" by blast
  then show ?case
  proof cases
    case 1
    with CelCall.prems obtain ys where ys: "mapM (map_cel_expr nm) args = Inr ys" "collapse AND ys = Inr x"
      by (auto simp: map_call_expr_def map_cel_logical_def rbind_iff)
    with list_all2_quantifiers(1) [OF logical [OF ys]] collapse_truth [OF ys(2)] 1 show ?thesis by simp
  next
    case 2
    with CelCall.prems obtain ys where ys: "mapM (map_cel_expr nm) args = Inr ys" "collapse OR ys = Inr x"
      by (auto simp: map_call_expr_def map_cel_logical_def rbind_iff)
    with list_all2_quantifiers(2) [OF logical [OF ys]] collapse_truth [OF ys(2)] 2 show ?thesis by simp
  next
    case 3
    then have "map_cel_not (map_cel_expr nm) args = Inr x"
      using CelCall.prems(1) by (auto simp: map_call_expr_def cel_not_op_def)
    then obtain a as y where y: "args = a # as" "map_cel_expr nm a = Inr y" "x = NotExpression y"
      using CelCall.prems(2) by (cases args) (auto simp: map_cel_not_def rbind_iff try_call_Inr)
    with CelCall.IH(2) [of a y] CelCall.prems(2) 3 show ?thesis by (auto simp: cel_not_op_def)
  next
    case 4
    with CelCall.prems show ?thesis by (simp add: translated_truth_def)
  qed
qed (simp_all add: translated_truth_def)

lemma cel_safe_compatible: "cel_safe e \<Longrightarrow> check_compatibility e = Inr ()"
  by (induction e) simp_all

lemma collapse_pair: "map_cel_logical f op [a, b] =
    rbind (f a) (\<lambda>x. rbind (f b) (\<lambda>y. Inr (LogicalExpression op x y)))"
  by (auto simp: map_cel_logical_def rbind_def split: sum.splits)

definition no_names :: attribute_map where
  "no_names = new_name_mapper []"

lemma no_names [simp]: "get_provider_attribute_name no_names n = n" "get_hexa_filter_attribute_path no_names n = n"
  by (simp_all add: no_names_def new_name_mapper_def get_provider_attribute_name_def get_hexa_filter_attribute_path_def)

definition cel_level_name :: cel_expr where
  "cel_level_name = CelSelect (CelIdent ''user'') ''level'' True"

definition user_level_present :: expression where
  "user_level_present = AttributeExpression (VEntity (EEquals [] ''user.level'')) PR None"

lemma map_level_name: "map_cel_expr no_names cel_level_name = Inr user_level_present"
  by (simp add: cel_level_name_def user_level_present_def map_select_expr_def parse_value_path word_eval plain_path_def)

definition grouped_cel :: expression where
  "grouped_cel = LogicalExpression AND level_present
     (PrecedenceExpression (LogicalExpression OR (NotExpression level_present) team_is_blue))"

section \<open>Properties\<close>



text \<open>A negated equality loses its brackets: CEL reads \<open>!a == b\<close> as a comparison whose left
  operand is the negation of the attribute.\<close>

lemma cel_negation_misread:
  fixes p c nm
  defines "m \<equiv> get_provider_attribute_name nm (value_string p)"
  assumes "prim m" and "prim (cel_value c)"
    and "gcp_map_filter nm (NotExpression (PrecedenceExpression (AttributeExpression p EQ c))) = Inr s"
  shows "cel_reads (names prim) 0 s (CCompare ''=='' (CNot (CText m)) (CText (cel_value c)))"
proof -
  have "cel_reads (names prim) 2 (''!'' @ m) (CNot (CText m))"
    using neg [OF name_reads [of prim m, OF assms(2) order_refl]] by (rule cel_reads_le) simp
  from compare [OF this name_reads [of prim "cel_value c", OF assms(3) order_refl], of "''==''"]
  have "cel_reads (names prim) 2 ((''!'' @ m) @ '' '' @ ''=='' @ '' '' @ cel_value c) (CCompare ''=='' (CNot (CText m)) (CText (cel_value c)))"
    by (simp add: cel_operators_def)
  moreover have "s = (''!'' @ m) @ '' '' @ ''=='' @ '' '' @ cel_value c"
    using assms(4) by (simp add: gcp_map_filter_def map_filter_attr_expr_def map_filter_group_def m_def)
  ultimately show ?thesis by (auto intro: cel_reads_le)
qed



text \<open>A negation hides the error of an operand that cannot be translated, and the translation
  then panics on the missing node.\<close>

lemma cel_error_under_not_panics:
  assumes "cel_parse s = Inr (CelCall target ''!_'' [e])" and "map_cel_expr nm e = Inl (Error m)"
  shows "map_provider_to_condition cel_parse nm s = nil_panic"
  using assms by (simp add: map_provider_to_condition_def map_call_expr_def map_cel_not_def serialize_expression_def nil_panic_def)

text \<open>A disjunction of one comparison with a conjunction of two is translated to a rule that is
  read back with the conjunction outermost.\<close>

lemma cel_grouping_lost:
  fixes p1 p2 p3 op1 op2 op3 c1 c2 c3
  defines "x \<equiv> AttributeExpression p1 op1 c1" and "y \<equiv> AttributeExpression p2 op2 c2"
    and "z \<equiv> AttributeExpression p3 op3 c3"
  assumes "cel_parse s = Inr (CelCall t ''_||_'' [a, CelCall t' ''_&&_'' [b, c]])"
    and "map_cel_expr nm a = Inr x" and "map_cel_expr nm b = Inr y" and "map_cel_expr nm c = Inr z"
    and "writable False x" and "writable False y" and "writable False z"
    and "map_provider_to_condition cel_parse nm s = Inr ci" and "ascii (rule ci)"
  shows "parse_filter (rule ci) = Inr (LogicalExpression AND (LogicalExpression OR x y) z)"
proof -
  have r: "reread (LogicalExpression OR x (LogicalExpression AND y z)) = LogicalExpression AND (LogicalExpression OR x y) z"
    by (simp add: reread_def x_def y_def z_def nested.simps rebuild_def)
  have "writable False (LogicalExpression AND (LogicalExpression OR x y) z)"
    using assms(8-10) by (simp add: x_def y_def z_def)
  moreover have "serialize_expression (LogicalExpression OR x (LogicalExpression AND y z)) = Inr (rule ci)"
    using assms(4-7,11) by (auto simp: map_provider_to_condition_def map_call_expr_def collapse_pair rbind_iff)
  ultimately show ?thesis using serialize_parse [OF _ _ assms(12)] by (metis r)
qed

end
