(* ===== verification/Gcp_Bind.thy ===== *)
theory Gcp_Bind
  imports Hexa_Policy Gcp_Cel
begin

text \<open>
  The Google IAM bindings of \<^verbatim>\<open>models/formats/gcpBind/google_bind_policy.go\<close>: bindings to policies
  and back, grouped by resource, and the detection of the three input formats.

  The parser of CEL is the argument \<open>cel_parse\<close>, as in \<open>Gcp_Cel\<close>.  The input of \<open>parse_bindings\<close>
  is the decoded JSON document; an object carries the fields of a binding and of an assignment,
  the absent ones being empty.
\<close>

section \<open>The data\<close>

record iam_expr =
  iam_expression :: string
  iam_title :: string

record iam_binding =
  iam_condition :: "iam_expr option"
  iam_members :: "string slice"
  iam_role :: string

record bind_assignment =
  resource_id :: string
  bindings :: "iam_binding slice"

section \<open>Bindings to policies\<close>

definition convert_role_to_action :: "string \<Rightarrow> string slice" where
  "convert_role_to_action role = (if role = [] then None else Some [''gcp:'' @ role])"

definition binding_policy :: "string \<Rightarrow> iam_binding \<Rightarrow> condition_info option \<Rightarrow> policy_info" where
  "binding_policy object_id b c =
     \<lparr>meta = \<lparr>meta_version = ''0.7'', source_data = None, description = [], created = None,
              modified = None, etag = [], policy_id = None, pap_id = None, provider_type = []\<rparr>,
      subjects = iam_members b, actions = convert_role_to_action (iam_role b),
      object_info = object_id, condition = c, scope = None\<rparr>"

definition map_binding_to_policy ::
  "(string \<Rightarrow> string + cel_expr) \<Rightarrow> attribute_map \<Rightarrow> string \<Rightarrow> iam_binding \<Rightarrow> policy_info res" where
  "map_binding_to_policy cel_parse nm object_id b =
     (case iam_condition b of
        Some e \<Rightarrow>
          rbind (map_provider_to_condition cel_parse nm (iam_expression e)) (\<lambda>c.
            Inr (binding_policy object_id b (Some c)))
      | None \<Rightarrow> Inr (binding_policy object_id b None))"

definition map_assignment_to_policy ::
  "(string \<Rightarrow> string + cel_expr) \<Rightarrow> attribute_map \<Rightarrow> bind_assignment \<Rightarrow> policy_info list res" where
  "map_assignment_to_policy cel_parse nm a =
     mapM (map_binding_to_policy cel_parse nm (resource_id a)) (elems (bindings a))"

definition map_assignments_to_policy ::
  "(string \<Rightarrow> string + cel_expr) \<Rightarrow> attribute_map \<Rightarrow> bind_assignment list \<Rightarrow> policy_info list res" where
  "map_assignments_to_policy cel_parse nm as =
     rbind (mapM (map_assignment_to_policy cel_parse nm) as) (\<lambda>ps. Inr (concat ps))"

section \<open>Policies to bindings\<close>

text \<open>The loop returns in its first round, so only the first action counts.\<close>

definition convert_action_to_role :: "policy_info \<Rightarrow> string" where
  "convert_action_to_role p =
     (case elems (actions p) of
        [] \<Rightarrow> []
      | a # _ \<Rightarrow> if has_prefix a ''gcp:'' then drop 4 a else a)"

definition convert_policy_condition :: "attribute_map \<Rightarrow> policy_info \<Rightarrow> iam_expr option res" where
  "convert_policy_condition nm p =
     (case condition p of
        None \<Rightarrow> Inr None
      | Some c \<Rightarrow>
          rbind (gcp_map_condition nm c) (\<lambda>s. Inr (Some \<lparr>iam_expression = s, iam_title = []\<rparr>)))"

definition map_policy_to_binding :: "attribute_map \<Rightarrow> policy_info \<Rightarrow> iam_binding res" where
  "map_policy_to_binding nm p =
     rbind (convert_policy_condition nm p) (\<lambda>e.
       Inr \<lparr>iam_condition = e, iam_members = subjects p, iam_role = convert_action_to_role p\<rparr>)"

text \<open>A policy that cannot be translated is reported on the console and skipped.\<close>

definition add_binding ::
  "attribute_map \<Rightarrow> iam_binding list go_map \<Rightarrow> policy_info \<Rightarrow> iam_binding list go_map res" where
  "add_binding nm m p =
     rbind (try_call (map_policy_to_binding nm p)) (\<lambda>r.
       case r of
         None \<Rightarrow> Inr m
       | Some b \<Rightarrow>
           Inr (AList.update (object_info p)
                 ((case map_of m (object_info p) of Some bs \<Rightarrow> bs | None \<Rightarrow> []) @ [b]) m))"

definition map_policies_to_bindings :: "attribute_map \<Rightarrow> policy_info list \<Rightarrow> bind_assignment list res" where
  "map_policies_to_bindings nm ps =
     rbind (foldM (add_binding nm) [] ps) (\<lambda>m.
       Inr (map (\<lambda>(k, bs). \<lparr>resource_id = k, bindings = Some bs\<rparr>) m))"

section \<open>Input formats\<close>

record bind_item =
  item_binding :: iam_binding
  item_assignment :: bind_assignment

datatype bind_document = BindObject bind_item | BindArray "bind_item list" | BindOther

definition unmarshal_single :: "bind_item \<Rightarrow> bind_assignment list" where
  "unmarshal_single item =
     (if elems (bindings (item_assignment item)) \<noteq> [] then [item_assignment item]
      else [\<lparr>resource_id = [], bindings = Some [item_binding item]\<rparr>])"

text \<open>Every object decodes as an assignment; the branch for bindings builds a list it then drops.\<close>

definition unmarshal_multi :: "bind_item list \<Rightarrow> bind_assignment list" where
  "unmarshal_multi items = (if items \<noteq> [] then map item_assignment items else [])"

definition parse_bindings :: "bind_document \<Rightarrow> bind_assignment list" where
  "parse_bindings doc =
     (case doc of
        BindObject item \<Rightarrow> unmarshal_single item
      | BindArray items \<Rightarrow> unmarshal_multi items
      | BindOther \<Rightarrow> [])"

section \<open>Grouping by resource\<close>

text \<open>The binding of a policy that can be translated.\<close>

definition policy_binding :: "attribute_map \<Rightarrow> policy_info \<Rightarrow> iam_binding option" where
  "policy_binding nm p = (case map_policy_to_binding nm p of Inr b \<Rightarrow> Some b | Inl _ \<Rightarrow> None)"

definition bindings_for :: "attribute_map \<Rightarrow> policy_info list \<Rightarrow> string \<Rightarrow> iam_binding list" where
  "bindings_for nm ps k = List.map_filter (policy_binding nm) (filter (\<lambda>p. object_info p = k) ps)"

text \<open>What a list of assignments holds for a resource.\<close>

definition bound_to :: "bind_assignment list \<Rightarrow> string \<Rightarrow> iam_binding list" where
  "bound_to as k = concat (map (\<lambda>a. if resource_id a = k then elems (bindings a) else []) as)"

definition group_ok :: "iam_binding list go_map \<Rightarrow> (string \<Rightarrow> iam_binding list) \<Rightarrow> bool" where
  "group_ok m f \<longleftrightarrow> go_map_ok m \<and> (\<forall>k. map_of m k = (if f k = [] then None else Some (f k)))"

lemma group_step:
  assumes "group_ok m f"
  shows "group_ok (AList.update x ((case map_of m x of Some bs \<Rightarrow> bs | None \<Rightarrow> []) @ [b]) m)
    (f(x := f x @ [b]))"
proof -
  have "(case map_of m x of Some bs \<Rightarrow> bs | None \<Rightarrow> []) = f x"
    using assms by (simp add: group_ok_def)
  with assms show ?thesis by (auto simp: group_ok_def update_conv go_map_ok_update)
qed

lemma bindings_for_snoc:
  "bindings_for nm (ps @ [p]) = (case policy_binding nm p of
     Some b \<Rightarrow> (bindings_for nm ps)(object_info p := bindings_for nm ps (object_info p) @ [b])
   | None \<Rightarrow> bindings_for nm ps)"
  by (auto simp: bindings_for_def List.map_filter_def fun_eq_iff split: option.splits)

lemma add_binding_group:
  assumes "add_binding nm m p = Inr m'" and "group_ok m (bindings_for nm ps)"
  shows "group_ok m' (bindings_for nm (ps @ [p]))"
proof (cases "policy_binding nm p")
  case None
  with assms show ?thesis
    by (cases "map_policy_to_binding nm p" rule: try_call.cases)
      (auto simp: add_binding_def bindings_for_snoc policy_binding_def)
next
  case (Some b)
  then have "map_policy_to_binding nm p = Inr b"
    by (simp add: policy_binding_def split: sum.splits)
  with assms(1) have "m' = AList.update (object_info p)
      ((case map_of m (object_info p) of Some bs \<Rightarrow> bs | None \<Rightarrow> []) @ [b]) m"
    by (simp add: add_binding_def)
  with Some group_step [OF assms(2), of "object_info p" b] show ?thesis
    by (simp add: bindings_for_snoc)
qed

lemma grouped:
  assumes "foldM (add_binding nm) [] ps = Inr m"
  shows "group_ok m (bindings_for nm ps)"
  using assms
proof (rule foldM_invariant [where P = "\<lambda>ps m. group_ok m (bindings_for nm ps)"])
  show "group_ok [] (bindings_for nm [])" by (simp add: group_ok_def bindings_for_def List.map_filter_def)
qed (rule add_binding_group)

lemma bound_to_map:
  "go_map_ok m \<Longrightarrow> bound_to (map (\<lambda>(k, bs). \<lparr>resource_id = k, bindings = Some bs\<rparr>) m) k =
     (case map_of m k of Some bs \<Rightarrow> bs | None \<Rightarrow> [])"
proof (induction m)
  case (Cons y m)
  have "bound_to (map (\<lambda>(k, bs). \<lparr>resource_id = k, bindings = Some bs\<rparr>) m) k = []" if "k \<notin> fst ` set m"
    using that by (auto simp: bound_to_def image_iff)
  with Cons show ?case by (cases y) (auto simp: bound_to_def map_of_eq_None_iff)
qed (simp add: bound_to_def)

lemma bindings_grouped_by_resource:
  assumes "map_policies_to_bindings nm ps = Inr as"
  shows "distinct (map resource_id as)" and "bound_to as k = bindings_for nm ps k"
proof -
  from assms obtain m where m: "foldM (add_binding nm) [] ps = Inr m"
      "as = map (\<lambda>(k, bs). \<lparr>resource_id = k, bindings = Some bs\<rparr>) m"
    by (auto simp: map_policies_to_bindings_def rbind_iff)
  note g = grouped [OF m(1), unfolded group_ok_def]
  from g have "go_map_ok m" by simp
  moreover have "map resource_id as = map fst m" using m(2) by (simp add: case_prod_unfold)
  ultimately show "distinct (map resource_id as)" by simp
  show "bound_to as k = bindings_for nm ps k"
    using g by (simp add: m(2) bound_to_map)
qed

section \<open>Bindings survive the round trip\<close>

lemma role_roundtrip: "convert_action_to_role (binding_policy r b c) = iam_role b"
  by (simp add: convert_action_to_role_def binding_policy_def convert_role_to_action_def)

text \<open>A binding without a condition.\<close>

definition plain_binding :: "iam_binding \<Rightarrow> bool" where
  "plain_binding b \<longleftrightarrow> iam_condition b = None"

lemma plain_binding_policy:
  assumes "plain_binding b"
  shows "map_binding_to_policy cel_parse nm r b = Inr (binding_policy r b None)"
    and "policy_binding nm (binding_policy r b None) = Some b"
  using assms by (simp_all add: plain_binding_def map_binding_to_policy_def policy_binding_def
      map_policy_to_binding_def convert_policy_condition_def role_roundtrip) (simp add: binding_policy_def)

lemma plain_assignment:
  assumes "\<forall>b \<in> set (elems (bindings a)). plain_binding b"
  shows "map_assignment_to_policy cel_parse nm a =
    Inr (map (\<lambda>b. binding_policy (resource_id a) b None) (elems (bindings a)))"
proof -
  have "mapM (map_binding_to_policy cel_parse nm r) bs = Inr (map (\<lambda>b. binding_policy r b None) bs)"
    if "\<forall>b \<in> set bs. plain_binding b" for r bs
    using that by (induction bs) (simp_all add: plain_binding_policy)
  with assms show ?thesis by (simp add: map_assignment_to_policy_def)
qed

lemma plain_assignments:
  assumes "\<forall>a \<in> set as. \<forall>b \<in> set (elems (bindings a)). plain_binding b"
  shows "map_assignments_to_policy cel_parse nm as =
    Inr (concat (map (\<lambda>a. map (\<lambda>b. binding_policy (resource_id a) b None) (elems (bindings a))) as))"
proof -
  have "mapM (map_assignment_to_policy cel_parse nm) as =
      Inr (map (\<lambda>a. map (\<lambda>b. binding_policy (resource_id a) b None) (elems (bindings a))) as)"
    using assms by (induction as) (simp_all add: plain_assignment)
  then show ?thesis by (simp add: map_assignments_to_policy_def)
qed

lemma bindings_for_append: "bindings_for nm (ps @ qs) k = bindings_for nm ps k @ bindings_for nm qs k"
  by (simp add: bindings_for_def List.map_filter_def)

lemma bindings_for_plain:
  "\<forall>b \<in> set bs. plain_binding b \<Longrightarrow>
   bindings_for nm (map (\<lambda>b. binding_policy r b None) bs) k = (if r = k then bs else [])"
  by (induction bs) (auto simp: bindings_for_def List.map_filter_def plain_binding_policy, auto simp: binding_policy_def)

lemma bindings_for_assignments:
  "\<forall>a \<in> set as. \<forall>b \<in> set (elems (bindings a)). plain_binding b \<Longrightarrow>
   bindings_for nm (concat (map (\<lambda>a. map (\<lambda>b. binding_policy (resource_id a) b None) (elems (bindings a))) as)) k = bound_to as k"
  by (induction as) (simp_all add: bindings_for_append bindings_for_plain, simp_all add: bound_to_def bindings_for_def List.map_filter_def)

definition viewer_binding :: iam_binding where
  "viewer_binding = \<lparr>iam_condition = None, iam_members = Some [''user:alice''], iam_role = ''viewer''\<rparr>"

lemma viewer_policies:
  "map_assignments_to_policy cel_parse nm [\<lparr>resource_id = ''photos'', bindings = Some [viewer_binding]\<rparr>] =
     Inr [binding_policy ''photos'' viewer_binding None]"
  "map_policies_to_bindings nm [binding_policy ''photos'' viewer_binding None] =
     Inr [\<lparr>resource_id = ''photos'', bindings = Some [viewer_binding]\<rparr>]"
  by (simp_all add: map_assignments_to_policy_def map_assignment_to_policy_def map_binding_to_policy_def
      map_policies_to_bindings_def add_binding_def map_policy_to_binding_def convert_policy_condition_def role_roundtrip)
    (simp_all add: viewer_binding_def binding_policy_def)

section \<open>Properties\<close>

text \<open>Property C12.  The bindings written for a set of policies are grouped by resource, each resource once,
  and hold for a resource exactly the bindings of its policies that can be translated, in their order.\<close>

theorem policies_grouped_by_resource:
  assumes "map_policies_to_bindings nm ps = Inr as"
  shows "distinct (map resource_id as) \<and> bound_to as k = bindings_for nm ps k"
  using bindings_grouped_by_resource [OF assms] by simp

theorem policies_grouped_by_resource_witness:
  "bound_to [\<lparr>resource_id = ''photos'', bindings = Some [viewer_binding]\<rparr>] ''photos'' =
     bindings_for no_names [binding_policy ''photos'' viewer_binding None] ''photos''"
  using policies_grouped_by_resource [OF viewer_policies(2)] by blast

text \<open>Property C29.  Bindings without conditions, translated to policies and back, are the same bindings for
  every resource.\<close>

theorem bindings_roundtrip:
  assumes "\<forall>a \<in> set as. \<forall>b \<in> set (elems (bindings a)). plain_binding b"
    and "map_assignments_to_policy cel_parse nm as = Inr ps" and "map_policies_to_bindings nm ps = Inr as'"
  shows "bound_to as' k = bound_to as k"
  using bindings_grouped_by_resource(2) [OF assms(3)] assms(2) bindings_for_assignments [OF assms(1)]
  by (simp add: plain_assignments [OF assms(1)])

theorem bindings_roundtrip_witness:
  "\<forall>cel_parse. map_assignments_to_policy cel_parse no_names [\<lparr>resource_id = ''photos'', bindings = Some [viewer_binding]\<rparr>] =
     Inr [binding_policy ''photos'' viewer_binding None] \<and>
   bound_to [\<lparr>resource_id = ''photos'', bindings = Some [viewer_binding]\<rparr>] ''photos'' = [viewer_binding]"
  using bindings_roundtrip [OF _ viewer_policies, of "''photos''"] viewer_policies(1)
  by (simp add: plain_binding_def bound_to_def)

text \<open>From an array of plain bindings no policy is made, whatever they grant.\<close>

lemma binding_array_lost:
  assumes "\<forall>i \<in> set items. elems (bindings (item_assignment i)) = []"
  shows "map_assignments_to_policy cel_parse nm (parse_bindings (BindArray items)) = Inr []"
proof -
  have "map_assignments_to_policy cel_parse nm (map item_assignment items) = Inr []"
    using assms by (subst plain_assignments) auto
  then show ?thesis by (cases items) (simp_all add: parse_bindings_def unmarshal_multi_def map_assignments_to_policy_def)
qed

end
