(* ===== verification/Provider_Runs.thy ===== *)
theory Provider_Runs
  imports Hexa_Policy
begin

text \<open>
  What the providers under \<^verbatim>\<open>providers\<close> share: runs that make requests to a service, the two
  structures of \<^verbatim>\<open>api/policyprovider/platform_interface.go\<close> that all of them are given, and the
  validation of their arguments.

  A run takes the state \<open>'s\<close> of the service and returns it with its result, so that what was done
  before an error or a panic stays visible.  An error carries the HTTP status the method returns
  with it.  The validator of the arguments is a library, and a parameter: its error, if any.
\<close>

section \<open>Runs\<close>

datatype run_fault = Failed nat string | Crashed string

type_synonym ('s, 'a) run = "'s \<Rightarrow> 's \<times> (run_fault + 'a)"

fun with_status :: "nat \<Rightarrow> 'a res \<Rightarrow> run_fault + 'a" where
  "with_status n (Inr x) = Inr x"
| "with_status n (Inl (Error e)) = Inl (Failed n e)"
| "with_status n (Inl (Panic m)) = Inl (Crashed m)"

definition pure_run :: "nat \<Rightarrow> 'a res \<Rightarrow> ('s, 'a) run" where
  "pure_run n r s = (s, with_status n r)"

definition run_bind :: "('s, 'a) run \<Rightarrow> ('a \<Rightarrow> ('s, 'b) run) \<Rightarrow> ('s, 'b) run" where
  "run_bind m f s = (case m s of (t, Inl e) \<Rightarrow> (t, Inl e) | (t, Inr x) \<Rightarrow> f x t)"

fun run_all :: "('a \<Rightarrow> ('s, unit) run) \<Rightarrow> 'a list \<Rightarrow> ('s, unit) run" where
  "run_all f [] s = (s, Inr ())"
| "run_all f (x # xs) s = run_bind (f x) (\<lambda>_. run_all f xs) s"

text \<open>A request that may change the service, and one that reads it.\<close>

definition request :: "nat \<Rightarrow> ('s \<Rightarrow> 's \<times> 'a res) \<Rightarrow> ('s, 'a) run" where
  "request n f s = (case f s of (t, r) \<Rightarrow> (t, with_status n r))"

definition read_run :: "nat \<Rightarrow> ('s \<Rightarrow> 'a res) \<Rightarrow> ('s, 'a) run" where
  "read_run n f s = (s, with_status n (f s))"

lemma with_status_Inr [simp]: "with_status n r = Inr x \<longleftrightarrow> r = Inr x"
  by (induction n r rule: with_status.induct) auto

lemma run_bind_Inr [rbind_iff]:
  "run_bind m f s = (t, Inr y) \<longleftrightarrow> (\<exists>u x. m s = (u, Inr x) \<and> f x u = (t, Inr y))"
  by (auto simp: run_bind_def split: prod.splits sum.splits)

lemma pure_run_Inr [rbind_iff]: "pure_run n r s = (t, Inr x) \<longleftrightarrow> t = s \<and> r = Inr x"
  by (auto simp: pure_run_def)

lemma request_Inr [rbind_iff]: "request n f s = (t, Inr x) \<longleftrightarrow> f s = (t, Inr x)"
  by (auto simp: request_def split: prod.splits)

lemma read_run_Inr [rbind_iff]: "read_run n f s = (t, Inr x) \<longleftrightarrow> t = s \<and> f s = Inr x"
  by (auto simp: read_run_def)

lemma run_all_append:
  "run_all f (xs @ ys) s = (t, Inr ()) \<longleftrightarrow> (\<exists>u. run_all f xs s = (u, Inr ()) \<and> run_all f ys u = (t, Inr ()))"
  by (induction xs arbitrary: s) (auto simp: rbind_iff)

lemma go_deref_Inr [rbind_iff]: "go_deref p = Inr x \<longleftrightarrow> p = Some x"
  by (auto simp: go_deref_def split: option.splits)

lemma go_index_Inr [rbind_iff]: "go_index xs i = Inr x \<longleftrightarrow> i < length xs \<and> x = xs ! i"
  by (auto simp: go_index_def)

text \<open>What a successful run of many requests keeps true, step by step.\<close>

lemma run_all_invariant:
  assumes "run_all f xs s = (t, Inr ())" and "P [] s"
    and "\<And>ys y u v. P ys u \<Longrightarrow> y \<in> set xs \<Longrightarrow> f y u = (v, Inr ()) \<Longrightarrow> P (ys @ [y]) v"
  shows "P xs t"
proof -
  have "P (ys @ zs) t" if "run_all f zs u = (t, Inr ())" and "P ys u" and "set zs \<subseteq> set xs" for ys zs u
    using that
  proof (induction zs arbitrary: ys u)
    case (Cons z zs)
    then obtain v where "f z u = (v, Inr ())" "run_all f zs v = (t, Inr ())" by (auto simp: rbind_iff)
    with Cons.IH [of v "ys @ [z]"] Cons.prems assms(3) [of ys u z v] show ?case by simp
  qed simp
  from this [of xs s "[]"] assms(1,2) show ?thesis by simp
qed

section \<open>Arguments of the providers\<close>

record application_info =
  object_id :: string
  app_name :: string
  app_description :: string
  app_service :: string

record integration_info =
  integration_name :: string
  integration_key :: string

record arg_validator =
  valid_application :: "application_info \<Rightarrow> string option"
  valid_policies :: "policy_info list \<Rightarrow> string option"

definition go_error :: "string option \<Rightarrow> unit res" where
  "go_error e = (case e of None \<Rightarrow> Inr () | Some m \<Rightarrow> Inl (Error m))"

lemma go_error_Inr [simp]: "go_error e = Inr u \<longleftrightarrow> e = None"
  by (auto simp: go_error_def split: option.splits)

definition validate_arguments :: "arg_validator \<Rightarrow> application_info \<Rightarrow> policy_info list \<Rightarrow> unit res" where
  "validate_arguments v appl ps = rbind (go_error (valid_application v appl)) (\<lambda>_. go_error (valid_policies v ps))"

end
