(* ===== verification/Avp_Client.thy ===== *)
theory Avp_Client
  imports Provider_Runs
begin

text \<open>
  The client of Amazon Verified Permissions, \<^verbatim>\<open>providers/aws/avpProvider/avpClient/avp_client.go\<close>:
  the interface \<open>AvpClient\<close> the provider is written against, and the two of its operations that do
  more than pass a request on, \<open>ListStores\<close> and \<open>ListPolicies\<close>.

  The service itself is a parameter.  What a request answers is a function of the request, for the
  three requests that change something also of a state \<open>'s\<close> of the service.  The records hold the
  fields of the SDK's structures that this program reads or writes; a pointer is an option.
\<close>

section \<open>Requests and answers\<close>

text \<open>The definition of a listed policy: linked to a template, or anything else.\<close>

datatype item_definition = LinkedItem "string option" | OtherItem

record avp_item =
  item_policy_id :: "string option"
  item_store_id :: "string option"
  item_type :: string
  item_definition :: item_definition
  item_created :: "string option"
  item_updated :: "string option"

record static_detail =
  detail_statement :: "string option"
  detail_description :: "string option"

datatype definition_detail = StaticDetail static_detail | OtherDetail

record template_output =
  template_id :: "string option"
  template_store_id :: "string option"
  template_statement :: "string option"
  template_description :: "string option"
  template_created :: "string option"
  template_updated :: "string option"

record create_input =
  create_store :: string
  create_statement :: string
  create_description :: string

record update_input =
  update_id :: "string option"
  update_store :: "string option"
  update_statement :: string
  update_description :: string

record delete_input =
  delete_id :: "string option"
  delete_store :: "string option"

text \<open>A deletion is also requested with a nil input.\<close>

datatype avp_call = CreateCall create_input | UpdateCall update_input | DeleteCall "delete_input option"

text \<open>
  The interface.  \<open>avp_connect\<close> is the error of making the client, if any.  Only a created policy has
  an answer the provider reads, the new id.
\<close>

record 's avp_client =
  avp_connect :: "string option"
  avp_list_policies :: "avp_item list res"
  avp_get_policy :: "string \<Rightarrow> definition_detail res"
  avp_get_template :: "string \<Rightarrow> template_output res"
  avp_perform :: "'s \<Rightarrow> avp_call \<Rightarrow> 's \<times> string option res"

section \<open>ListStores\<close>

record store_item =
  store_id :: "string option"
  store_arn :: "string option"
  store_description :: "string option"

definition store_application :: "store_item \<Rightarrow> application_info res" where
  "store_application s =
     rbind (go_deref (store_id s)) (\<lambda>i.
     rbind (go_deref (store_arn s)) (\<lambda>a.
     rbind (go_deref (store_description s)) (\<lambda>d.
       Inr \<lparr>object_id = i, app_name = a, app_description = d, app_service = ''VerifiedPermissions''\<rparr>)))"

text \<open>One page of at most fifty stores is asked for; a token of a next page is not looked at.\<close>

definition list_stores :: "(nat \<Rightarrow> (store_item list \<times> string option) res) \<Rightarrow> application_info list res" where
  "list_stores stores = rbind (stores 50) (\<lambda>(items, token). mapM store_application items)"

section \<open>ListPolicies\<close>

text \<open>
  The loop over the pages: it goes on as long as a page has a token.  None is a loop without end.
\<close>

partial_function (option) policy_pages ::
  "(nat \<Rightarrow> string option \<Rightarrow> (avp_item list \<times> string option) res) \<Rightarrow> avp_item list \<Rightarrow> string option \<Rightarrow> avp_item list res option" where
  "policy_pages page policies token =
     (case page 50 token of
        Inl e \<Rightarrow> Some (Inl e)
      | Inr (items, next) \<Rightarrow>
          (case next of
             None \<Rightarrow> Some (Inr (policies @ items))
           | Some t \<Rightarrow> policy_pages page (policies @ items) (Some t)))"

definition list_policies :: "(nat \<Rightarrow> string option \<Rightarrow> (avp_item list \<times> string option) res) \<Rightarrow> avp_item list res option" where
  "list_policies page = policy_pages page [] None"

text \<open>The pages of a service that hands out each page with the token of the next one.\<close>

inductive page_chain ::
  "(nat \<Rightarrow> string option \<Rightarrow> (avp_item list \<times> string option) res) \<Rightarrow> string option \<Rightarrow> avp_item list list \<Rightarrow> bool"
  for page where
  last_page: "page 50 token = Inr (items, None) \<Longrightarrow> page_chain page token [items]"
| more_pages: "page 50 token = Inr (items, Some t) \<Longrightarrow> page_chain page (Some t) rest \<Longrightarrow>
    page_chain page token (items # rest)"

lemma policy_pages_chain:
  "page_chain page token pages \<Longrightarrow> policy_pages page policies token = Some (Inr (policies @ concat pages))"
  by (induction arbitrary: policies rule: page_chain.induct) (subst policy_pages.simps, simp)+

lemmas policy_pages_induct = policy_pages.raw_induct [rotated 1, consumes 1, case_names page]

text \<open>Whatever the loop returns: an error is the answer to one of its requests, a list the pages of a chain.\<close>

lemma policy_pages_returns:
  "policy_pages page policies token = Some result \<Longrightarrow> result = Inr ps \<Longrightarrow>
   \<exists>pages. page_chain page token pages \<and> ps = policies @ concat pages"
proof (induction page policies token result rule: policy_pages_induct)
  case (page f page policies token result)
  show ?case
  proof (cases "page 50 token")
    case (Inr answer)
    obtain items t where answer: "answer = (items, t)" by (cases answer)
    show ?thesis
    proof (cases t)
      case None
      with page(2,3) Inr answer have "ps = policies @ concat [items]" by simp
      moreover from None Inr answer have "page_chain page token [items]" by (simp add: last_page)
      ultimately show ?thesis by blast
    next
      case (Some u)
      with page(2) Inr answer have "f page (policies @ items) (Some u) = Some result" by simp
      from page(1) [OF this page(3)] obtain pages where
        "page_chain page (Some u) pages" "ps = policies @ items @ concat pages" by auto
      moreover from this(1) Some Inr answer have "page_chain page token (items # pages)" by (simp add: more_pages)
      ultimately show ?thesis by (metis concat.simps(2))
    qed
  qed (use page in simp)
qed

text \<open>A page that answers with its own token is asked for again and again.\<close>

lemma policy_pages_endless:
  "policy_pages page policies token = Some result \<Longrightarrow> page 50 token = Inr (items, token) \<Longrightarrow> token = None"
  by (induction page policies token result rule: policy_pages_induct) (auto split: option.splits)

section \<open>Properties\<close>

text \<open>Property C38.  The policies listed are those of all the pages, in order, exactly when the tokens of the
  pages lead to a last one.\<close>

theorem all_pages_listed:
  "list_policies page = Some (Inr ps) \<longleftrightarrow> (\<exists>pages. page_chain page None pages \<and> ps = concat pages)"
  using policy_pages_chain [of page None] policy_pages_returns [of page "[]" None]
  by (auto simp: list_policies_def)

lemma repeated_token_never_returns:
  "page 50 None = Inr (items, Some t) \<Longrightarrow> page 50 (Some t) = Inr (others, Some t) \<Longrightarrow> list_policies page = None"
  using policy_pages_endless [of page items "Some t" _ others]
  by (subst list_policies_def, subst policy_pages.simps) (cases "policy_pages page items (Some t)", auto)

text \<open>A store without a description, which the service allows, makes the listing of the stores panic.\<close>

lemma store_without_description_panics:
  assumes "stores 50 = Inr (s # ss, token)" and "store_id s \<noteq> None" and "store_arn s \<noteq> None"
    and "store_description s = None"
  shows "list_stores stores = Inl (Panic ''nil pointer dereference'')"
  using assms by (auto simp: list_stores_def store_application_def go_deref_def)

end
