(* ===== verification/Cedar_Conditions.thy ===== *)
theory Cedar_Conditions
  imports Conditions Logic_Text
begin

text \<open>
  The translator between IDQL conditions and Cedar (\<^verbatim>\<open>models/conditionLangs/cedarConditions\<close>):
  \<^verbatim>\<open>map_hexa.go\<close> writes the when and unless clauses of a condition, \<^verbatim>\<open>map_cedar.go\<close> makes a
  condition from the clauses of a decoded Cedar policy.

  The library \<^verbatim>\<open>cedar-go\<close> is not part of the program: \<open>parse_decimal\<close> stands for
  \<open>types.ParseDecimal\<close> followed by \<open>String\<close>, and a decoded value or pattern comes with the text the
  library prints for it.  A node has exactly one of the fields of \<open>NodeJSON\<close>, as its decoder
  makes them; error texts leave out the printed node.
\<close>

section \<open>From conditions to Cedar\<close>

fun cedar_compatibility :: "expression \<Rightarrow> unit res" where
  "cedar_compatibility (LogicalExpression op l r) =
     rbind (cedar_compatibility l) (\<lambda>_. cedar_compatibility r)"
| "cedar_compatibility (NotExpression e) = cedar_compatibility e"
| "cedar_compatibility (PrecedenceExpression e) = cedar_compatibility e"
| "cedar_compatibility (ValuePathExpression a s f op c) =
     Inl (Error ''IDQL ValuePath expression mapping to Google CEL currently not supported'')"
| "cedar_compatibility _ = Inr ()"

text \<open>\<open>MultiLogicalExpression\<close>, and the expressions that stay as they are.\<close>

datatype flattened =
    FlatNode expression
  | MultiLogical logical_op "flattened list"

text \<open>The expressions \<open>flatten\<close> appends for one side of an operator.\<close>

fun flatten_side :: "logical_op \<Rightarrow> expression \<Rightarrow> flattened list" where
  "flatten_side op (LogicalExpression op' l r) =
     (if op' = op then flatten_side op l @ flatten_side op r
      else [MultiLogical op' (flatten_side op' l @ flatten_side op' r)])"
| "flatten_side op e = [FlatNode e]"

fun check_and_flatten :: "expression \<Rightarrow> flattened" where
  "check_and_flatten (LogicalExpression op l r) = MultiLogical op (flatten_side op l @ flatten_side op r)"
| "check_and_flatten e = FlatNode e"

definition remove_quotes :: "string \<Rightarrow> string" where
  "remove_quotes v =
     (if has_suffix v [dq] \<and> has_prefix v [dq]
      then (case unquote v of Some u \<Rightarrow> u | None \<Rightarrow> v) else v)"

definition decimal_comparison :: "string option \<Rightarrow> string \<Rightarrow> string \<Rightarrow> string \<Rightarrow> string \<Rightarrow> string" where
  "decimal_comparison dec m func op c =
     (case dec of
        Some d \<Rightarrow> m @ ''.'' @ func @ ''('' @ d @ '')''
      | None \<Rightarrow> m @ '' '' @ op @ '' '' @ c)"

text \<open>The last dot separates the attribute of a presence test; without one the slice panics.\<close>

definition cedar_has :: "string \<Rightarrow> string res" where
  "cedar_has m =
     (case last_index_str m ''.'' of
        None \<Rightarrow> Inl (Panic ''slice bounds out of range'')
      | Some i \<Rightarrow> Inr (take i m @ '' has '' @ drop (Suc i) m))"

fun cedar_comparison :: "compare_op \<Rightarrow> string \<Rightarrow> string \<Rightarrow> string option \<Rightarrow> string res" where
  "cedar_comparison NE m c dec = Inr (m @ '' != '' @ c)"
| "cedar_comparison LT m c dec = Inr (decimal_comparison dec m ''lessThan'' ''<'' c)"
| "cedar_comparison LE m c dec = Inr (decimal_comparison dec m ''lessThanOrEqual'' ''<='' c)"
| "cedar_comparison GT m c dec = Inr (decimal_comparison dec m ''greaterThan'' ''>'' c)"
| "cedar_comparison GE m c dec = Inr (decimal_comparison dec m ''greaterThanOrEqual'' ''>='' c)"
| "cedar_comparison SW m c dec = Inr (m @ '' like '' @ [dq] @ remove_quotes c @ ''*'' @ [dq])"
| "cedar_comparison EW m c dec = Inr (m @ '' like '' @ [dq] @ ''*'' @ remove_quotes c @ [dq])"
| "cedar_comparison PR m c dec = cedar_has m"
| "cedar_comparison CO m c dec = Inr (m @ ''.contains('' @ c @ '')'')"
| "cedar_comparison IN m c dec = Inr (m @ '' in '' @ c)"
| "cedar_comparison _ m c dec = Inr (m @ '' == '' @ c)"

record cedar_mapper =
  name_map :: attribute_map
  parse_decimal :: "string \<Rightarrow> string option"

definition map_attr_expr :: "cedar_mapper \<Rightarrow> idql_value \<Rightarrow> compare_op \<Rightarrow> idql_value option \<Rightarrow> string res" where
  "map_attr_expr cm p op c =
     (let v = (case c of None \<Rightarrow> [] | Some x \<Rightarrow> value_string x) in
      cedar_comparison op (get_provider_attribute_name (name_map cm) (value_string p)) v (parse_decimal cm v))"

definition cedar_logical :: "logical_op \<Rightarrow> string \<Rightarrow> string \<Rightarrow> bool \<Rightarrow> string" where
  "cedar_logical op l r is_child =
     (case op of
        AND \<Rightarrow> l @ '' && '' @ r
      | OR \<Rightarrow> if is_child then ''('' @ l @ '' || '' @ r @ '')'' else l @ '' || '' @ r)"

fun map_filter_expression :: "cedar_mapper \<Rightarrow> expression \<Rightarrow> bool \<Rightarrow> string res" where
  "map_filter_expression cm (NotExpression e) is_child =
     rbind (map_filter_expression cm e False) (\<lambda>s. Inr (''!( '' @ s @ '' )''))"
| "map_filter_expression cm (PrecedenceExpression e) is_child =
     rbind (map_filter_expression cm e False) (\<lambda>s.
       Inr (case e of LogicalExpression _ _ _ \<Rightarrow> ''('' @ s @ '')'' | _ \<Rightarrow> s))"
| "map_filter_expression cm (LogicalExpression op l r) is_child =
     rbind (map_filter_expression cm l (\<not> repeats_operator op l)) (\<lambda>ls.
     rbind (map_filter_expression cm r (\<not> repeats_operator op l)) (\<lambda>rs.
       Inr (cedar_logical op ls rs is_child)))"
| "map_filter_expression cm (AttributeExpression p op c) is_child = map_attr_expr cm p op c"
| "map_filter_expression cm _ is_child = Inl (Panic ''interface conversion'')"

definition clause_text :: "bool \<Rightarrow> string \<Rightarrow> string" where
  "clause_text is_unless body = (if is_unless then ''unless { '' else ''when { '') @ body @ '' }''"

fun map_to_condition_clause :: "cedar_mapper \<Rightarrow> expression \<Rightarrow> bool \<Rightarrow> string res" where
  "map_to_condition_clause cm (PrecedenceExpression e) u =
     rbind (map_filter_expression cm e False) (\<lambda>s. Inr (clause_text u s))"
| "map_to_condition_clause cm (NotExpression e) u =
     rbind (map_filter_expression cm e False) (\<lambda>s. Inr (clause_text (\<not> u) s))"
| "map_to_condition_clause cm e u =
     rbind (map_filter_expression cm e False) (\<lambda>s. Inr (clause_text u s))"

text \<open>The nodes of a conjunction inside a disjunction must be plain expressions.\<close>

fun flat_expression :: "cedar_mapper \<Rightarrow> flattened \<Rightarrow> string res" where
  "flat_expression cm (FlatNode e) = map_filter_expression cm e True"
| "flat_expression cm (MultiLogical op es) = Inl (Panic ''interface conversion'')"

fun or_operand :: "cedar_mapper \<Rightarrow> flattened \<Rightarrow> string res" where
  "or_operand cm (FlatNode e) = map_filter_expression cm e True"
| "or_operand cm (MultiLogical op es) =
     rbind (mapM (flat_expression cm) es) (\<lambda>ss. Inr ('' ('' @ join_str ss '' && '' @ '')''))"

fun map_flattened_clause :: "cedar_mapper \<Rightarrow> flattened \<Rightarrow> bool \<Rightarrow> string res" where
  "map_flattened_clause cm (FlatNode e) u = map_to_condition_clause cm e u"
| "map_flattened_clause cm (MultiLogical AND es) u =
     rbind (mapM (\<lambda>e. map_flattened_clause cm e u) es) (\<lambda>ss. Inr (join_str ss [CHR 0x0A]))"
| "map_flattened_clause cm (MultiLogical OR es) u =
     rbind (mapM (or_operand cm) es) (\<lambda>ss. Inr (clause_text u (join_str ss '' || '')))"

fun map_condition_ast :: "cedar_mapper \<Rightarrow> expression \<Rightarrow> bool \<Rightarrow> string res" where
  "map_condition_ast cm (NotExpression e) u = map_flattened_clause cm (check_and_flatten e) (\<not> u)"
| "map_condition_ast cm (PrecedenceExpression e) u = map_flattened_clause cm (check_and_flatten e) u"
| "map_condition_ast cm (LogicalExpression op l r) u =
     map_flattened_clause cm (check_and_flatten (LogicalExpression op l r)) u"
| "map_condition_ast cm e u = map_to_condition_clause cm e u"

definition map_condition_to_cedar :: "cedar_mapper \<Rightarrow> condition_info option \<Rightarrow> string res" where
  "map_condition_to_cedar cm c =
     (case c of
        None \<Rightarrow> Inr []
      | Some ci \<Rightarrow>
          rbind (condition_ast ci) (\<lambda>ast.
          rbind (cedar_compatibility ast) (\<lambda>_. map_condition_ast cm ast (action ci = ''deny''))))"

section \<open>Cedar nodes\<close>

text \<open>A value with the text its \<open>String\<close> method prints; strings and entities are told apart.\<close>

datatype cedar_value =
    CedarString string
  | CedarUID string string
  | CedarOther string

fun cedar_value_string :: "cedar_value \<Rightarrow> string" where
  "cedar_value_string (CedarString s) = s"
| "cedar_value_string (CedarUID t i) = t @ ''::'' @ quote i"
| "cedar_value_string (CedarOther s) = s"

datatype binary_kind =
    BEquals | BNotEquals | BIn | BLess | BLessEq | BGreater | BGreaterEq | BAnd | BOr
  | BAdd | BSubtract | BMultiply | BContains | BContainsAll | BContainsAny | BGetTag | BHasTag

datatype func_kind = FLess | FLessEq | FGreater | FGreaterEq

datatype cedar_node =
    NValue cedar_value
  | NVar string
  | NNot cedar_node
  | NNegate cedar_node
  | NBinary binary_kind cedar_node cedar_node
  | NFunc func_kind "cedar_node list"
  | NAccess cedar_node string
  | NHas cedar_node string
  | NIs cedar_node string "cedar_node option"
  | NLike cedar_node string
  | NIfThenElse cedar_node cedar_node cedar_node
  | NSet "cedar_node list"
  | NRecord
  | NExtensionCall

section \<open>From Cedar to conditions\<close>

definition node_error :: "string \<Rightarrow> 'a res" where
  "node_error m = Inl (Error m)"

definition slice_to_string_array :: "string list \<Rightarrow> string" where
  "slice_to_string_array vals = ''['' @ join_str vals '', '' @ '']''"

fun map_relation_comparator :: "cedar_node \<Rightarrow> string res" where
  "map_relation_comparator (NValue v) =
     Inr (case v of
       CedarString s \<Rightarrow> quote s
     | CedarUID t i \<Rightarrow> replace_all t ''::'' '':'' @ '':'' @ [dq] @ i @ [dq]
     | CedarOther s \<Rightarrow> s)"
| "map_relation_comparator (NVar v) = Inr v"
| "map_relation_comparator (NSet ns) =
     rbind (mapM map_relation_comparator ns) (\<lambda>vals. Inr (slice_to_string_array vals))"
| "map_relation_comparator (NAccess l a) =
     rbind (map_relation_comparator l) (\<lambda>lh. Inr (lh @ ''.'' @ a))"
| "map_relation_comparator (NIfThenElse a b c) = node_error ''if-then-else not supported by Hexa IDQL''"
| "map_relation_comparator n = node_error ''unknown comparator type''"

definition map_relation :: "compare_op \<Rightarrow> cedar_node \<Rightarrow> cedar_node \<Rightarrow> expression res" where
  "map_relation op l r =
     rbind (map_relation_comparator l) (\<lambda>lh.
     rbind (map_relation_comparator r) (\<lambda>rh.
     rbind (parse_value lh) (\<lambda>lhv.
     rbind (parse_value rh) (\<lambda>rhv.
       Inr (AttributeExpression lhv op (Some rhv))))))"

text \<open>The texts a loop over the arguments leaves; an error of the left text is ignored.\<close>

fun func_texts :: "cedar_node list \<Rightarrow> string \<times> string \<Rightarrow> string \<times> string" where
  "func_texts [] t = t"
| "func_texts (NValue v # ns) (l, r) = func_texts ns (l, cedar_value_string v)"
| "func_texts (NAccess b a # ns) (l, r) =
     func_texts ns ((case map_relation_comparator b of Inr t \<Rightarrow> t | Inl _ \<Rightarrow> []) @ ''.'' @ a, r)"
| "func_texts (n # ns) t = func_texts ns t"

definition map_cedar_func :: "compare_op \<Rightarrow> cedar_node list \<Rightarrow> expression res" where
  "map_cedar_func op nodes =
     (let (l, r) = func_texts nodes ([], []) in
      rbind (parse_value l) (\<lambda>lhv. rbind (parse_value r) (\<lambda>rhv.
        Inr (AttributeExpression lhv op (Some rhv)))))"

definition make_logical :: "logical_op \<Rightarrow> expression \<Rightarrow> expression \<Rightarrow> expression" where
  "make_logical op l r =
     (if l = NilExpression then r else if r = NilExpression then l else LogicalExpression op l r)"

definition like_error :: "string \<Rightarrow> 'a res" where
  "like_error p = Inl (Error (''Hexa supports only SW, EW, and CO comparisons: '' @ p))"

text \<open>The comparison of a pattern; \<open>p\<close> is the pattern without its quotes.\<close>

definition match_comparison :: "idql_value \<Rightarrow> compare_op \<Rightarrow> string \<Rightarrow> expression res" where
  "match_comparison lhv op s = rbind (parse_value (quote s)) (\<lambda>rhv. Inr (AttributeExpression lhv op (Some rhv)))"

definition suffix_pattern :: "idql_value \<Rightarrow> string \<Rightarrow> expression res" where
  "suffix_pattern lhv p =
     (if contains_str (drop 1 p) ''*'' then like_error p else match_comparison lhv EW (drop 1 p))"

definition map_cedar_pattern :: "idql_value \<Rightarrow> string \<Rightarrow> expression res" where
  "map_cedar_pattern lhv p =
     (if has_prefix p ''*'' then
        (if has_suffix p ''*'' then
           rbind (go_slice p 1 (length p - 1)) (\<lambda>inner.
           rbind (match_comparison lhv CO inner) (\<lambda>e.
             if \<not> contains_str inner ''*'' then Inr e else suffix_pattern lhv p))
         else suffix_pattern lhv p)
      else if has_suffix p ''*'' then
        (let s = take (length p - 1) p in
         if contains_str s ''*'' then like_error p else match_comparison lhv SW s)
      else like_error p)"

definition map_cedar_like :: "cedar_node \<Rightarrow> string \<Rightarrow> expression res" where
  "map_cedar_like l pattern =
     rbind (parse_value (case map_relation_comparator l of Inr t \<Rightarrow> t | Inl _ \<Rightarrow> []))
       (\<lambda>lhv. map_cedar_pattern lhv (remove_quotes pattern))"

definition map_cedar_has :: "cedar_node \<Rightarrow> string \<Rightarrow> expression res" where
  "map_cedar_has l a =
     rbind (map_relation_comparator l) (\<lambda>lh.
     rbind (parse_value (lh @ ''.'' @ (if contains_str a '' '' then quote a else a))) (\<lambda>lhv.
       Inr (AttributeExpression lhv PR None)))"

text \<open>An error of the text after \<open>in\<close> is overwritten by the parser's result on the empty text.\<close>

definition map_cedar_is :: "cedar_node \<Rightarrow> string \<Rightarrow> cedar_node option \<Rightarrow> expression res" where
  "map_cedar_is l t in_node =
     rbind (map_relation_comparator l) (\<lambda>lh.
     rbind (parse_value lh) (\<lambda>lhv.
     rbind (parse_value t) (\<lambda>rhv.
       let is_exp = AttributeExpression lhv IS (Some rhv) in
       case in_node of
         None \<Rightarrow> Inr is_exp
       | Some n \<Rightarrow>
           rbind (parse_value (case map_relation_comparator n of Inr x \<Rightarrow> x | Inl _ \<Rightarrow> [])) (\<lambda>v.
             Inr (LogicalExpression AND is_exp (AttributeExpression lhv IN (Some v)))))))"

fun relation_op :: "binary_kind \<Rightarrow> compare_op option" where
  "relation_op BEquals = Some EQ"
| "relation_op BNotEquals = Some NE"
| "relation_op BGreater = Some GT"
| "relation_op BGreaterEq = Some GE"
| "relation_op BLess = Some LT"
| "relation_op BLessEq = Some LE"
| "relation_op BIn = Some IN"
| "relation_op BContains = Some CO"
| "relation_op _ = None"

fun func_op :: "func_kind \<Rightarrow> compare_op" where
  "func_op FGreater = GT"
| "func_op FGreaterEq = GE"
| "func_op FLess = LT"
| "func_op FLessEq = LE"

definition map_binary :: "binary_kind \<Rightarrow> cedar_node \<Rightarrow> cedar_node \<Rightarrow> expression res" where
  "map_binary k l r =
     (case relation_op k of
        Some op \<Rightarrow> map_relation op l r
      | None \<Rightarrow>
          if k \<in> {BAdd, BSubtract, BMultiply}
          then node_error ''calculations (negate, add, multiply, subtract) are not supported by Hexa IDQL''
          else node_error ''unsupported expression'')"

fun map_cedar_node :: "cedar_node \<Rightarrow> bool \<Rightarrow> expression res" where
  "map_cedar_node (NBinary k l r) is_nested =
     (if k = BAnd then
        rbind (map_cedar_node l True) (\<lambda>lh.
        rbind (map_cedar_node r True) (\<lambda>rh. Inr (make_logical AND lh rh)))
      else if k = BOr then
        rbind (map_cedar_node l is_nested) (\<lambda>lh.
        rbind (map_cedar_node r is_nested) (\<lambda>rh.
          Inr (if is_nested then PrecedenceExpression (make_logical OR lh rh) else make_logical OR lh rh)))
      else map_binary k l r)"
| "map_cedar_node (NNot a) is_nested = rbind (map_cedar_node a is_nested) (\<lambda>e. Inr (NotExpression e))"
| "map_cedar_node (NFunc f ns) is_nested = map_cedar_func (func_op f) ns"
| "map_cedar_node (NIs l t i) is_nested = map_cedar_is l t i"
| "map_cedar_node (NHas l a) is_nested = map_cedar_has l a"
| "map_cedar_node (NLike l p) is_nested = map_cedar_like l p"
| "map_cedar_node (NIfThenElse a b c) is_nested = node_error ''if-then-else is not supported by Hexa IDQL''"
| "map_cedar_node (NNegate a) is_nested =
     node_error ''calculations (negate, add, multiply, subtract) are not supported by Hexa IDQL''"
| "map_cedar_node n is_nested = node_error ''unsupported expression''"

record cedar_clause =
  clause_kind :: string
  clause_body :: cedar_node

text \<open>A pair of Go results: the value, nil on an error, and the error.\<close>

fun go_pair :: "expression res \<Rightarrow> (expression \<times> string option) res" where
  "go_pair (Inr e) = Inr (e, None)"
| "go_pair (Inl (Error m)) = Inr (NilExpression, Some m)"
| "go_pair (Inl (Panic m)) = Inl (Panic m)"

definition map_condition_clause :: "cedar_clause \<Rightarrow> bool \<Rightarrow> (string \<times> string option) res" where
  "map_condition_clause c single =
     (if clause_kind c \<noteq> ''when'' \<and> clause_kind c \<noteq> ''unless'' then Inr ([], None)
      else
        rbind (go_pair (map_cedar_node (clause_body c) (\<not> single))) (\<lambda>(e, err).
          let e' = (if clause_kind c = ''unless'' \<and> \<not> single then NotExpression e else e) in
          if e' = NilExpression then Inr ([], err)
          else rbind (expression_string e') (\<lambda>s. Inr (s, err))))"

text \<open>The loop over several clauses: the text so far and the error of the last clause.\<close>

definition merge_clause :: "(string \<times> string option) option \<Rightarrow> cedar_clause \<Rightarrow> (string \<times> string option) option res" where
  "merge_clause acc c =
     rbind (map_condition_clause c False) (\<lambda>(s, err).
       Inr (Some (case acc of None \<Rightarrow> (s, err) | Some (merge, _) \<Rightarrow> (merge @ '' and '' @ s, err))))"

text \<open>The condition and the error are returned together.\<close>

definition map_cedar_condition :: "cedar_clause slice \<Rightarrow> (condition_info option \<times> string option) res" where
  "map_cedar_condition cs =
     (case elems cs of
        [] \<Rightarrow> Inr (None, None)
      | [c] \<Rightarrow>
          rbind (map_condition_clause c True) (\<lambda>(s, err).
            Inr (Some \<lparr>rule = s, action = (if clause_kind c = ''when'' then ''allow'' else ''deny'')\<rparr>, err))
      | c # d # rest \<Rightarrow>
          rbind (foldM merge_clause None (c # d # rest)) (\<lambda>r.
            Inr (case r of
                   None \<Rightarrow> (Some \<lparr>rule = [], action = ''allow''\<rparr>, None)
                 | Some (s, err) \<Rightarrow> (Some \<lparr>rule = s, action = ''allow''\<rparr>, err))))"

section \<open>Clauses and their meaning\<close>

text \<open>A policy applies when every when clause holds and no unless clause does.\<close>

inductive clauses_read :: "(nat \<Rightarrow> string \<Rightarrow> bool) \<Rightarrow> string \<Rightarrow> (bool \<times> cel_tree) list \<Rightarrow> bool" for leaf where
  one: "cel_reads leaf 0 b t \<Longrightarrow> clauses_read leaf (clause_text u b) [(u, t)]"
| more: "clauses_read leaf s cs \<Longrightarrow> clauses_read leaf s' cs' \<Longrightarrow>
    clauses_read leaf (s @ CHR 0x0A # s') (cs @ cs')"

definition clauses_hold :: "(cel_tree \<Rightarrow> bool) \<Rightarrow> (bool \<times> cel_tree) list \<Rightarrow> bool" where
  "clauses_hold v cs \<longleftrightarrow> (\<forall>(u, t) \<in> set cs. cel_truth v t \<noteq> u)"

lemma clauses_hold_append [simp]: "clauses_hold v (cs @ cs') \<longleftrightarrow> clauses_hold v cs \<and> clauses_hold v cs'"
  by (auto simp: clauses_hold_def)

definition atom_text :: "cedar_mapper \<Rightarrow> expression \<Rightarrow> string" where
  "atom_text cm e = (case map_filter_expression cm e False of Inr s \<Rightarrow> s | Inl _ \<Rightarrow> [])"

text \<open>The comparisons are read as a unit, at the level of an infix operator.\<close>

definition atoms :: "cedar_mapper \<Rightarrow> expression set \<Rightarrow> nat \<Rightarrow> string \<Rightarrow> bool" where
  "atoms cm E n s \<longleftrightarrow> n = 2 \<and> s \<in> atom_text cm ` E"

definition atom_value :: "cedar_mapper \<Rightarrow> (cel_tree \<Rightarrow> bool) \<Rightarrow> expression \<Rightarrow> bool" where
  "atom_value cm v a = v (CText (atom_text cm a))"

section \<open>Single expressions\<close>

fun logical_node :: "expression \<Rightarrow> bool" where
  "logical_node (LogicalExpression _ _ _) = True"
| "logical_node _ = False"

text \<open>No conjunction with another one on its left and a bare disjunction on its right.\<close>

fun cedar_safe :: "expression \<Rightarrow> bool" where
  "cedar_safe (LogicalExpression op l r) =
     (cedar_safe l \<and> cedar_safe r \<and> \<not> (op = AND \<and> repeats_operator AND l \<and> repeats_operator OR r))"
| "cedar_safe (NotExpression e) = cedar_safe e"
| "cedar_safe (PrecedenceExpression e) = cedar_safe e"
| "cedar_safe _ = True"

fun cedar_level :: "expression \<Rightarrow> bool \<Rightarrow> nat" where
  "cedar_level (LogicalExpression AND l r) b = 1"
| "cedar_level (LogicalExpression OR l r) b = (if b then 3 else 0)"
| "cedar_level (PrecedenceExpression e) b = (if logical_node e then 3 else cedar_level e False)"
| "cedar_level (NotExpression e) b = 3"
| "cedar_level e b = 2"

lemma operand_levels: "1 \<le> cedar_level e b \<or> (repeats_operator OR e \<and> \<not> b)"
proof (induction e arbitrary: b)
  case (LogicalExpression op l r)
  then show ?case by (cases op) auto
next
  case (PrecedenceExpression e)
  then show ?case by (cases e) fastforce+
qed auto

lemma plain_level: "\<not> logical_node e \<Longrightarrow> 2 \<le> cedar_level e b"
  by (induction e arbitrary: b) auto

definition says :: "cedar_mapper \<Rightarrow> cel_tree \<Rightarrow> expression \<Rightarrow> bool" where
  "says cm t e \<longleftrightarrow> (\<forall>v. cel_truth v t = cond_eval (atom_value cm v) e)"

lemma cedar_logical_reads:
  assumes l: "cel_reads leaf (cedar_level l (\<not> repeats_operator op l)) s t" "says cm t l"
    and r: "cel_reads leaf (cedar_level r (\<not> repeats_operator op l)) s' t'" "says cm t' r"
    and safe: "cedar_safe (LogicalExpression op l r)"
  shows "\<exists>u. cel_reads leaf (cedar_level (LogicalExpression op l r) b) (cedar_logical op s s' b) u \<and>
    says cm u (LogicalExpression op l r)"
proof (cases op)
  case AND
  have "1 \<le> cedar_level l (\<not> repeats_operator op l)" "1 \<le> cedar_level r (\<not> repeats_operator op l)"
    using operand_levels [of l] operand_levels [of r] safe AND by (cases l; cases r; force)+
  with AND obtain u where "cel_reads leaf 1 (s @ '' && '' @ s') u" "\<forall>v. cel_truth v u = (cel_truth v t \<and> cel_truth v t')"
    using conj_append [OF cel_reads_le [OF r(1), of 1] refl cel_reads_le [OF l(1), of 1]] by blast
  with AND l(2) r(2) show ?thesis by (intro exI [of _ u]) (simp add: says_def cedar_logical_def)
next
  case OR
  then obtain u where u: "cel_reads leaf 0 (s @ '' || '' @ s') u" "\<forall>v. cel_truth v u = (cel_truth v t \<or> cel_truth v t')"
    using disj_append [OF cel_reads_le [OF r(1), of 0] refl cel_reads_le [OF l(1), of 0]] by auto
  with OR l(2) r(2) paren [OF u(1), of "''(''" "'')''"] show ?thesis
    by (intro exI [of _ u]) (simp add: says_def cedar_logical_def)
qed

lemma filter_reads:
  assumes "map_filter_expression cm e b = Inr s" and "cedar_safe e" and "set (comparisons e) \<subseteq> E"
  shows "\<exists>t. cel_reads (atoms cm E) (cedar_level e b) s t \<and> says cm t e"
  using assms
proof (induction e arbitrary: b s)
  case (LogicalExpression op l r)
  then obtain ls rs where s: "map_filter_expression cm l (\<not> repeats_operator op l) = Inr ls"
      "map_filter_expression cm r (\<not> repeats_operator op l) = Inr rs" "s = cedar_logical op ls rs b"
    by (auto simp: rbind_iff)
  from LogicalExpression.IH(1) [OF s(1)] LogicalExpression.IH(2) [OF s(2)] LogicalExpression.prems(2,3)
  obtain t t' where "cel_reads (atoms cm E) (cedar_level l (\<not> repeats_operator op l)) ls t" "says cm t l"
      "cel_reads (atoms cm E) (cedar_level r (\<not> repeats_operator op l)) rs t'" "says cm t' r"
    by auto
  from cedar_logical_reads [OF this LogicalExpression.prems(2)] show ?case by (simp only: s(3))
next
  case (NotExpression e)
  then obtain s' where s: "map_filter_expression cm e False = Inr s'" "s = ''!( '' @ s' @ '' )''" by (auto simp: rbind_iff)
  from NotExpression.IH [OF s(1)] NotExpression.prems obtain t where
    t: "cel_reads (atoms cm E) (cedar_level e False) s' t" "says cm t e" by auto
  have "cel_reads (atoms cm E) 3 (''!'' @ ''( '' @ s' @ '' )'') (CNot t)"
    by (rule neg [OF paren]) (use t(1) cel_reads_le in auto)
  with t(2) s(2) show ?case by (intro exI [of _ "CNot t"]) (simp add: says_def)
next
  case (PrecedenceExpression e)
  then obtain s' where s: "map_filter_expression cm e False = Inr s'"
      "s = (if logical_node e then ''('' @ s' @ '')'' else s')" by (cases e) (auto simp: rbind_iff)
  from PrecedenceExpression.IH [OF s(1)] PrecedenceExpression.prems obtain t where
    t: "cel_reads (atoms cm E) (cedar_level e False) s' t" "says cm t e" by auto
  with s(2) paren [OF cel_reads_le [OF t(1), of 0], of "''(''" "'')''"] show ?case
    by (intro exI [of _ t]) (auto simp: says_def)
next
  case (AttributeExpression p op c)
  then have "atom_text cm (AttributeExpression p op c) = s" by (simp add: atom_text_def)
  with AttributeExpression.prems(3) have "atoms cm E 2 s" by (auto simp: atoms_def)
  from leaf [of "atoms cm E" 2 s, OF this order_refl] \<open>atom_text cm (AttributeExpression p op c) = s\<close> show ?case
    by (intro exI [of _ "CText s"]) (simp add: says_def atom_value_def)
qed simp_all

section \<open>Flattened expressions\<close>

fun flat_eval :: "(expression \<Rightarrow> bool) \<Rightarrow> flattened \<Rightarrow> bool" where
  "flat_eval v (FlatNode e) = cond_eval v e"
| "flat_eval v (MultiLogical AND es) = (\<forall>e \<in> set es. flat_eval v e)"
| "flat_eval v (MultiLogical OR es) = (\<exists>e \<in> set es. flat_eval v e)"

fun flat_nodes :: "flattened \<Rightarrow> expression list" where
  "flat_nodes (FlatNode e) = [e]"
| "flat_nodes (MultiLogical op es) = concat (map flat_nodes es)"

fun flat_nonempty :: "flattened \<Rightarrow> bool" where
  "flat_nonempty (FlatNode e) = True"
| "flat_nonempty (MultiLogical op es) = (es \<noteq> [] \<and> (\<forall>e \<in> set es. flat_nonempty e))"

lemma flat_eval_side:
  "cond_eval v e = (if op = AND then \<forall>f \<in> set (flatten_side op e). flat_eval v f else \<exists>f \<in> set (flatten_side op e). flat_eval v f)"
proof (induction op e rule: flatten_side.induct)
  case (1 op op' l r)
  then show ?case by (cases op; cases op') auto
qed (simp_all split: if_splits)

lemma flat_eval: "flat_eval v (check_and_flatten e) = cond_eval v e"
proof (cases e)
  case (LogicalExpression op l r)
  then show ?thesis
    using flat_eval_side [of v l op] flat_eval_side [of v r op] by (cases op) auto
qed simp_all

lemma flatten_side_nodes:
  "flatten_side op e \<noteq> [] \<and> (\<forall>f \<in> set (flatten_side op e). flat_nonempty f \<and>
     (cedar_safe e \<longrightarrow> (\<forall>n \<in> set (flat_nodes f). \<not> logical_node n \<and> cedar_safe n \<and> set (comparisons n) \<subseteq> set (comparisons e))))"
proof (induction op e rule: flatten_side.induct)
  case (1 op op' l r)
  then show ?case by (cases "op' = op") (auto; blast)+
qed simp_all

definition good_nodes :: "expression set \<Rightarrow> flattened \<Rightarrow> bool" where
  "good_nodes E f \<longleftrightarrow> flat_nonempty f \<and>
     (\<forall>n \<in> set (flat_nodes f). \<not> logical_node n \<and> cedar_safe n \<and> set (comparisons n) \<subseteq> E)"

lemma good_nodes_simps [simp]:
  "good_nodes E (FlatNode e) \<longleftrightarrow> \<not> logical_node e \<and> cedar_safe e \<and> set (comparisons e) \<subseteq> E"
  "good_nodes E (MultiLogical op es) \<longleftrightarrow> es \<noteq> [] \<and> (\<forall>e \<in> set es. good_nodes E e)"
  by (auto simp: good_nodes_def)

lemma good_flatten: "cedar_safe e \<Longrightarrow> set (comparisons e) \<subseteq> E \<Longrightarrow> good_nodes E (check_and_flatten e)"
proof (cases e)
  case (LogicalExpression op l r)
  assume "cedar_safe e" "set (comparisons e) \<subseteq> E"
  then show ?thesis
    using LogicalExpression flatten_side_nodes [of op l] flatten_side_nodes [of op r]
    by (auto simp: good_nodes_def; blast)
qed simp_all

section \<open>Lists of texts\<close>

lemma joined_reads:
  assumes "list_all2 (\<lambda>s t. cel_reads leaf 2 s t) ss ts" and "ss \<noteq> []"
  shows "\<exists>u. cel_reads leaf 1 (join_str ss '' && '') u \<and> (\<forall>v. cel_truth v u = (\<forall>t \<in> set ts. cel_truth v t))"
  using assms
proof (induction rule: list_all2_induct)
  case (Cons s ss t ts)
  show ?case
  proof (cases ss)
    case Nil
    with Cons cel_reads_le [OF Cons(1), of 1] show ?thesis by auto
  next
    case (Cons s' ss')
    with Cons.IH obtain u where u: "cel_reads leaf 1 (join_str ss '' && '') u" "\<forall>v. cel_truth v u = (\<forall>t \<in> set ts. cel_truth v t)"
      by auto
    from conj_append [OF u(1) refl cel_reads_le [OF Cons.hyps(1), of 1]] u(2) Cons show ?thesis by simp
  qed
qed simp

lemma joined_or_reads:
  assumes "list_all2 (\<lambda>s t. cel_reads leaf 1 s t) ss ts" and "ss \<noteq> []"
  shows "\<exists>u. cel_reads leaf 0 (join_str ss '' || '') u \<and> (\<forall>v. cel_truth v u = (\<exists>t \<in> set ts. cel_truth v t))"
  using assms
proof (induction rule: list_all2_induct)
  case (Cons s ss t ts)
  show ?case
  proof (cases ss)
    case Nil
    with Cons cel_reads_le [OF Cons(1), of 0] show ?thesis by auto
  next
    case (Cons s' ss')
    with Cons.IH obtain u where u: "cel_reads leaf 0 (join_str ss '' || '') u" "\<forall>v. cel_truth v u = (\<exists>t \<in> set ts. cel_truth v t)"
      by auto
    from disj_append [OF u(1) refl cel_reads_le [OF Cons.hyps(1), of 0]] u(2) Cons show ?thesis by simp
  qed
qed simp

section \<open>Clauses\<close>

lemma list_all2_choice: "(\<forall>x \<in> set xs. \<exists>y. P x y) \<Longrightarrow> \<exists>ys. list_all2 P xs ys"
  by (induction xs) (auto intro: list_all2_Cons1 [THEN iffD2])

definition flat_says :: "cedar_mapper \<Rightarrow> flattened \<Rightarrow> cel_tree \<Rightarrow> bool" where
  "flat_says cm f t \<longleftrightarrow> (\<forall>v. cel_truth v t = flat_eval (atom_value cm v) f)"

lemma flat_says_quantifiers:
  assumes "list_all2 (flat_says cm) fs ts"
  shows "(\<forall>t \<in> set ts. cel_truth v t) = (\<forall>f \<in> set fs. flat_eval (atom_value cm v) f)"
    and "(\<exists>t \<in> set ts. cel_truth v t) = (\<exists>f \<in> set fs. flat_eval (atom_value cm v) f)"
  using assms by (induction rule: list_all2_induct) (auto simp: flat_says_def)

text \<open>Texts of a list of operands, each read at a level with its meaning.\<close>

lemma operands_read:
  assumes "mapM g fs = Inr ss"
    and "\<And>f s. f \<in> set fs \<Longrightarrow> g f = Inr s \<Longrightarrow> \<exists>t. cel_reads leaf n s t \<and> flat_says cm f t"
  shows "\<exists>ts. list_all2 (cel_reads leaf n) ss ts \<and> list_all2 (flat_says cm) fs ts"
  using assms
proof (induction fs arbitrary: ss)
  case (Cons f fs)
  then obtain s ss' where s: "g f = Inr s" "mapM g fs = Inr ss'" "ss = s # ss'" by (auto simp: rbind_iff)
  from Cons.IH [OF s(2)] Cons.prems(2) obtain ts where "list_all2 (cel_reads leaf n) ss' ts" "list_all2 (flat_says cm) fs ts"
    by auto
  moreover from Cons.prems(2) [OF _ s(1)] obtain t where "cel_reads leaf n s t" "flat_says cm f t" by auto
  ultimately show ?case using s(3) by auto
qed auto

lemma node_reads:
  assumes "map_filter_expression cm e True = Inr s" and "good_nodes E (FlatNode e)"
  shows "\<exists>t. cel_reads (atoms cm E) 2 s t \<and> flat_says cm (FlatNode e) t"
proof -
  from assms(2) filter_reads [OF assms(1), of E] obtain t where
    t: "cel_reads (atoms cm E) (cedar_level e True) s t" "says cm t e" by auto
  from cel_reads_le [OF t(1) plain_level] assms(2) t(2) show ?thesis by (auto simp: says_def flat_says_def)
qed

lemma flat_expression_reads:
  "flat_expression cm f = Inr s \<Longrightarrow> good_nodes E f \<Longrightarrow> \<exists>t. cel_reads (atoms cm E) 2 s t \<and> flat_says cm f t"
  using node_reads by (cases f) auto

text \<open>A nested chain is a conjunction in brackets.\<close>

fun chains_alternate :: "flattened \<Rightarrow> bool" where
  "chains_alternate (FlatNode e) = True"
| "chains_alternate (MultiLogical op es) =
     (\<forall>e \<in> set es. chains_alternate e \<and> (case e of MultiLogical op' _ \<Rightarrow> op' \<noteq> op | FlatNode _ \<Rightarrow> True))"

lemma or_operand_reads:
  assumes "or_operand cm f = Inr s" and "good_nodes E f" and "case f of MultiLogical op' _ \<Rightarrow> op' \<noteq> OR | FlatNode _ \<Rightarrow> True"
  shows "\<exists>t. cel_reads (atoms cm E) 1 s t \<and> flat_says cm f t"
proof (cases f)
  case (FlatNode e)
  with assms node_reads [of cm e s E] cel_reads_le [of "atoms cm E" 2 s _ 1] show ?thesis by auto
next
  case (MultiLogical op es)
  with assms(3) have op: "op = AND" by (cases op) auto
  from assms(1) MultiLogical obtain ss where ss: "mapM (flat_expression cm) es = Inr ss"
      "s = '' ('' @ join_str ss '' && '' @ '')''" by (auto simp: rbind_iff)
  have "\<exists>t. cel_reads (atoms cm E) 2 s t \<and> flat_says cm f t" if "f \<in> set es" "flat_expression cm f = Inr s" for f s
    using flat_expression_reads [OF that(2), of E] assms(2) MultiLogical that(1) by auto
  from operands_read [OF ss(1) this] obtain ts where
    ts: "list_all2 (cel_reads (atoms cm E) 2) ss ts" "list_all2 (flat_says cm) es ts" by auto
  from ts ss assms(2) MultiLogical have "ss \<noteq> []" by (auto dest!: list_all2_lengthD)
  from joined_reads [OF ts(1) this] obtain u where
    u: "cel_reads (atoms cm E) 1 (join_str ss '' && '') u" "\<forall>v. cel_truth v u = (\<forall>t \<in> set ts. cel_truth v t)" by auto
  from paren [OF cel_reads_le [OF u(1), of 0], of "'' (''" "'')''"] have "cel_reads (atoms cm E) 3 s u" by (simp add: ss(2))
  moreover have "flat_says cm f u"
    using u(2) flat_says_quantifiers(1) [OF ts(2)] by (simp add: flat_says_def MultiLogical op)
  ultimately show ?thesis using cel_reads_le [of "atoms cm E" 3 s u 1] by auto
qed

definition clause_says :: "cedar_mapper \<Rightarrow> (bool \<times> cel_tree) list \<Rightarrow> flattened \<Rightarrow> bool \<Rightarrow> bool" where
  "clause_says cm cs f u \<longleftrightarrow> (\<forall>v. clauses_hold v cs = (flat_eval (atom_value cm v) f \<noteq> u))"

lemma clause_of_reads:
  assumes "cel_reads leaf 0 b t" and "\<forall>v. cel_truth v t = flat_eval (atom_value cm v) f"
  shows "\<exists>cs. clauses_read leaf (clause_text u b) cs \<and> clause_says cm cs f u"
  using clauses_read.one [OF assms(1), of u] assms(2) by (auto simp: clause_says_def clauses_hold_def intro!: exI)

lemma condition_clause_reads:
  assumes "map_to_condition_clause cm e u = Inr s" and "cedar_safe e" and "set (comparisons e) \<subseteq> E"
  shows "\<exists>cs. clauses_read (atoms cm E) s cs \<and> clause_says cm cs (FlatNode e) u"
proof -
  have body: "\<exists>cs. clauses_read (atoms cm E) (clause_text u' b) cs \<and> clause_says cm cs (FlatNode e') u'"
    if "map_filter_expression cm e' False = Inr b" "cedar_safe e'" "set (comparisons e') \<subseteq> E" for e' b u'
    using filter_reads [OF that] clause_of_reads [OF cel_reads_le] by (fastforce simp: says_def)
  show ?thesis
  proof (cases e)
    case (NotExpression e')
    with assms obtain b where "map_filter_expression cm e' False = Inr b" "s = clause_text (\<not> u) b" by (auto simp: rbind_iff)
    with body [of e' b "\<not> u"] assms NotExpression show ?thesis by (auto simp: clause_says_def)
  next
    case (PrecedenceExpression e')
    with assms obtain b where "map_filter_expression cm e' False = Inr b" "s = clause_text u b" by (auto simp: rbind_iff)
    with body [of e' b u] assms PrecedenceExpression show ?thesis by (auto simp: clause_says_def)
  qed (use assms body in \<open>auto simp: rbind_iff simp del: map_filter_expression.simps\<close>)
qed

lemma joined_clauses:
  assumes "list_all2 (\<lambda>f s. \<exists>cs. clauses_read leaf s cs \<and> clause_says cm cs f False) fs ss" and "ss \<noteq> []"
  shows "\<exists>cs. clauses_read leaf (join_str ss [CHR 0x0A]) cs \<and> clause_says cm cs (MultiLogical AND fs) False"
  using assms
proof (induction rule: list_all2_induct)
  case (Cons f fs s ss)
  show ?case
  proof (cases ss)
    case Nil
    with Cons show ?thesis by (auto simp: clause_says_def)
  next
    case (Cons s' ss')
    with Cons.IH obtain cs where cs: "clauses_read leaf (join_str ss [CHR 0x0A]) cs" "clause_says cm cs (MultiLogical AND fs) False"
      by auto
    from Cons.hyps(1) obtain c where c: "clauses_read leaf s c" "clause_says cm c f False" by auto
    from clauses_read.more [OF c(1) cs(1)] c(2) cs(2) Cons show ?thesis
      by (auto simp: clause_says_def intro!: exI [of _ "c @ cs"])
  qed
qed simp

lemma flattened_clause_reads:
  assumes "map_flattened_clause cm f u = Inr s" and "good_nodes E f" and "chains_alternate f"
    and "\<not> (u \<and> (\<exists>es. f = MultiLogical AND es))"
  shows "\<exists>cs. clauses_read (atoms cm E) s cs \<and> clause_says cm cs f u"
  using assms
proof (induction cm f u arbitrary: s rule: map_flattened_clause.induct)
  case (1 cm e u)
  then show ?case using condition_clause_reads by auto
next
  case (2 cm es u)
  then obtain ss where ss: "mapM (\<lambda>e. map_flattened_clause cm e u) es = Inr ss" "s = join_str ss [CHR 0x0A]"
    by (auto simp: rbind_iff)
  from 2 have u: "\<not> u" by simp
  have "\<exists>cs. clauses_read (atoms cm E) s cs \<and> clause_says cm cs f False"
    if "f \<in> set es" "map_flattened_clause cm f u = Inr s" for f s
    using "2.IH" [OF that] that(1) "2.prems" u by simp
  with ss(1) have "list_all2 (\<lambda>f s. \<exists>cs. clauses_read (atoms cm E) s cs \<and> clause_says cm cs f False) es ss"
    by (auto simp: mapM_Inr_iff elim!: list.rel_mono_strong)
  moreover have "ss \<noteq> []" using ss(1) 2 by (auto simp: mapM_Inr_iff)
  ultimately show ?case using joined_clauses u ss(2) by auto
next
  case (3 cm es u)
  then obtain ss where ss: "mapM (or_operand cm) es = Inr ss" "s = clause_text u (join_str ss '' || '')"
    by (auto simp: rbind_iff)
  have "\<exists>t. cel_reads (atoms cm E) 1 s t \<and> flat_says cm f t" if "f \<in> set es" "or_operand cm f = Inr s" for f s
    using or_operand_reads [OF that(2), of E] 3 that(1) by auto
  from operands_read [OF ss(1) this] obtain ts where
    ts: "list_all2 (cel_reads (atoms cm E) 1) ss ts" "list_all2 (flat_says cm) es ts" by auto
  from ts 3 have "ss \<noteq> []" by (auto dest!: list_all2_lengthD)
  from joined_or_reads [OF ts(1) this] obtain t where
    t: "cel_reads (atoms cm E) 0 (join_str ss '' || '') t" "\<forall>v. cel_truth v t = (\<exists>t \<in> set ts. cel_truth v t)" by auto
  from clause_of_reads [OF t(1), of cm "MultiLogical OR es" u] t(2) flat_says_quantifiers(2) [OF ts(2)] ss(2)
  show ?case by simp
qed

lemma side_alternates: "\<forall>f \<in> set (flatten_side op e). chains_alternate f \<and> (case f of MultiLogical op' _ \<Rightarrow> op' \<noteq> op | FlatNode _ \<Rightarrow> True)"
  by (induction op e rule: flatten_side.induct) auto

lemma flatten_alternates: "chains_alternate (check_and_flatten e)"
  using side_alternates by (cases e) auto

section \<open>Whole conditions\<close>

text \<open>No conjunction becomes several unless clauses.\<close>

fun keeps_conjunctions :: "expression \<Rightarrow> bool \<Rightarrow> bool" where
  "keeps_conjunctions (NotExpression e) u \<longleftrightarrow> u \<or> \<not> repeats_operator AND e"
| "keeps_conjunctions (PrecedenceExpression e) u \<longleftrightarrow> \<not> u \<or> \<not> repeats_operator AND e"
| "keeps_conjunctions e u \<longleftrightarrow> \<not> u \<or> \<not> repeats_operator AND e"

lemma flat_clause_reads:
  assumes "map_flattened_clause cm (check_and_flatten e) u = Inr s" and "cedar_safe e"
    and "set (comparisons e) \<subseteq> E" and "\<not> u \<or> \<not> repeats_operator AND e"
  shows "\<exists>cs. clauses_read (atoms cm E) s cs \<and> (\<forall>v. clauses_hold v cs = (cond_eval (atom_value cm v) e \<noteq> u))"
proof -
  have "\<not> (u \<and> (\<exists>es. check_and_flatten e = MultiLogical AND es))"
    using assms(4) by (cases e) auto
  from flattened_clause_reads [OF assms(1) good_flatten [OF assms(2,3)] flatten_alternates this]
  show ?thesis by (simp add: clause_says_def flat_eval)
qed

lemma ast_reads:
  assumes "map_condition_ast cm e u = Inr s" and "cedar_safe e" and "keeps_conjunctions e u"
  shows "\<exists>cs. clauses_read (atoms cm (set (comparisons e))) s cs \<and>
    (\<forall>v. clauses_hold v cs = (cond_eval (atom_value cm v) e \<noteq> u))"
proof (cases e)
  case (NotExpression e')
  with assms flat_clause_reads [of cm e' "\<not> u" s "set (comparisons e')"] show ?thesis by auto
next
  case (PrecedenceExpression e')
  with assms flat_clause_reads [of cm e' u s "set (comparisons e')"] show ?thesis by auto
next
  case (LogicalExpression op l r)
  with assms flat_clause_reads [of cm e u s "set (comparisons e)"] show ?thesis by auto
qed (use assms condition_clause_reads [of cm e u s "set (comparisons e)"] in \<open>auto simp: clause_says_def\<close>)

section \<open>The meaning of Cedar nodes\<close>

fun node_truth :: "(cedar_node \<Rightarrow> bool) \<Rightarrow> cedar_node \<Rightarrow> bool" where
  "node_truth w (NBinary k l r) =
     (if k = BAnd then node_truth w l \<and> node_truth w r
      else if k = BOr then node_truth w l \<or> node_truth w r else w (NBinary k l r))"
| "node_truth w (NNot n) = (\<not> node_truth w n)"
| "node_truth w n = w n"

text \<open>The truth of a node that is not logical, as the comparison it is translated to.\<close>

definition node_value :: "(expression \<Rightarrow> bool) \<Rightarrow> cedar_node \<Rightarrow> bool" where
  "node_value v n = (case map_cedar_node n True of Inr e \<Rightarrow> cond_eval v e | Inl _ \<Rightarrow> False)"

lemma relation_not_nil: "map_relation op l r = Inr e \<Longrightarrow> e \<noteq> NilExpression"
  by (auto simp: map_relation_def rbind_iff)

lemma map_binary_not_nil: "map_binary k l r = Inr e \<Longrightarrow> e \<noteq> NilExpression"
  by (auto simp: map_binary_def node_error_def relation_not_nil split: option.splits if_splits)

lemma logical_node_cases:
  assumes "map_cedar_node (NBinary k l r) b = Inr e" and "k = BAnd \<or> k = BOr"
  obtains b' lh rh op where "map_cedar_node l b' = Inr lh" "map_cedar_node r b' = Inr rh"
    "e = make_logical op lh rh \<or> e = PrecedenceExpression (make_logical op lh rh)"
    "op = (if k = BAnd then AND else OR)"
  using assms by (cases "k = BAnd"; cases b) (auto simp: rbind_iff)

lemma node_not_nil: "map_cedar_node n b = Inr e \<Longrightarrow> e \<noteq> NilExpression"
proof (induction n arbitrary: b e)
  case (NBinary k l r)
  show ?case
  proof (cases "k = BAnd \<or> k = BOr")
    case True
    with NBinary.prems show ?thesis
      by (rule logical_node_cases) (use NBinary.IH in \<open>auto simp: make_logical_def\<close>)
  next
    case False
    with NBinary.prems map_binary_not_nil show ?thesis by simp
  qed
next
  case (NLike l p)
  then show ?case
    by (auto simp: map_cedar_like_def map_cedar_pattern_def suffix_pattern_def match_comparison_def like_error_def
        Let_def rbind_iff split: if_splits)
qed (auto simp: rbind_iff map_cedar_func_def map_cedar_is_def map_cedar_has_def node_error_def Let_def split: option.splits prod.splits)

lemma node_meaning: "map_cedar_node n b = Inr e \<Longrightarrow> cond_eval v e = node_truth (node_value v) n"
proof (induction n arbitrary: b e)
  case (NBinary k l r)
  show ?case
  proof (cases "k = BAnd \<or> k = BOr")
    case True
    with NBinary.prems obtain b' lh rh op where e: "map_cedar_node l b' = Inr lh" "map_cedar_node r b' = Inr rh"
        "e = make_logical op lh rh \<or> e = PrecedenceExpression (make_logical op lh rh)" "op = (if k = BAnd then AND else OR)"
      by (rule logical_node_cases)
    from node_not_nil [OF e(1)] node_not_nil [OF e(2)] have "make_logical op lh rh = LogicalExpression op lh rh"
      by (simp add: make_logical_def)
    with True e(3,4) NBinary.IH(1) [OF e(1)] NBinary.IH(2) [OF e(2)]
    show ?thesis by (cases "k = BAnd") auto
  next
    case False
    with NBinary.prems show ?thesis by (simp add: node_value_def)
  qed
qed (auto simp: node_value_def rbind_iff)

section \<open>Examples\<close>

definition plain_cedar :: cedar_mapper where
  "plain_cedar = \<lparr>name_map = new_name_mapper [], parse_decimal = (\<lambda>_. None)\<rparr>"

lemma plain_cedar_names [simp]: "get_provider_attribute_name (name_map plain_cedar) n = n"
  by (simp add: plain_cedar_def new_name_mapper_def get_provider_attribute_name_def)

lemma team_is_blue_cedar: "map_filter_expression plain_cedar team_is_blue b = Inr ''team == blue''"
  by (simp add: team_is_blue_def map_attr_expr_def)

lemma team_conditions:
  "parse_filter ''not (team eq blue and team eq blue)'' = Inr (NotExpression (LogicalExpression AND team_is_blue team_is_blue))"
  "parse_filter ''team eq blue and not (team eq blue or team eq blue)'' =
     Inr (LogicalExpression AND team_is_blue (NotExpression (LogicalExpression OR team_is_blue team_is_blue)))"
  using example_writable
  by (auto intro!: parse_writable simp: example_texts ascii_def)
    (simp_all add: level_present_def team_is_blue_def)

definition owner_is :: "string \<Rightarrow> cedar_node" where
  "owner_is x = NBinary BEquals (NAccess (NVar ''resource'') ''owner'') (NVar x)"

definition owner_eq :: "string \<Rightarrow> expression" where
  "owner_eq x = AttributeExpression (VEntity (EEquals [] ''resource.owner'')) EQ (Some (VEntity (EEquals [] x)))"

lemma owner_nodes: "x = ''alice'' \<or> x = ''bob'' \<Longrightarrow> map_cedar_node (owner_is x) b = Inr (owner_eq x)"
  by (auto simp: owner_is_def owner_eq_def map_binary_def map_relation_def parse_value_path plain_path_def word_eval)

lemma owner_writable: "x = ''alice'' \<or> x = ''bob'' \<Longrightarrow> writable n (owner_eq x)"
  by (auto simp: owner_eq_def parse_value_path word_eval)

section \<open>Properties\<close>



text \<open>A negated conjunction of two comparisons is written as two unless clauses, which hold when
  neither comparison does.\<close>

lemma cedar_negated_conjunction:
  fixes p1 p2 op1 op2 c1 c2
  defines "x \<equiv> AttributeExpression p1 op1 c1" and "y \<equiv> AttributeExpression p2 op2 c2"
  assumes "parse_filter (rule ci) = Inr (NotExpression (LogicalExpression AND x y))" and "action ci = ''allow''"
    and "map_condition_to_cedar cm (Some ci) = Inr s"
  shows "\<exists>cs. clauses_read (atoms cm {x, y}) s cs \<and>
    (\<forall>v. clauses_hold v cs = (\<not> cond_eval (atom_value cm v) x \<and> \<not> cond_eval (atom_value cm v) y))"
proof -
  from assms(3-5) obtain a b where ab: "map_filter_expression cm x False = Inr a" "map_filter_expression cm y False = Inr b"
      "s = clause_text True a @ CHR 0x0A # clause_text True b"
    by (auto simp: map_condition_to_cedar_def condition_ast_def rbind_iff x_def y_def)
  have "atoms cm {x, y} 2 a" "atoms cm {x, y} 2 b" by (simp_all add: atoms_def atom_text_def ab)
  then have "cel_reads (atoms cm {x, y}) 0 a (CText a)" "cel_reads (atoms cm {x, y}) 0 b (CText b)"
    by (auto intro: cel_reads_le [OF cel_reads.leaf [of "atoms cm {x, y}" 2]])
  from clauses_read.more [OF clauses_read.one [OF this(1), of True] clauses_read.one [OF this(2), of True]] ab
  show ?thesis
    by (intro exI [of _ "[(True, CText a), (True, CText b)]"]) (simp add: clauses_hold_def x_def y_def atom_value_def atom_text_def)
qed



text \<open>Of two when clauses the first of which cannot be translated, the second one's text remains,
  without an error.\<close>

lemma cedar_error_dropped:
  assumes "clause_kind c = ''when''" and "map_cedar_node (clause_body c) True = Inl (Error m)"
    and "map_condition_clause d False = Inr (s, None)"
  shows "map_cedar_condition (Some [c, d]) = Inr (Some \<lparr>rule = '' and '' @ s, action = ''allow''\<rparr>, None)"
  using assms by (simp add: map_cedar_condition_def merge_clause_def map_condition_clause_def [of c])

end
