(* ===== verification/Cedar_Mapper.thy ===== *)
theory Cedar_Mapper
  imports Hexa_Policy Cedar_Conditions
begin

text \<open>
  The Cedar format of \<^verbatim>\<open>models/formats/cedar\<close>: policies to and from Cedar (\<^verbatim>\<open>cedar_mapper.go\<close>) and
  the entity store (\<^verbatim>\<open>entity.go\<close>).

  Cedar text is parsed by \<^verbatim>\<open>cedar-go\<close>; a policy comes here as the structure its JSON form decodes
  to.  The annotations of a parsed policy have a type of that library, which is \<open>SOther\<close> in the
  source data; those of a decoded IDQL policy are a table.  An association list is a Go map in the
  order one iteration visits it.
\<close>

section \<open>Decoded Cedar policies\<close>

record uid =
  uid_type :: string
  uid_id :: string

record scope_json =
  scope_op :: string
  scope_entity :: "uid option"
  scope_entities :: "uid list"
  scope_entity_type :: string
  scope_in :: "uid option"

record policy_json =
  annotations :: "string go_map"
  effect :: string
  principal_scope :: scope_json
  action_scope :: scope_json
  resource_scope :: scope_json
  cedar_conditions :: "cedar_clause slice"

section \<open>From Cedar\<close>

definition uid_entity :: "uid \<Rightarrow> entity" where
  "uid_entity u = EEquals [uid_type u] (quote (uid_id u))"

definition map_cedar_scope :: "string \<Rightarrow> scope_json \<Rightarrow> string list res" where
  "map_cedar_scope verb sc =
     (if scope_op sc = ''All'' then Inr (if verb = ''principal'' then [''any''] else [])
      else if scope_op sc = ''=='' then
        rbind (go_deref (scope_entity sc)) (\<lambda>u.
          Inr [entity_string (EEquals (split_str (uid_type u) ''::'') (quote (uid_id u)))])
      else if scope_op sc = ''is'' then
        Inr (case scope_in sc of
               Some u \<Rightarrow>
                 [entity_string (EIsIn [scope_entity_type sc] [parse_entity (uid_type u @ '':'' @ quote (uid_id u))])]
             | None \<Rightarrow> [entity_string (EIs [scope_entity_type sc])])
      else if scope_op sc = ''in'' then
        Inr (case scope_entity sc of
               Some u \<Rightarrow> [entity_string (EIn [uid_entity u])]
             | None \<Rightarrow>
                 (let items = map uid_entity (scope_entities sc) in
                  if verb = ''action'' then map entity_string items else [entity_string (EIn items)]))
      else Inr [])"

definition map_cedar_annotations :: "policy_json \<Rightarrow> meta_info \<Rightarrow> meta_info" where
  "map_cedar_annotations p m =
     (if annotations p = [] then m
      else m\<lparr>source_data := Some (AList.update ''annotations'' (SOther ''types.Annotations'')
               (case source_data m of Some d \<Rightarrow> d | None \<Rightarrow> []))\<rparr>)"

definition map_cedar_subject :: "policy_json \<Rightarrow> string list res" where
  "map_cedar_subject p =
     rbind (map_cedar_scope ''principal'' (principal_scope p)) (\<lambda>subjs.
       Inr (if subjs = [] then [''any''] else subjs))"

definition map_cedar_resource :: "policy_json \<Rightarrow> string res" where
  "map_cedar_resource p =
     rbind (map_cedar_scope ''resource'' (resource_scope p)) (\<lambda>vals.
       Inr (case vals of [] \<Rightarrow> [] | v # _ \<Rightarrow> v))"

text \<open>The policy made from a Cedar policy; the effect is never looked at.\<close>

definition map_cedar_policy :: "policy_json \<Rightarrow> policy_info res" where
  "map_cedar_policy p =
     (let m = map_cedar_annotations p
        \<lparr>meta_version = ''0.7'', source_data = None, description = [], created = None,
         modified = None, etag = [], policy_id = None, pap_id = None, provider_type = []\<rparr> in
      rbind (map_cedar_subject p) (\<lambda>subjs.
      rbind (map_cedar_scope ''action'' (action_scope p)) (\<lambda>acts.
      rbind (map_cedar_resource p) (\<lambda>obj.
      rbind (map_cedar_condition (cedar_conditions p)) (\<lambda>(c, err).
        case err of
          Some e \<Rightarrow> Inl (Error e)
        | None \<Rightarrow> Inr \<lparr>meta = m, subjects = Some subjs, actions = Some acts, object_info = obj,
                        condition = c, scope = None\<rparr>)))))"

text \<open>The loop stops at the first error; the variable that holds it is not the one returned.\<close>

fun map_cedar_loop :: "policy_json list \<Rightarrow> policy_info list res" where
  "map_cedar_loop [] = Inr []"
| "map_cedar_loop (p # ps) =
     rbind (try_call (map_cedar_policy p)) (\<lambda>r.
       case r of
         None \<Rightarrow> Inr []
       | Some h \<Rightarrow> rbind (map_cedar_loop ps) (\<lambda>hs. Inr (h # hs)))"

definition map_cedar_policies ::
  "(string \<Rightarrow> string + policy_json list) \<Rightarrow> string \<Rightarrow> string \<Rightarrow> policies res" where
  "map_cedar_policies cedar_parse location text =
     (case cedar_parse text of
        Inl e \<Rightarrow> Inl (Error e)
      | Inr ps \<Rightarrow> rbind (map_cedar_loop ps) (\<lambda>hs. Inr \<lparr>policy_list = Some hs, app = Some location\<rparr>))"

section \<open>To Cedar\<close>

definition map_hexa_annotations :: "policy_info \<Rightarrow> string" where
  "map_hexa_annotations p =
     (case source_data (meta p) of
        None \<Rightarrow> []
      | Some d \<Rightarrow>
          (case map_of d ''annotations'' of
             Some (STable t) \<Rightarrow>
               concat (map (\<lambda>(k, v). ''@'' @ k @ ''('' @ [dq] @ v @ [dq] @ '')'' @ [CHR 0x0A]) t)
           | _ \<Rightarrow> []))"

definition cedar_member :: "entity \<Rightarrow> string" where
  "cedar_member e =
     join_str (entity_types e) ''::'' @
     (case entity_id e of None \<Rightarrow> [] | Some i \<Rightarrow> ''::'' @ quote i)"

text \<open>A set of one entity is written without brackets.\<close>

definition cedar_members :: "entity list \<Rightarrow> string" where
  "cedar_members es =
     (case es of [e] \<Rightarrow> cedar_member e | _ \<Rightarrow> ''['' @ join_str (map cedar_member es) '','' @ '']'')"

definition map_hexa_value :: "string \<Rightarrow> string \<Rightarrow> string" where
  "map_hexa_value verb member =
     (if verb = ''principal'' \<and> equal_fold member ''any'' then ''principal,''
      else if verb = ''principal'' \<and> equal_fold member ''anyAuthenticated'' then ''principal is User,''
      else
        (let comma = (if verb = ''resource'' then [] else '','') in
         if member = [] then verb @ comma
         else
           (case parse_entity member of
              EEquals ts i \<Rightarrow>
                if verb = ''action'' then join_str ts ''::'' @ ''::'' @ quote i
                else verb @ '' == '' @ join_str ts ''::'' @ ''::'' @ quote i @ comma
            | EIs ts \<Rightarrow> verb @ '' is '' @ join_str ts ''::'' @ comma
            | EIn es \<Rightarrow> verb @ '' in '' @ cedar_members es @ comma
            | EIsIn ts es \<Rightarrow> verb @ '' is '' @ join_str ts ''::'' @ '' in '' @ cedar_members es @ comma
            | e \<Rightarrow> ''<unexpected type ['' @ rel_type e @ '']>'')))"

definition map_hexa_subjects :: "policy_info \<Rightarrow> string list" where
  "map_hexa_subjects p =
     (case subjects p of
        None \<Rightarrow> []
      | Some ms \<Rightarrow>
          (case ms of
             [] \<Rightarrow> [''principal,'']
           | m # _ \<Rightarrow>
               if equal_fold m ''any'' then [''principal,''] else map (map_hexa_value ''principal'') ms))"

definition map_hexa_action :: "policy_info \<Rightarrow> string" where
  "map_hexa_action p =
     (case elems (actions p) of
        [] \<Rightarrow> ''action,''
      | [a] \<Rightarrow> ''action == '' @ map_hexa_value ''action'' a @ '',''
      | as \<Rightarrow> ''action in ['' @ join_str (map (map_hexa_value ''action'') as) '','' @ ''],'')"

definition map_hexa_resource :: "policy_info \<Rightarrow> string" where
  "map_hexa_resource p = map_hexa_value ''resource'' (object_info p)"

definition newline :: string where
  "newline = [CHR 0x0A]"

definition write_cedar_policy :: "string \<Rightarrow> string \<Rightarrow> string \<Rightarrow> string \<Rightarrow> string \<Rightarrow> string" where
  "write_cedar_policy annots subject acts resource conds =
     annots @ ''permit ('' @ newline @ ''  '' @ subject @ newline @ ''  '' @ acts @ newline @ ''  '' @
     resource @ newline @ '')'' @ (if conds = [] then [] else newline @ conds) @ '';'' @ newline"

definition map_hexa_policy :: "cedar_mapper \<Rightarrow> policy_info \<Rightarrow> string res" where
  "map_hexa_policy cm p =
     rbind (map_condition_to_cedar cm (condition p)) (\<lambda>c.
       Inr (concat (map (\<lambda>s. write_cedar_policy (map_hexa_annotations p) s (map_hexa_action p) (map_hexa_resource p) c)
         (map_hexa_subjects p))))"

definition map_hexa_policies :: "cedar_mapper \<Rightarrow> policy_info list \<Rightarrow> string res" where
  "map_hexa_policies cm ps = rbind (mapM (map_hexa_policy cm) ps) (\<lambda>ss. Inr (concat ss))"

section \<open>The entity store\<close>

text \<open>An attribute value as the JSON decoder makes it, and as the store keeps it.\<close>

datatype raw_value = RawString string | RawNumber float64 | RawBool bool | RawRecord string | RawSet string | RawNull

datatype attr_value = AttrString string | AttrLong int | AttrBool bool | AttrRecord string | AttrSet string

record entity_name =
  name_id :: string
  name_type :: string

record raw_entity =
  raw_uid :: string
  raw_parents :: "string list"
  raw_attrs :: "raw_value go_map"
  raw_entity_id :: "entity_name option"
  raw_identifier :: "entity_name option"
  raw_name_parents :: "entity_name list"
  raw_attributes :: "attr_value option go_map"

record store_entity =
  entity_uid :: string
  entity_parents :: "string list"
  attributes :: "(string \<times> attr_value option) list"

text \<open>\<open>int64(f)\<close> truncates toward zero; numbers beyond 64 bits are not considered.\<close>

fun store_attribute :: "raw_value \<Rightarrow> attr_value res" where
  "store_attribute (RawString s) = Inr (AttrString s)"
| "store_attribute (RawNumber f) = Inr (AttrLong (if f < 0 then \<lceil>f\<rceil> else \<lfloor>f\<rfloor>))"
| "store_attribute (RawBool b) = Inr (AttrBool b)"
| "store_attribute (RawRecord r) = Inr (AttrRecord r)"
| "store_attribute (RawSet s) = Inr (AttrSet s)"
| "store_attribute RawNull = Inl (Panic ''nil pointer dereference'')"

definition name_text :: "entity_name \<Rightarrow> string" where
  "name_text n = name_type n @ ''::'' @ marshal_string (name_id n)"

definition store_entity_of :: "raw_entity \<Rightarrow> store_entity res" where
  "store_entity_of r =
     (let name = (if raw_entity_id r \<noteq> None then raw_entity_id r else raw_identifier r) in
      if raw_uid r \<noteq> [] then
        rbind (mapM (\<lambda>(k, v). rbind (store_attribute v) (\<lambda>a. Inr (k, Some a))) (raw_attrs r)) (\<lambda>attrs.
          Inr \<lparr>entity_uid = raw_uid r, entity_parents = raw_parents r, attributes = attrs\<rparr>)
      else
        (case name of
           Some n \<Rightarrow> Inr \<lparr>entity_uid = name_text n, entity_parents = map name_text (raw_name_parents r),
                          attributes = raw_attributes r\<rparr>
         | None \<Rightarrow> Inl (Error ''no entity identifier found in entity list item'')))"

definition get_entities :: "raw_entity list \<Rightarrow> store_entity list res" where
  "get_entities raws = mapM store_entity_of raws"

text \<open>One round of the search: the work list grows by the entities below its \<open>i\<close>-th element.\<close>

definition add_child :: "string \<Rightarrow> store_entity \<Rightarrow> string list \<Rightarrow> string \<Rightarrow> string list" where
  "add_child parent e ps p = (if p = parent \<and> entity_uid e \<notin> set ps then ps @ [entity_uid e] else ps)"

definition add_children :: "string \<Rightarrow> string list \<Rightarrow> store_entity \<Rightarrow> string list" where
  "add_children parent ps e = foldl (add_child parent e) ps (entity_parents e)"

definition found_entities :: "store_entity list \<Rightarrow> string \<Rightarrow> store_entity go_map \<Rightarrow> store_entity go_map" where
  "found_entities base parent found =
     foldl (\<lambda>f e. if entity_uid e = parent then AList.update parent e f else f) found base"

text \<open>The identifiers of the store that the work list does not have yet.\<close>

definition missing :: "store_entity list \<Rightarrow> string list \<Rightarrow> string set" where
  "missing base ps = entity_uid ` set base - set ps"

lemma finite_missing [simp]: "finite (missing base ps)"
  by (simp add: missing_def)

lemma add_child_size:
  "e \<in> set base \<Longrightarrow> length (add_child parent e ps p) + card (missing base (add_child parent e ps p)) = length ps + card (missing base ps)"
proof (cases "p = parent \<and> entity_uid e \<notin> set ps")
  case True
  assume "e \<in> set base"
  with True have "entity_uid e \<in> missing base ps" by (simp add: missing_def)
  from card_Suc_Diff1 [OF finite_missing this]
  have "Suc (card (missing base (ps @ [entity_uid e]))) = card (missing base ps)"
    by (simp add: missing_def Diff_insert [symmetric])
  with True show ?thesis by (simp add: add_child_def)
qed (auto simp: add_child_def)

lemma add_children_size:
  assumes "e \<in> set base"
  shows "length (add_children parent ps e) + card (missing base (add_children parent ps e)) = length ps + card (missing base ps)"
proof -
  have "length (foldl (add_child parent e) ps qs) + card (missing base (foldl (add_child parent e) ps qs)) = length ps + card (missing base ps)" for qs
    by (induction qs arbitrary: ps) (simp_all add: add_child_size [OF assms])
  then show ?thesis by (simp add: add_children_def)
qed

lemma add_all_size:
  "set es \<subseteq> set base \<Longrightarrow> length (foldl (add_children parent) ps es) + card (missing base (foldl (add_children parent) ps es)) =
     length ps + card (missing base ps)"
  by (induction es arbitrary: ps) (simp_all add: add_children_size)

function descend :: "store_entity list \<Rightarrow> string list \<Rightarrow> nat \<Rightarrow> store_entity go_map \<Rightarrow> store_entity go_map" where
  "descend base ps i found =
     (if i < length ps
      then descend base (foldl (add_children (ps ! i)) ps base) (Suc i) (found_entities base (ps ! i) found)
      else found)"
  by pat_completeness auto
termination
  by (relation "measure (\<lambda>(base, ps, i, _). length ps + card (missing base ps) - i)")
    (auto simp: add_all_size)

declare descend.simps [simp del]

definition get_entity_descendents :: "raw_entity list \<Rightarrow> string list \<Rightarrow> store_entity list res" where
  "get_entity_descendents raws ps =
     rbind (get_entities raws) (\<lambda>base. Inr (map snd (descend base ps 0 [])))"

section \<open>The descendants of a set of entities\<close>

text \<open>The specification: what can be reached from the given identifiers, going from parents to children.\<close>

inductive below :: "store_entity list \<Rightarrow> string set \<Rightarrow> string \<Rightarrow> bool" for base start where
  start: "x \<in> start \<Longrightarrow> below base start x"
| child: "below base start p \<Longrightarrow> e \<in> set base \<Longrightarrow> p \<in> set (entity_parents e) \<Longrightarrow> below base start (entity_uid e)"

definition children :: "store_entity list \<Rightarrow> string \<Rightarrow> string set" where
  "children base p = entity_uid ` {e \<in> set base. p \<in> set (entity_parents e)}"

lemma add_children_set:
  "set (add_children p ps e) = (if p \<in> set (entity_parents e) then insert (entity_uid e) (set ps) else set ps)"
proof -
  have "set (foldl (add_child p e) ps qs) = (if p \<in> set qs then insert (entity_uid e) (set ps) else set ps)" for qs
    by (induction qs arbitrary: ps) (auto simp: add_child_def)
  then show ?thesis by (simp add: add_children_def)
qed

lemma add_all_set: "set (foldl (add_children p) ps es) = set ps \<union> children es p"
  by (induction es arbitrary: ps) (auto simp: add_children_set children_def)

text \<open>The work list only grows at its end.\<close>

lemma add_children_prefix: "\<exists>qs. foldl (add_child p e) ps xs = ps @ qs"
proof (induction xs arbitrary: ps)
  case (Cons x xs)
  have "\<exists>qs. add_child p e ps x = ps @ qs" by (simp add: add_child_def)
  then obtain qs where "add_child p e ps x = ps @ qs" by blast
  with Cons [of "ps @ qs"] show ?case by auto
qed simp

lemma add_all_prefix: "\<exists>qs. foldl (add_children p) ps es = ps @ qs"
proof (induction es arbitrary: ps)
  case (Cons e es)
  obtain qs where "add_children p ps e = ps @ qs" unfolding add_children_def using add_children_prefix by metis
  with Cons [of "ps @ qs"] show ?case by auto
qed simp

text \<open>The entity kept for an identifier is the last one of the store.\<close>

definition entity_named :: "store_entity list \<Rightarrow> string \<Rightarrow> store_entity option" where
  "entity_named base x = find (\<lambda>e. entity_uid e = x) (rev base)"

lemma found_entities_map:
  "map_of (found_entities base p found) x =
     (if x = p then (case entity_named base p of Some e \<Rightarrow> Some e | None \<Rightarrow> map_of found x) else map_of found x)"
proof (induction base rule: rev_induct)
  case (snoc e base)
  then show ?case by (auto simp: found_entities_def entity_named_def update_conv)
qed (simp add: found_entities_def entity_named_def)

definition searched :: "store_entity list \<Rightarrow> string set \<Rightarrow> string list \<Rightarrow> nat \<Rightarrow> store_entity go_map \<Rightarrow> bool" where
  "searched base start ps i found \<longleftrightarrow>
     start \<subseteq> set ps \<and> (\<forall>x \<in> set ps. below base start x) \<and> i \<le> length ps \<and>
     (\<forall>x \<in> set (take i ps). children base x \<subseteq> set ps) \<and>
     (\<forall>x. map_of found x = (if x \<in> set (take i ps) then entity_named base x else None))"

lemma searched_step:
  assumes "searched base start ps i found" and "i < length ps"
  shows "searched base start (foldl (add_children (ps ! i)) ps base) (Suc i) (found_entities base (ps ! i) found)"
proof -
  obtain qs where qs: "foldl (add_children (ps ! i)) ps base = ps @ qs" using add_all_prefix by blast
  have set: "set (ps @ qs) = set ps \<union> children base (ps ! i)" by (metis qs add_all_set)
  have take: "take (Suc i) (ps @ qs) = take i ps @ [ps ! i]" using assms(2) by (simp add: take_Suc_conv_app_nth)
  have i: "below base start (ps ! i)" using assms by (simp add: searched_def)
  have "\<forall>x \<in> set (ps @ qs). below base start x"
    using assms(1) i below.child by (auto simp: set searched_def children_def simp del: set_append)
  moreover have "\<forall>x \<in> set (take (Suc i) (ps @ qs)). children base x \<subseteq> set (ps @ qs)"
    unfolding take set using assms(1) by (auto simp: searched_def)
  moreover have "map_of (found_entities base (ps ! i) found) x =
      (if x \<in> set (take (Suc i) (ps @ qs)) then entity_named base x else None)" for x
    unfolding take found_entities_map using assms(1) by (auto simp: searched_def split: option.splits)
  ultimately show ?thesis using assms by (auto simp: searched_def qs)
qed

lemma searched_all:
  assumes "searched base start ps i found" and "\<not> i < length ps"
  shows "map_of found x = (if below base start x then entity_named base x else None)"
proof -
  from assms have closed: "start \<subseteq> set ps" "\<forall>x \<in> set ps. children base x \<subseteq> set ps" by (auto simp: searched_def)
  have "below base start x \<Longrightarrow> x \<in> set ps" for x
  proof (induction rule: below.induct)
    case (child p e)
    then have "entity_uid e \<in> children base p" by (simp add: children_def)
    with child closed(2) show ?case by blast
  qed (use closed in blast)
  with assms show ?thesis by (auto simp: searched_def)
qed

lemma descend_searched:
  "searched base start ps i found \<Longrightarrow>
   map_of (descend base ps i found) x = (if below base start x then entity_named base x else None)"
proof (induction base ps i found rule: descend.induct)
  case (1 base ps i found)
  show ?case
  proof (cases "i < length ps")
    case True
    from 1(1) [OF True searched_step [OF 1(2) True]] True show ?thesis by (simp add: descend.simps [of base ps i])
  next
    case False
    from searched_all [OF 1(2) False] False show ?thesis by (simp add: descend.simps [of base ps i])
  qed
qed

lemma descend_ok: "go_map_ok found \<Longrightarrow> go_map_ok (descend base ps i found)"
proof (induction base ps i found rule: descend.induct)
  case (1 base ps i found)
  have "go_map_ok (found_entities es p f)" if "go_map_ok f" for es p and f :: "store_entity go_map"
    using that by (induction es arbitrary: f) (auto simp: found_entities_def go_map_ok_update)
  with 1 show ?case by (auto simp: descend.simps [of base ps i])
qed

lemma descendents:
  assumes "get_entity_descendents raws ps = Inr es" and "get_entities raws = Inr base"
  shows "set es = {e. \<exists>x. below base (set ps) x \<and> entity_named base x = Some e}"
    and "distinct (map entity_uid es)"
proof -
  let ?found = "descend base ps 0 []"
  have "searched base (set ps) ps 0 []" by (auto simp: searched_def intro: below.start)
  note m = descend_searched [OF this]
  have ok: "go_map_ok ?found" by (rule descend_ok) simp
  have es: "es = map snd ?found" using assms by (simp add: get_entity_descendents_def)
  have "set es = {e. \<exists>x. map_of ?found x = Some e}"
    using ok by (force simp: es)
  then show "set es = {e. \<exists>x. below base (set ps) x \<and> entity_named base x = Some e}"
    by (auto simp: m split: if_splits)
  have "entity_uid e = x" if "(x, e) \<in> set ?found" for x e
  proof -
    from that ok have "map_of ?found x = Some e" by simp
    then have "entity_named base x = Some e" by (auto simp: m split: if_splits)
    then show ?thesis by (auto simp: entity_named_def find_Some_iff)
  qed
  then have "map entity_uid es = map fst ?found" by (force simp: es)
  with ok show "distinct (map entity_uid es)" by simp
qed

section \<open>Policies\<close>

lemma map_cedar_loop_stops:
  "mapM map_cedar_policy ps = Inr hs \<Longrightarrow> map_cedar_policy bad = Inl (Error m) \<Longrightarrow> map_cedar_loop (ps @ bad # qs) = Inr hs"
  by (induction ps arbitrary: hs) (auto simp: rbind_iff)

definition all_scope :: scope_json where
  "all_scope = \<lparr>scope_op = ''All'', scope_entity = None, scope_entities = [], scope_entity_type = [], scope_in = None\<rparr>"

definition open_policy :: "string \<Rightarrow> cedar_clause slice \<Rightarrow> policy_json" where
  "open_policy eff cs = \<lparr>annotations = [], effect = eff, principal_scope = all_scope, action_scope = all_scope,
     resource_scope = all_scope, cedar_conditions = cs\<rparr>"

lemma all_scope [simp]: "map_cedar_scope verb all_scope = Inr (if verb = ''principal'' then [''any''] else [])"
  by (simp add: map_cedar_scope_def all_scope_def)

lemma open_policy_error:
  "map_cedar_condition cs = Inr (c, Some e) \<Longrightarrow> map_cedar_policy (open_policy eff cs) = Inl (Error e)"
  by (simp add: map_cedar_policy_def open_policy_def map_cedar_subject_def map_cedar_resource_def Let_def)

lemma open_policy_maps: "map_cedar_policy (open_policy eff None) = Inr
    \<lparr>meta = \<lparr>meta_version = ''0.7'', source_data = None, description = [], created = None,
       modified = None, etag = [], policy_id = None, pap_id = None, provider_type = []\<rparr>,
     subjects = Some [''any''], actions = Some [], object_info = [], condition = None, scope = None\<rparr>"
  by (simp add: map_cedar_policy_def open_policy_def map_cedar_subject_def map_cedar_resource_def
      map_cedar_condition_def map_cedar_annotations_def)

lemma quoted_not_any: "\<not> equal_fold (x @ quote i) ''any''" "\<not> equal_fold (x @ quote i) ''anyAuthenticated''"
proof -
  have "lower_char dq = dq" by (simp add: lower_others)
  moreover have "dq \<in> set (x @ quote i)" by (simp add: quote_def)
  ultimately have q: "dq \<in> set (to_lower (x @ quote i))" unfolding to_lower_def by (metis image_eqI list.set_map)
  have "to_lower ''any'' = ''any''" "to_lower ''anyAuthenticated'' = ''anyauthenticated''"
    by (simp_all add: to_lower_def lower_others)
  with q show "\<not> equal_fold (x @ quote i) ''any''" "\<not> equal_fold (x @ quote i) ''anyAuthenticated''"
    by (auto simp: equal_fold_def)
qed

lemma scope_entity_roundtrip:
  assumes "printable_entity (EEquals (split_str t ''::'') (quote i))"
  shows "map_hexa_value ''principal'' (entity_string (EEquals (split_str t ''::'') (quote i))) =
    ''principal == '' @ t @ ''::'' @ quote (quote i) @ '',''"
proof -
  have "split_str t ''::'' \<noteq> []" by (simp add: split_str_not_Nil)
  then have e: "entity_string (EEquals (split_str t ''::'') (quote i)) = (join_str (split_str t ''::'') '':'' @ '':'') @ quote i"
    by simp
  show ?thesis
    using parse_printable_entity [OF assms] quoted_not_any [of "join_str (split_str t ''::'') '':'' @ '':''" i]
    unfolding e by (simp add: map_hexa_value_def join_split_str)
qed

section \<open>Properties\<close>

text \<open>Property C11.  The entities found are exactly those below the given ones, each once, and of several with the
  same identifier the last.\<close>

theorem descendents_found:
  assumes "get_entity_descendents raws ps = Inr es" and "get_entities raws = Inr base"
  shows "set es = {e. \<exists>x. below base (set ps) x \<and> entity_named base x = Some e} \<and> distinct (map entity_uid es)"
  using descendents [OF assms] by simp

lemma entity_named_mem: "entity_named base x = Some e \<Longrightarrow> e \<in> set base"
  by (auto simp: entity_named_def find_Some_iff) (metis length_rev nth_mem set_rev)

definition raw_photo :: "string \<Rightarrow> string list \<Rightarrow> raw_entity" where
  "raw_photo i ps = \<lparr>raw_uid = i, raw_parents = ps, raw_attrs = [], raw_entity_id = None, raw_identifier = None,
     raw_name_parents = [], raw_attributes = []\<rparr>"

theorem descendents_found_witness:
  "\<exists>es. get_entity_descendents [raw_photo ''a'' [''b''], raw_photo ''b'' [''a'']] [''b''] = Inr es \<and> length es = 2"
proof -
  let ?raws = "[raw_photo ''a'' [''b''], raw_photo ''b'' [''a'']]"
  let ?a = "\<lparr>entity_uid = ''a'', entity_parents = [''b''], attributes = []\<rparr>"
  let ?b = "\<lparr>entity_uid = ''b'', entity_parents = [''a''], attributes = []\<rparr>"
  have base: "get_entities ?raws = Inr [?a, ?b]" by (simp add: get_entities_def store_entity_of_def raw_photo_def)
  then obtain es where es: "get_entity_descendents ?raws [''b''] = Inr es" by (simp add: get_entity_descendents_def)
  have "below [?a, ?b] {''b''} ''b''" by (simp add: below.start)
  from below.child [OF this, of ?a] have "below [?a, ?b] {''b''} ''a''" by simp
  have found: "set es = {e. \<exists>x. below [?a, ?b] {''b''} x \<and> entity_named [?a, ?b] x = Some e}"
    using descendents_found [OF es base] by simp
  have "entity_named [?a, ?b] ''a'' = Some ?a" "entity_named [?a, ?b] ''b'' = Some ?b" by (simp_all add: entity_named_def)
  with \<open>below [?a, ?b] {''b''} ''a''\<close> \<open>below [?a, ?b] {''b''} ''b''\<close> have "{?a, ?b} \<subseteq> set es" unfolding found by blast
  moreover have "set es \<subseteq> {?a, ?b}" unfolding found using entity_named_mem [of "[?a, ?b]"] by auto
  ultimately have "set es = {?a, ?b}" by blast
  then have "card (set es) = 2" by simp
  moreover have "distinct es" using descendents_found [OF es base] distinct_map by blast
  ultimately show ?thesis using es distinct_card by fastforce
qed

text \<open>A Cedar policy that cannot be translated silently ends the translation: the policies before it
  are returned and those after it are missing, without an error.\<close>

lemma cedar_policies_truncated:
  assumes "cedar_parse text = Inr (ps @ bad # qs)" and "mapM map_cedar_policy ps = Inr hs"
    and "map_cedar_policy bad = Inl (Error m)"
  shows "map_cedar_policies cedar_parse location text = Inr \<lparr>policy_list = Some hs, app = Some location\<rparr>"
  using assms map_cedar_loop_stops by (simp add: map_cedar_policies_def)

definition unsupported_policy :: policy_json where
  "unsupported_policy = open_policy ''permit'' (Some [\<lparr>clause_kind = ''when'', clause_body = NAccess (NVar ''context'') ''mfa''\<rparr>])"

text \<open>The effect of a Cedar policy is lost: a policy that forbids everything becomes one that permits
  everything, and is written as such.\<close>

lemma cedar_effect_lost:
  "\<exists>h. map_cedar_policy (open_policy eff None) = Inr h \<and>
    map_hexa_policy cm h = Inr (''permit ('' @ newline @ ''  principal,'' @ newline @ ''  action,'' @ newline @
      ''  resource'' @ newline @ '');'' @ newline)"
  by (simp add: open_policy_maps map_hexa_policy_def map_condition_to_cedar_def map_hexa_subjects_def equal_fold_def
      write_cedar_policy_def map_hexa_annotations_def map_hexa_action_def map_hexa_resource_def map_hexa_value_def)

text \<open>A principal of a Cedar policy that is a single entity is written back with its identifier quoted
  twice.\<close>

lemma cedar_principal_quoted_twice:
  assumes "scope_op sc = ''==''" and "scope_entity sc = Some u" and "map_cedar_scope ''principal'' sc = Inr [m]"
    and "printable_entity (EEquals (split_str (uid_type u) ''::'') (quote (uid_id u)))"
  shows "map_hexa_value ''principal'' m = ''principal == '' @ uid_type u @ ''::'' @ quote (quote (uid_id u)) @ '',''"
proof -
  have "m = entity_string (EEquals (split_str (uid_type u) ''::'') (quote (uid_id u)))"
    using assms(1-3) by (simp add: map_cedar_scope_def go_deref_def)
  with scope_entity_roundtrip [OF assms(4)] show ?thesis by simp
qed

end
