(* ===== verification/Avp_Provider.thy ===== *)
theory Avp_Provider
  imports Avp_Client Cedar_Mapper Policy_Reconcile
begin

text \<open>
  The provider for Amazon Verified Permissions, \<^verbatim>\<open>providers/aws/avpProvider/avp_provider.go\<close>:
  \<open>GetPolicyInfo\<close> reads the policies of a store as IDQL, \<open>Reconcile\<close> compares them with wanted ones
  and \<open>SetPolicyInfo\<close> makes the requests that turn the former into the latter.
\<close>

section \<open>Metadata\<close>

definition static_type :: string where "static_type = ''STATIC''"

definition linked_type :: string where "linked_type = ''TEMPLATE_LINKED''"

text \<open>The principal and the resource of the source data are pointers of the SDK.\<close>

definition entity_pointer :: source_value where
  "entity_pointer = SOther ''*types.EntityIdentifier''"

definition map_avp_meta :: "avp_item \<Rightarrow> meta_info" where
  "map_avp_meta item =
     \<lparr>meta_version = ''0.7'',
      source_data = Some [(''principal'', entity_pointer), (''resource'', entity_pointer),
                          (''policyType'', SText static_type)],
      description = [], created = item_created item, modified = item_updated item, etag = [],
      policy_id = item_policy_id item, pap_id = item_store_id item, provider_type = ''avp''\<rparr>"

definition map_avp_template :: "template_output \<Rightarrow> meta_info" where
  "map_avp_template item =
     \<lparr>meta_version = ''0.7'', source_data = Some [(''policyType'', SText linked_type)],
      description = [], created = template_created item, modified = template_updated item, etag = [],
      policy_id = template_id item, pap_id = template_store_id item, provider_type = ''avp''\<rparr>"

definition is_template :: "policy_info \<Rightarrow> bool" where
  "is_template p =
     (case source_data (meta p) of
        None \<Rightarrow> ''?principal'' \<in> set (elems (subjects p)) \<or> contains_str (object_info p) ''?resource''
      | Some d \<Rightarrow> map_of d ''policyType'' = Some (SText linked_type))"

section \<open>GetPolicyInfo\<close>

text \<open>The provider: its mapper, which may be nil, and the Cedar parser and hash it calls.\<close>

record avp_provider =
  avp_mapper :: "cedar_mapper option"
  avp_parse :: "string \<Rightarrow> string + policy_json list"
  avp_hash :: "string \<Rightarrow> string"

definition map_statement :: "avp_provider \<Rightarrow> string \<Rightarrow> string \<Rightarrow> policy_info res" where
  "map_statement a app_id statement =
     (case avp_parse a statement of
        Inl e \<Rightarrow> Inl (Error e)
      | Inr _ \<Rightarrow>
          rbind (go_deref (avp_mapper a)) (\<lambda>_.
          rbind (map_cedar_policies (avp_parse a) app_id statement) (\<lambda>ps.
            go_index (elems (policy_list ps)) 0)))"

definition map_static_policy :: "avp_provider \<Rightarrow> 's avp_client \<Rightarrow> string \<Rightarrow> avp_item \<Rightarrow> policy_info res" where
  "map_static_policy a c app_id item =
     rbind (go_deref (item_policy_id item)) (\<lambda>i.
     rbind (avp_get_policy c i) (\<lambda>detail.
       case detail of
         OtherDetail \<Rightarrow> Inl (Panic ''interface conversion'')
       | StaticDetail d \<Rightarrow>
           rbind (go_deref (detail_statement d)) (\<lambda>statement.
           rbind (map_statement a app_id statement) (\<lambda>p.
           rbind (go_deref (detail_description d)) (\<lambda>desc.
           rbind (calculate_etag (avp_hash a) (p\<lparr>meta := (map_avp_meta item)\<lparr>description := desc\<rparr>\<rparr>)) (\<lambda>(p', _).
             Inr p'))))))"

text \<open>The placeholders of a template are written as entities of a type \<open>Template\<close>, for the parser.\<close>

definition hide_placeholders :: "string \<Rightarrow> string" where
  "hide_placeholders s =
     replace_all (replace_all s ''?principal'' (''Template::'' @ quote ''principal''))
       ''?resource'' (''Template::'' @ quote ''resource'')"

definition map_linked_policy :: "avp_provider \<Rightarrow> 's avp_client \<Rightarrow> string \<Rightarrow> avp_item \<Rightarrow> policy_info res" where
  "map_linked_policy a c app_id item =
     (case item_definition item of
        OtherItem \<Rightarrow> Inl (Panic ''interface conversion'')
      | LinkedItem tid \<Rightarrow>
          rbind (go_deref tid) (\<lambda>t.
          rbind (avp_get_template c t) (\<lambda>out.
          rbind (go_deref (template_statement out)) (\<lambda>statement.
          rbind (map_statement a app_id (hide_placeholders statement)) (\<lambda>p.
            let m = map_avp_template out;
                d = elems (source_data m) @ [(''resource'', entity_pointer), (''principal'', entity_pointer)];
                m' = m\<lparr>source_data := Some d,
                       description := (case template_description out of None \<Rightarrow> [] | Some t \<Rightarrow> t)\<rparr>
            in rbind (calculate_etag (avp_hash a) (p\<lparr>meta := m'\<rparr>)) (\<lambda>(p', _). Inr p'))))))"

definition map_avp_policy :: "avp_provider \<Rightarrow> 's avp_client \<Rightarrow> string \<Rightarrow> avp_item \<Rightarrow> policy_info list res" where
  "map_avp_policy a c app_id item =
     (if item_type item = static_type then rbind (map_static_policy a c app_id item) (\<lambda>p. Inr [p])
      else if item_type item = linked_type then rbind (map_linked_policy a c app_id item) (\<lambda>p. Inr [p])
      else Inr [])"

definition connect :: "'s avp_client \<Rightarrow> unit res" where
  "connect c = go_error (avp_connect c)"

definition get_policy_info :: "avp_provider \<Rightarrow> 's avp_client \<Rightarrow> string \<Rightarrow> policy_info list res" where
  "get_policy_info a c app_id =
     rbind (connect c) (\<lambda>_.
     rbind (avp_list_policies c) (\<lambda>items.
     rbind (mapM (map_avp_policy a c app_id) items) (\<lambda>pss. Inr (concat pss))))"

text \<open>The service's answer is the text of a schema, or an error; what the text means is for its parser.\<close>

definition get_schema :: "'s avp_client \<Rightarrow> (string \<Rightarrow> string option res) \<Rightarrow> (string \<Rightarrow> 'n res) \<Rightarrow> string \<Rightarrow> 'n res" where
  "get_schema c answer parse app_id =
     rbind (connect c) (\<lambda>_. rbind (answer app_id) (\<lambda>text. rbind (go_deref text) parse))"

definition discover_applications ::
  "'s avp_client \<Rightarrow> (nat \<Rightarrow> (store_item list \<times> string option) res) \<Rightarrow> string \<Rightarrow> application_info list res" where
  "discover_applications c stores info_name =
     (if \<not> equal_fold info_name ''avp'' then Inr []
      else rbind (connect c) (\<lambda>_. list_stores stores))"

section \<open>Reconcile\<close>

text \<open>The differences of this provider have no id and no hash of their own.\<close>

definition avp_dif :: "change_type \<Rightarrow> difference slice \<Rightarrow> policy_info slice \<Rightarrow> policy_info option \<Rightarrow> policy_dif" where
  "avp_dif ty types exist compare =
     \<lparr>dif_type = ty, dif_policy_id = [], dif_hash = [], dif_types = types, policy_exist = exist,
      policy_compare = compare\<rparr>"

definition zero_policy :: policy_info where
  "zero_policy =
     \<lparr>meta = \<lparr>meta_version = [], source_data = None, description = [], created = None, modified = None,
              etag = [], policy_id = None, pap_id = None, provider_type = []\<rparr>,
      subjects = None, actions = None, object_info = [], condition = None, scope = None\<rparr>"

text \<open>The existing policies not handled yet, by id, and the differences found.\<close>

type_synonym avp_state = "policy_info go_map \<times> policy_dif list"

definition index_existing :: "policy_info go_map \<Rightarrow> policy_info \<Rightarrow> policy_info go_map res" where
  "index_existing m p = rbind (go_deref (policy_id (meta p))) (\<lambda>i. Inr (AList.update i p m))"

definition assume_new :: "avp_provider \<Rightarrow> policy_info \<Rightarrow> avp_state \<Rightarrow> avp_state res" where
  "assume_new a p = (\<lambda>(m, ds).
     if is_template p then rbind (calculate_etag (avp_hash a) p) (\<lambda>_. Inr (m, ds))
     else Inr (m, ds @ [avp_dif ChangeNew None None (Some p)]))"

definition compare_existing ::
  "avp_provider \<Rightarrow> bool \<Rightarrow> policy_info \<Rightarrow> string \<Rightarrow> policy_info \<Rightarrow> avp_state \<Rightarrow> avp_state res" where
  "compare_existing a diffs_only p i source = (\<lambda>(m, ds).
     rbind (compare_policies (avp_hash a) p source) (\<lambda>(p', types).
       if CompareEqual \<in> set types then
         Inr (AList.delete i m,
              ds @ (if diffs_only then [] else [avp_dif ChangeEqual None (Some [source]) (Some p')]))
       else
         Inr (AList.delete i m, ds @ [avp_dif ChangeUpdate (Some types) (Some [source]) (Some p')])))"

definition avp_reconcile_policy :: "avp_provider \<Rightarrow> bool \<Rightarrow> avp_state \<Rightarrow> policy_info \<Rightarrow> avp_state res" where
  "avp_reconcile_policy a diffs_only st p =
     (if provider_type (meta p) = ''avp'' then
        rbind (go_deref (policy_id (meta p))) (\<lambda>i.
          if is_template p then
            Inr (AList.delete i (fst st),
                 snd st @ [avp_dif ChangeIgnore None
                   (Some [case map_of (fst st) i of None \<Rightarrow> zero_policy | Some s \<Rightarrow> s]) (Some p)])
          else
            (case map_of (fst st) i of
               Some source \<Rightarrow> compare_existing a diffs_only p i source st
             | None \<Rightarrow> assume_new a p st))
      else assume_new a p st)"

definition avp_reconcile ::
  "avp_provider \<Rightarrow> 's avp_client \<Rightarrow> string \<Rightarrow> policy_info list \<Rightarrow> bool \<Rightarrow> policy_dif list res" where
  "avp_reconcile a c app_id wanted diffs_only =
     rbind (get_policy_info a c app_id) (\<lambda>existing.
     rbind (foldM index_existing [] existing) (\<lambda>m0.
     rbind (foldM (avp_reconcile_policy a diffs_only) (m0, []) wanted) (\<lambda>(m, ds).
       Inr (ds @ map (\<lambda>(_, p). avp_dif ChangeDelete None (Some [p]) None) m))))"

section \<open>SetPolicyInfo\<close>

definition convert_cedar_statement :: "avp_provider \<Rightarrow> policy_info \<Rightarrow> string res" where
  "convert_cedar_statement a p =
     rbind (go_deref (avp_mapper a)) (\<lambda>cm.
     rbind (map_hexa_policies cm [p]) (\<lambda>s.
       Inr (replace_all (replace_all s (''Template::'' @ quote ''principal'') ''?principal'')
              (''Template::'' @ quote ''resource'') ''?resource'')))"

definition prepare_create :: "avp_provider \<Rightarrow> string \<Rightarrow> policy_info \<Rightarrow> create_input res" where
  "prepare_create a app_id p =
     rbind (convert_cedar_statement a p) (\<lambda>statement.
     rbind (calculate_etag (avp_hash a) p) (\<lambda>(p', e).
       Inr \<lparr>create_store = app_id, create_statement = statement,
            create_description =
              (if description (meta p) \<noteq> [] then description (meta p)
               else ''Mapped from IDQL (etag: '' @ e @ '')'')\<rparr>))"

definition prepare_update :: "avp_provider \<Rightarrow> policy_info \<Rightarrow> update_input res" where
  "prepare_update a p =
     rbind (convert_cedar_statement a p) (\<lambda>statement.
       Inr \<lparr>update_id = policy_id (meta p), update_store = pap_id (meta p), update_statement = statement,
            update_description = description (meta p)\<rparr>)"

text \<open>A template has no deletion: the input is nil.\<close>

definition prepare_delete :: "meta_info \<Rightarrow> delete_input option" where
  "prepare_delete m =
     (if map_of (elems (source_data m)) ''policyType'' = Some (SText linked_type) then None
      else Some \<lparr>delete_id = policy_id m, delete_store = pap_id m\<rparr>)"

definition create_policy :: "avp_provider \<Rightarrow> 's avp_client \<Rightarrow> string \<Rightarrow> policy_info \<Rightarrow> ('s, unit) run" where
  "create_policy a c app_id p =
     run_bind (pure_run 400 (prepare_create a app_id p)) (\<lambda>input.
     run_bind (request 400 (\<lambda>s. avp_perform c s (CreateCall input))) (\<lambda>new_id.
     run_bind (pure_run 400 (go_deref new_id)) (\<lambda>_. pure_run 400 (Inr ()))))"

definition delete_policy :: "'s avp_client \<Rightarrow> policy_info \<Rightarrow> ('s, unit) run" where
  "delete_policy c p =
     run_bind (request 400 (\<lambda>s. avp_perform c s (DeleteCall (prepare_delete (meta p))))) (\<lambda>_.
     run_bind (pure_run 400 (go_deref (policy_id (meta p)))) (\<lambda>_. pure_run 400 (Inr ())))"

definition update_policy :: "avp_provider \<Rightarrow> 's avp_client \<Rightarrow> string \<Rightarrow> difference list \<Rightarrow> policy_info \<Rightarrow> ('s, unit) run" where
  "update_policy a c app_id types p =
     (if provider_type (meta p) \<noteq> ''avp'' then pure_run 400 (Inr ())
      else
        run_bind (pure_run 400 (go_deref (policy_id (meta p)))) (\<lambda>_.
          if DifSubject \<in> set types \<or> DifObject \<in> set types then
            run_bind (request 400 (\<lambda>s. avp_perform c s (DeleteCall (prepare_delete (meta p))))) (\<lambda>_. create_policy a c app_id p)
          else if DifAction \<in> set types \<or> DifCondition \<in> set types then
            run_bind (pure_run 400 (prepare_update a p)) (\<lambda>input.
            run_bind (request 400 (\<lambda>s. avp_perform c s (UpdateCall input))) (\<lambda>_. pure_run 400 (Inr ())))
          else pure_run 400 (Inr ())))"

definition apply_dif :: "avp_provider \<Rightarrow> 's avp_client \<Rightarrow> string \<Rightarrow> policy_dif \<Rightarrow> ('s, unit) run" where
  "apply_dif a c app_id d =
     (case dif_type d of
        ChangeNew \<Rightarrow>
          run_bind (pure_run 400 (go_deref (policy_compare d))) (\<lambda>p.
            if is_template p then
              run_bind (pure_run 400 (calculate_etag (avp_hash a) p)) (\<lambda>_. pure_run 400 (Inr ()))
            else create_policy a c app_id p)
      | ChangeDelete \<Rightarrow> run_all (delete_policy c) (elems (policy_exist d))
      | ChangeUpdate \<Rightarrow>
          run_bind (pure_run 400 (go_deref (policy_compare d))) (\<lambda>p.
            update_policy a c app_id (elems (dif_types d)) p)
      | _ \<Rightarrow> pure_run 400 (Inr ()))"

definition set_policy_info ::
  "avp_provider \<Rightarrow> 's avp_client \<Rightarrow> string \<Rightarrow> policy_info list \<Rightarrow> ('s, nat) run" where
  "set_policy_info a c app_id wanted =
     run_bind (pure_run 500 (connect c)) (\<lambda>_.
     run_bind (pure_run 500 (avp_reconcile a c app_id wanted True)) (\<lambda>ds.
     run_bind (run_all (apply_dif a c app_id) ds) (\<lambda>_. pure_run 200 (Inr 200))))"

end
