(* ===== verification/Avp_Sync.thy ===== *)
theory Avp_Sync
  imports Avp_Provider
begin

text \<open>
  What \<open>SetPolicyInfo\<close> of the Amazon Verified Permissions provider does to the policy store.

  The service is known by its documentation only: \<open>avp_service\<close> and \<open>lists_store\<close> state it for a view
  of the service's state as the statements of one store by policy id.  Under them a successful
  run leaves exactly one policy per wanted policy (\<open>avp_reaches_target\<close>); a run that fails half way
  can lose one (\<open>avp_replacement_lost\<close>).
\<close>

section \<open>What the documentation of the service says\<close>

text \<open>
  The policies of one store, as statements by id.  A created policy gets an unused id; an update
  replaces a statement, a deletion removes it.  Nothing is said of a failed request.
\<close>

definition avp_service :: "'s avp_client \<Rightarrow> string \<Rightarrow> ('s \<Rightarrow> string \<rightharpoonup> string) \<Rightarrow> bool" where
  "avp_service c app_id contents \<longleftrightarrow>
     (\<forall>s t input r. avp_perform c s (CreateCall input) = (t, Inr r) \<and> create_store input = app_id \<longrightarrow>
        (\<exists>i. r = Some i \<and> contents s i = None \<and> contents t = (contents s)(i \<mapsto> create_statement input))) \<and>
     (\<forall>s t u r i. avp_perform c s (UpdateCall u) = (t, Inr r) \<and> update_store u = Some app_id \<and> update_id u = Some i \<longrightarrow>
        contents t = (contents s)(i \<mapsto> update_statement u)) \<and>
     (\<forall>s t d r i. avp_perform c s (DeleteCall (Some d)) = (t, Inr r) \<and> delete_store d = Some app_id \<and> delete_id d = Some i \<longrightarrow>
        contents t = (contents s)(i := None))"

text \<open>The listing has exactly the policies of the store, all of them static ones.\<close>

definition lists_store :: "'s avp_client \<Rightarrow> string \<Rightarrow> (string \<rightharpoonup> string) \<Rightarrow> bool" where
  "lists_store c app_id store \<longleftrightarrow>
     (\<exists>items. avp_list_policies c = Inr items \<and> item_policy_id ` set items = Some ` dom store \<and>
        (\<forall>item \<in> set items. item_type item = static_type \<and> item_store_id item = Some app_id))"

section \<open>Requests that succeed\<close>

lemma create_effect:
  assumes "avp_service c app_id contents" and "create_policy a c app_id p s = (t, Inr ())"
  shows "\<exists>i text. convert_cedar_statement a p = Inr text \<and> contents s i = None \<and> contents t = (contents s)(i \<mapsto> text)"
proof -
  from assms(2) obtain input r where i: "prepare_create a app_id p = Inr input"
    and r: "avp_perform c s (CreateCall input) = (t, Inr r)"
    by (auto simp: create_policy_def rbind_iff)
  from i have "convert_cedar_statement a p = Inr (create_statement input)" "create_store input = app_id"
    by (auto simp: prepare_create_def rbind_iff)
  with assms(1) r show ?thesis unfolding avp_service_def by blast
qed

lemma prepare_delete_static:
  "\<not> is_template p \<Longrightarrow> prepare_delete (meta p) = Some \<lparr>delete_id = policy_id (meta p), delete_store = pap_id (meta p)\<rparr>"
  by (auto simp: prepare_delete_def is_template_def split: option.splits)

lemma delete_effect:
  assumes "avp_service c app_id contents" and "avp_perform c s (DeleteCall (prepare_delete (meta p))) = (t, Inr r)"
    and "\<not> is_template p" and "policy_id (meta p) = Some i" and "pap_id (meta p) = Some app_id"
  shows "contents t = (contents s)(i := None)"
proof -
  have "avp_perform c s (DeleteCall (Some \<lparr>delete_id = Some i, delete_store = Some app_id\<rparr>)) = (t, Inr r)"
    using assms(2-5) by (simp add: prepare_delete_static)
  with assms(1) show ?thesis unfolding avp_service_def by (metis delete_input.select_convs)
qed

lemma update_effect:
  assumes "avp_service c app_id contents" and "prepare_update a p = Inr input"
    and "avp_perform c s (UpdateCall input) = (t, Inr r)"
    and "policy_id (meta p) = Some i" and "pap_id (meta p) = Some app_id"
  shows "\<exists>text. convert_cedar_statement a p = Inr text \<and> contents t = (contents s)(i \<mapsto> text)"
proof -
  from assms(2,4,5) have "convert_cedar_statement a p = Inr (update_statement input)"
    "update_store input = Some app_id" "update_id input = Some i"
    by (auto simp: prepare_update_def rbind_iff)
  with assms(1,3) show ?thesis unfolding avp_service_def by blast
qed

lemma compare_shape:
  assumes "compare_policies gen p q = Inr (p', ts)"
  shows "\<exists>v. p' = p\<lparr>meta := (meta p)\<lparr>etag := v\<rparr>\<rparr>"
    and "CompareEqual \<in> set ts \<Longrightarrow> ts = [CompareEqual]"
    and "CompareEqual \<notin> set ts \<Longrightarrow> \<exists>d \<in> set ts. d = DifSubject \<or> d = DifObject \<or> d = DifAction \<or> d = DifCondition"
proof -
  from assms show "\<exists>v. p' = p\<lparr>meta := (meta p)\<lparr>etag := v\<rparr>\<rparr>"
    by (auto simp: compare_policies_def policy_equals_def calculate_etag_def rbind_iff Let_def split: if_splits)
  from assms show "CompareEqual \<in> set ts \<Longrightarrow> ts = [CompareEqual]"
    by (auto simp: compare_policies_def rbind_iff Let_def split: if_splits)
  from assms have "ts \<noteq> []" by (auto simp: compare_policies_def rbind_iff Let_def split: if_splits)
  then obtain d where "d \<in> set ts" by (cases ts) auto
  then show "CompareEqual \<notin> set ts \<Longrightarrow> \<exists>d \<in> set ts. d = DifSubject \<or> d = DifObject \<or> d = DifAction \<or> d = DifCondition"
    by (intro bexI [of _ d]) (cases d, auto)
qed

text \<open>The hash of a policy is in none of the statements made from it.\<close>

lemma etag_not_in_statement [simp]:
  "map_hexa_policy cm (p\<lparr>meta := (meta p)\<lparr>etag := v\<rparr>\<rparr>) = map_hexa_policy cm p"
  "convert_cedar_statement a (p\<lparr>meta := (meta p)\<lparr>etag := v\<rparr>\<rparr>) = convert_cedar_statement a p"
  "is_template (p\<lparr>meta := (meta p)\<lparr>etag := v\<rparr>\<rparr>) = is_template p"
proof -
  show *: "map_hexa_policy cm (p\<lparr>meta := (meta p)\<lparr>etag := v\<rparr>\<rparr>) = map_hexa_policy cm p" for cm
    by (simp add: map_hexa_policy_def map_hexa_annotations_def map_hexa_subjects_def map_hexa_action_def map_hexa_resource_def)
  show "convert_cedar_statement a (p\<lparr>meta := (meta p)\<lparr>etag := v\<rparr>\<rparr>) = convert_cedar_statement a p"
    by (simp add: convert_cedar_statement_def map_hexa_policies_def *)
  show "is_template (p\<lparr>meta := (meta p)\<lparr>etag := v\<rparr>\<rparr>) = is_template p"
    by (simp add: is_template_def split: option.splits)
qed

section \<open>One wanted policy\<close>

abbreviation ids_of :: "policy_info go_map \<Rightarrow> string set" where
  "ids_of m \<equiv> fst ` set m"

text \<open>The entries of the index are static policies of the store, under their ids.\<close>

definition index_good :: "string \<Rightarrow> policy_info go_map \<Rightarrow> bool" where
  "index_good app_id m \<longleftrightarrow>
     go_map_ok m \<and>
     (\<forall>(i, p) \<in> set m. policy_id (meta p) = Some i \<and> pap_id (meta p) = Some app_id \<and> \<not> is_template p)"

text \<open>A policy of the store stands for a wanted one: its statement is the wanted one's, or it was there
  before, is as it was, and compares equal.\<close>

definition stands_for ::
  "avp_provider \<Rightarrow> (string \<Rightarrow> policy_info \<Rightarrow> bool) \<Rightarrow> (string \<rightharpoonup> string) \<Rightarrow> (string \<rightharpoonup> string) \<Rightarrow> policy_info \<Rightarrow> string \<Rightarrow> bool" where
  "stands_for a existing before after p i \<longleftrightarrow>
     (\<exists>stmt. after i = Some stmt \<and> convert_cedar_statement a p = Inr stmt) \<or>
     (\<exists>q. existing i q \<and> same_policy (avp_hash a) p q \<and> after i = before i)"

definition plain_wanted :: "string \<Rightarrow> policy_info \<Rightarrow> bool" where
  "plain_wanted app_id p \<longleftrightarrow>
     \<not> is_template p \<and> (provider_type (meta p) = ''avp'' \<longrightarrow> pap_id (meta p) = Some app_id)"

lemma delete_entries [simp]: "ids_of (AList.delete i m) = ids_of m - {i}" "set (AList.delete i m) \<subseteq> set m"
  by (auto simp: AList.delete_eq image_iff)

lemma index_good_delete [simp]: "index_good app_id m \<Longrightarrow> index_good app_id (AList.delete i m)"
  using delete_entries(2) [of i m] go_map_ok_delete [of m i] unfolding index_good_def by blast

text \<open>What handling one wanted policy does to the index and to the store.\<close>

definition handled ::
  "avp_provider \<Rightarrow> policy_info \<Rightarrow> policy_info go_map \<Rightarrow> policy_info go_map \<Rightarrow> (string \<rightharpoonup> string) \<Rightarrow> (string \<rightharpoonup> string) \<Rightarrow> string \<Rightarrow> bool" where
  "handled a p m m' before after j \<longleftrightarrow>
     set m' \<subseteq> set m \<and> dom after = insert j (dom before - (ids_of m - ids_of m')) \<and>
     j \<notin> dom before - (ids_of m - ids_of m') \<and>
     (\<forall>x \<in> dom before - (ids_of m - ids_of m'). after x = before x) \<and>
     stands_for a (\<lambda>i q. (i, q) \<in> set m) before after p j"

text \<open>A new policy, and an existing one that is kept, updated or replaced.\<close>

lemma created_handled:
  assumes "avp_service c app_id contents" and "create_policy a c app_id p s = (t, Inr ())"
  shows "\<exists>j. handled a p m m (contents s) (contents t) j"
proof -
  from create_effect [OF assms] obtain j stmt where
    "convert_cedar_statement a p = Inr stmt" "contents s j = None" "contents t = (contents s)(j \<mapsto> stmt)" by blast
  then have "handled a p m m (contents s) (contents t) j" by (auto simp: handled_def stands_for_def)
  then show ?thesis ..
qed

lemma kept_handled:
  assumes "(i, q) \<in> set m" and "i \<in> dom (contents s)" and "same_policy (avp_hash a) p q"
  shows "handled a p m (AList.delete i m) (contents s) (contents s) i"
proof -
  from assms(1) have "ids_of m - (ids_of m - {i}) = {i}" by force
  with assms show ?thesis
    using delete_entries(2) [of i m] by (auto simp: handled_def stands_for_def)
qed

lemma updated_handled:
  assumes "(i, q) \<in> set m" and "i \<in> dom before" and "convert_cedar_statement a p = Inr stmt"
  shows "handled a p m (AList.delete i m) before (before(i \<mapsto> stmt)) i"
proof -
  from assms(1) have "ids_of m - (ids_of m - {i}) = {i}" by force
  with assms show ?thesis
    using delete_entries(2) [of i m] by (auto simp: handled_def stands_for_def)
qed

lemma replaced_handled:
  assumes "(i, q) \<in> set m" and "(before(i := None)) j = None" and "convert_cedar_statement a p = Inr stmt"
  shows "handled a p m (AList.delete i m) before (before(i := None, j \<mapsto> stmt)) j"
proof -
  from assms(1) have "ids_of m - (ids_of m - {i}) = {i}" by force
  with assms show ?thesis
    using delete_entries(2) [of i m] by (auto simp: handled_def stands_for_def split: if_splits)
qed

lemma update_handled:
  assumes service: "avp_service c app_id contents"
    and cmp: "compare_policies (avp_hash a) p q = Inr (p', ts)" and dif: "CompareEqual \<notin> set ts"
    and p: "plain_wanted app_id p" "provider_type (meta p) = ''avp''" "policy_id (meta p) = Some i"
    and m: "(i, q) \<in> set m" "i \<in> dom (contents s)"
    and run: "update_policy a c app_id ts p' s = (t, Inr ())"
  shows "\<exists>j. handled a p m (AList.delete i m) (contents s) (contents t) j"
proof -
  from compare_shape(1) [OF cmp] obtain v where p': "p' = p\<lparr>meta := (meta p)\<lparr>etag := v\<rparr>\<rparr>" ..
  with p have ids: "provider_type (meta p') = ''avp''" "policy_id (meta p') = Some i" "pap_id (meta p') = Some app_id"
    "\<not> is_template p'" "convert_cedar_statement a p' = convert_cedar_statement a p"
    by (simp_all add: plain_wanted_def)
  show ?thesis
  proof (cases "DifSubject \<in> set ts \<or> DifObject \<in> set ts")
    case True
    with run ids obtain u r where
      del: "avp_perform c s (DeleteCall (prepare_delete (meta p'))) = (u, Inr r)"
      and create: "create_policy a c app_id p' u = (t, Inr ())"
      by (auto simp: update_policy_def rbind_iff)
    have u: "contents u = (contents s)(i := None)"
      by (rule delete_effect [OF service del ids(4,2,3)])
    from create_effect [OF service create] u ids(5) obtain j stmt where
      "convert_cedar_statement a p = Inr stmt" "((contents s)(i := None)) j = None"
      "contents t = (contents s)(i := None, j \<mapsto> stmt)" by auto
    then show ?thesis using replaced_handled [OF m(1)] by metis
  next
    case False
    with compare_shape(3) [OF cmp dif] have "DifAction \<in> set ts \<or> DifCondition \<in> set ts" by blast
    with False run ids obtain input r where
      "prepare_update a p' = Inr input" "avp_perform c s (UpdateCall input) = (t, Inr r)"
      by (auto simp: update_policy_def rbind_iff)
    from update_effect [OF service this ids(2,3)] ids(5) obtain stmt where
      "convert_cedar_statement a p = Inr stmt" "contents t = (contents s)(i \<mapsto> stmt)" by auto
    then show ?thesis using updated_handled [OF m(1) m(2)] by metis
  qed
qed

text \<open>One step of the comparison followed by the requests its difference makes.\<close>

lemma step_handled:
  assumes service: "avp_service c app_id contents" and good: "index_good app_id m"
    and known: "ids_of m \<subseteq> dom (contents s)" and p: "plain_wanted app_id p"
    and step: "avp_reconcile_policy a True (m, ds) p = Inr (m', ds')"
  shows "\<exists>new. ds' = ds @ new \<and> (run_all (apply_dif a c app_id) new s = (t, Inr ()) \<longrightarrow>
      (\<exists>j. handled a p m m' (contents s) (contents t) j))"
proof -
  have t: "\<not> is_template p" using p by (simp add: plain_wanted_def)
  have fresh: "\<exists>new. ds' = ds @ new \<and> (run_all (apply_dif a c app_id) new s = (t, Inr ()) \<longrightarrow>
      (\<exists>j. handled a p m m' (contents s) (contents t) j))" if "assume_new a p (m, ds) = Inr (m', ds')"
  proof -
    from that t have "m' = m" "ds' = ds @ [avp_dif ChangeNew None None (Some p)]"
      by (simp_all add: assume_new_def)
    moreover have "create_policy a c app_id p s = (t, Inr ())"
      if "run_all (apply_dif a c app_id) [avp_dif ChangeNew None None (Some p)] s = (t, Inr ())"
      using that t by (auto simp: rbind_iff apply_dif_def avp_dif_def)
    ultimately show ?thesis using created_handled [OF service] by blast
  qed
  show ?thesis
  proof (cases "provider_type (meta p) = ''avp''")
    case False
    with step fresh show ?thesis by (simp add: avp_reconcile_policy_def)
  next
    case avp: True
    with step obtain i where i: "policy_id (meta p) = Some i"
      by (auto simp: avp_reconcile_policy_def rbind_iff)
    show ?thesis
    proof (cases "map_of m i")
      case None
      with avp i t step fresh show ?thesis by (simp add: avp_reconcile_policy_def go_deref_def)
    next
      case (Some q)
      then have q: "(i, q) \<in> set m" by (rule map_of_SomeD)
      with known have dom: "i \<in> dom (contents s)" by force
      from avp i t Some step obtain p' ts where cmp: "compare_policies (avp_hash a) p q = Inr (p', ts)"
        and m': "m' = AList.delete i m"
        and ds': "ds' = ds @ (if CompareEqual \<in> set ts then [] else [avp_dif ChangeUpdate (Some ts) (Some [q]) (Some p')])"
        by (auto simp: avp_reconcile_policy_def go_deref_def compare_existing_def rbind_iff split: if_splits)
      show ?thesis
      proof (cases "CompareEqual \<in> set ts")
        case True
        with compare_shape(2) [OF cmp] cmp have "same_policy (avp_hash a) p q" by (auto simp: same_policy_def)
        from kept_handled [of i q m contents s, OF q dom this] True ds' m' show ?thesis by auto
      next
        case False
        have "update_policy a c app_id ts p' s = (t, Inr ())"
          if "run_all (apply_dif a c app_id) [avp_dif ChangeUpdate (Some ts) (Some [q]) (Some p')] s = (t, Inr ())"
          using that by (auto simp: rbind_iff apply_dif_def avp_dif_def)
        with update_handled [OF service cmp False p avp i q dom] False ds' m' show ?thesis by auto
      qed
    qed
  qed
qed

section \<open>All wanted policies\<close>

text \<open>The deletions at the end remove what is left in the index.\<close>

lemma apply_delete:
  "apply_dif a c app_id (avp_dif ChangeDelete None (Some [p]) None) s = (t, Inr ()) \<longleftrightarrow>
   (\<exists>r. avp_perform c s (DeleteCall (prepare_delete (meta p))) = (t, Inr r)) \<and> policy_id (meta p) \<noteq> None"
  by (auto simp: rbind_iff apply_dif_def avp_dif_def delete_policy_def)

lemma delete_left_over:
  assumes service: "avp_service c app_id contents"
  shows "index_good app_id m \<Longrightarrow>
    run_all (apply_dif a c app_id) (map (\<lambda>(_, p). avp_dif ChangeDelete None (Some [p]) None) m) s = (t, Inr ()) \<Longrightarrow>
    contents t = (\<lambda>i. if i \<in> ids_of m then None else contents s i)"
proof (induction m arbitrary: s)
  case (Cons e m)
  obtain i p where e: "e = (i, p)" by (cases e)
  from Cons.prems(1) e have p: "policy_id (meta p) = Some i" "pap_id (meta p) = Some app_id" "\<not> is_template p"
    and m: "index_good app_id m" by (auto simp: index_good_def)
  from Cons.prems(2) e obtain u r where
    del: "avp_perform c s (DeleteCall (prepare_delete (meta p))) = (u, Inr r)"
    and rest: "run_all (apply_dif a c app_id) (map (\<lambda>(_, p). avp_dif ChangeDelete None (Some [p]) None) m) u = (t, Inr ())"
    by (auto simp: rbind_iff apply_delete)
  from delete_effect [OF service del p(3,1,2)] Cons.IH [OF m rest] show ?case by (auto simp: e)
qed simp

text \<open>The differences found so far are only added to.\<close>

lemma reconcile_step_appends:
  "avp_reconcile_policy a diffs_only (m, ds @ es) p =
   rbind (avp_reconcile_policy a diffs_only (m, es) p) (\<lambda>(m', es'). Inr (m', ds @ es'))"
proof -
  have new: "assume_new a p (m, ds @ es) = rbind (assume_new a p (m, es)) (\<lambda>(m', es'). Inr (m', ds @ es'))"
    by (cases "calculate_etag (avp_hash a) p") (simp_all add: assume_new_def)
  have "compare_existing a diffs_only p i q (m, ds @ es) =
      rbind (compare_existing a diffs_only p i q (m, es)) (\<lambda>(m', es'). Inr (m', ds @ es'))" for i q
    by (cases "compare_policies (avp_hash a) p q") (auto simp: compare_existing_def)
  with new show ?thesis
    by (auto simp: avp_reconcile_policy_def go_deref_def split: option.splits)
qed

lemma reconcile_appends:
  "foldM (avp_reconcile_policy a diffs_only) (m, ds @ es) ps =
   rbind (foldM (avp_reconcile_policy a diffs_only) (m, es) ps) (\<lambda>(m', es'). Inr (m', ds @ es'))"
proof (induction ps arbitrary: m es)
  case (Cons p ps)
  show ?case
    by (cases "avp_reconcile_policy a diffs_only (m, es) p")
      (auto simp: reconcile_step_appends [of a diffs_only m ds es] Cons.IH)
qed simp

text \<open>What all the wanted policies together do to the store.\<close>

definition all_handled ::
  "avp_provider \<Rightarrow> policy_info list \<Rightarrow> policy_info go_map \<Rightarrow> (string \<rightharpoonup> string) \<Rightarrow> (string \<rightharpoonup> string) \<Rightarrow> string list \<Rightarrow> bool" where
  "all_handled a ps m before after js \<longleftrightarrow>
     distinct js \<and> dom after = set js \<union> (dom before - ids_of m) \<and> set js \<inter> (dom before - ids_of m) = {} \<and>
     (\<forall>x \<in> dom before - ids_of m. after x = before x) \<and>
     list_all2 (stands_for a (\<lambda>i q. (i, q) \<in> set m) before after) ps js"

lemma handled_known:
  assumes "handled a p m m' before after j" and "ids_of m \<subseteq> dom before"
  shows "ids_of m' \<subseteq> dom after"
proof -
  from assms(1) have "ids_of m' \<subseteq> ids_of m" and "dom after = insert j (dom before - (ids_of m - ids_of m'))"
    by (auto simp: handled_def)
  then have "x \<in> dom after" if "x \<in> ids_of m'" for x
    using that assms(2) by (simp only: insert_iff Diff_iff) (metis subsetD)
  then show ?thesis ..
qed

lemma all_handled_Cons:
  assumes one: "handled a p m m1 before mid j" and rest: "all_handled a ps m1 mid after js"
    and known: "ids_of m \<subseteq> dom before"
  shows "all_handled a (p # ps) m before after (j # js)"
proof -
  from one have sub: "ids_of m1 \<subseteq> ids_of m" by (auto simp: handled_def)
  have keep: "dom mid - ids_of m1 = insert j (dom before - ids_of m)" and j: "j \<notin> dom before - ids_of m" and jm: "j \<notin> ids_of m1"
    using one known sub unfolding handled_def by blast+
  from keep rest have js: "j \<notin> set js" "set js \<inter> (dom before - ids_of m) = {}" "after j = mid j"
    by (auto simp: all_handled_def)
  have same: "after x = before x" if "x \<in> dom before - ids_of m" for x
    using that one rest keep sub unfolding handled_def all_handled_def by (metis DiffD1 DiffD2 DiffI insertCI)
  have first: "stands_for a (\<lambda>i q. (i, q) \<in> set m) before after p j"
    using one js(3) by (auto simp: handled_def stands_for_def)
  have others: "stands_for a (\<lambda>i q. (i, q) \<in> set m) before after r x"
    if "stands_for a (\<lambda>i q. (i, q) \<in> set m1) mid after r x" for r x
  proof -
    have "(x, q) \<in> set m \<and> mid x = before x" if "(x, q) \<in> set m1" for q
    proof -
      from that have x: "x \<in> ids_of m1" by force
      with sub known have "x \<in> dom before - (ids_of m - ids_of m1)" by blast
      with one that show ?thesis by (auto simp: handled_def)
    qed
    with that show ?thesis unfolding stands_for_def by metis
  qed
  have "list_all2 (stands_for a (\<lambda>i q. (i, q) \<in> set m) before after) ps js"
    using rest others by (auto simp: all_handled_def elim: list_all2_mono)
  with first same js j keep rest show ?thesis by (auto simp: all_handled_def)
qed

lemma reconcile_index:
  assumes "avp_reconcile_policy a diffs_only (m, ds) p = Inr (m', ds')"
  shows "m' = m \<or> (\<exists>i. m' = AList.delete i m)"
proof -
  have "m' = m" if "assume_new a p (m, ds) = Inr (m', ds')"
    using that by (auto simp: assume_new_def rbind_iff split: if_splits)
  moreover have "m' = AList.delete i m" if "compare_existing a diffs_only p i q (m, ds) = Inr (m', ds')" for i q
    using that by (auto simp: compare_existing_def rbind_iff split: if_splits)
  ultimately show ?thesis
    using assms by (fastforce simp: avp_reconcile_policy_def rbind_iff split: if_splits option.splits)
qed

lemma wanted_handled:
  assumes service: "avp_service c app_id contents"
  shows "\<lbrakk>foldM (avp_reconcile_policy a True) (m, []) ps = Inr (m', ds);
     run_all (apply_dif a c app_id) (ds @ map (\<lambda>(_, p). avp_dif ChangeDelete None (Some [p]) None) m') s = (t, Inr ());
     index_good app_id m; ids_of m \<subseteq> dom (contents s); \<forall>p \<in> set ps. plain_wanted app_id p\<rbrakk>
   \<Longrightarrow> \<exists>js. all_handled a ps m (contents s) (contents t) js"
proof (induction ps arbitrary: m s ds)
  case Nil
  define K where "K = ids_of m"
  from Nil delete_left_over [OF service, of m a s t] have "contents t = (\<lambda>i. if i \<in> K then None else contents s i)"
    by (simp add: K_def)
  then have "all_handled a [] m (contents s) (contents t) []"
    unfolding all_handled_def K_def [symmetric] by (auto split: if_splits)
  then show ?case ..
next
  case (Cons p ps)
  from Cons.prems(1) obtain m1 d1 where step: "avp_reconcile_policy a True (m, []) p = Inr (m1, d1)"
    and rest: "foldM (avp_reconcile_policy a True) (m1, d1) ps = Inr (m', ds)" by (auto simp: rbind_iff)
  from rest reconcile_appends [of a True m1 d1 "[]" ps] obtain d2 where
    ds: "ds = d1 @ d2" and rest': "foldM (avp_reconcile_policy a True) (m1, []) ps = Inr (m', d2)"
    by (cases "foldM (avp_reconcile_policy a True) (m1, []) ps") auto
  from Cons.prems(2) ds obtain u where u: "run_all (apply_dif a c app_id) d1 s = (u, Inr ())"
    and v: "run_all (apply_dif a c app_id) (d2 @ map (\<lambda>(_, p). avp_dif ChangeDelete None (Some [p]) None) m') u = (t, Inr ())"
    by (auto simp: run_all_append)
  from Cons.prems(5) have p: "plain_wanted app_id p" by simp
  from step_handled [OF service Cons.prems(3,4) p step] u
  obtain j where one: "handled a p m m1 (contents s) (contents u) j" by auto
  have "index_good app_id m1"
    using reconcile_index [OF step] Cons.prems(3) by auto
  moreover have "ids_of m1 \<subseteq> dom (contents u)"
    by (rule handled_known [OF one Cons.prems(4)])
  ultimately obtain js where "all_handled a ps m1 (contents u) (contents t) js"
    using Cons.IH [OF rest' v] Cons.prems(5) by auto
  from all_handled_Cons [OF one this Cons.prems(4)] show ?case ..
qed

section \<open>The existing policies\<close>

lemma static_policy_meta:
  assumes "map_static_policy a c app_id item = Inr p"
  shows "policy_id (meta p) = item_policy_id item" "pap_id (meta p) = item_store_id item" "\<not> is_template p"
    "provider_type (meta p) = ''avp''"
proof -
  from assms obtain i detail where detail: "item_policy_id item = Some i" "avp_get_policy c i = Inr detail"
    by (auto simp: map_static_policy_def rbind_iff)
  obtain q d where p: "meta p = (map_avp_meta item)\<lparr>description := d, etag := q\<rparr>"
    using assms detail
    by (cases detail) (auto simp: map_static_policy_def calculate_etag_def rbind_iff)
  then show "policy_id (meta p) = item_policy_id item" "pap_id (meta p) = item_store_id item" "\<not> is_template p"
    "provider_type (meta p) = ''avp''"
    by (simp_all add: map_avp_meta_def is_template_def static_type_def linked_type_def)
qed

lemma existing_index:
  assumes ps: "get_policy_info a c app_id = Inr ps" and store: "lists_store c app_id store"
    and m: "foldM index_existing [] ps = Inr m"
  shows "index_good app_id m" "ids_of m = dom store" "\<forall>(i, p) \<in> set m. p \<in> set ps"
proof -
  from store obtain items where items: "avp_list_policies c = Inr items" "item_policy_id ` set items = Some ` dom store"
    "\<forall>item \<in> set items. item_type item = static_type \<and> item_store_id item = Some app_id"
    by (auto simp: lists_store_def)
  from ps items(1) obtain pss where pss: "list_all2 (\<lambda>item qs. map_avp_policy a c app_id item = Inr qs) items pss"
    and ps': "ps = concat pss" by (auto simp: get_policy_info_def rbind_iff)
  have all: "list_all2 (\<lambda>item p. map_static_policy a c app_id item = Inr p) items ps"
    unfolding ps' using pss items(3)
    by (induction rule: list_all2_induct) (auto simp: map_avp_policy_def rbind_iff)
  then have len: "length items = length ps" and nth: "k < length ps \<Longrightarrow> map_static_policy a c app_id (items ! k) = Inr (ps ! k)" for k
    by (auto simp: list_all2_conv_all_nth)
  have pid: "(\<lambda>p. policy_id (meta p)) ` set ps = Some ` dom store"
  proof -
    have "map (\<lambda>p. policy_id (meta p)) ps = map item_policy_id items"
      by (rule nth_equalityI) (use len static_policy_meta(1) [OF nth] in auto)
    then show ?thesis using items(2) by (metis set_map)
  qed
  have good: "pap_id (meta p) = Some app_id \<and> \<not> is_template p" if "p \<in> set ps" for p
    using that items(3) len nth static_policy_meta(2,3) by (metis in_set_conv_nth)
  have "go_map_ok m \<and> (\<forall>(i, p) \<in> set m. policy_id (meta p) = Some i \<and> p \<in> set ps) \<and>
      Some ` ids_of m = (\<lambda>p. policy_id (meta p)) ` set ps"
    using m
  proof (induction ps arbitrary: m rule: rev_induct)
    case (snoc p qs)
    then obtain k where k0: "foldM index_existing [] qs = Inr k" "index_existing k p = Inr m"
      by (auto simp: foldM_append rbind_iff)
    then obtain i where k: "foldM index_existing [] qs = Inr k" "policy_id (meta p) = Some i" "m = AList.update i p k"
      by (auto simp: index_existing_def rbind_iff)
    have "ids_of m = insert i (ids_of k)" unfolding k(3) by (metis dom_map_of_conv_image_fst dom_fun_upd fun_upd_apply option.simps(3) update_conv')
    with snoc.IH [OF k(1)] k(2,3) go_map_ok_update [of k i p] show ?case
      by (auto dest!: set_update_cases)
  qed simp
  with good pid show "index_good app_id m" "ids_of m = dom store" "\<forall>(i, p) \<in> set m. p \<in> set ps"
    by (auto simp: index_good_def inj_image_eq_iff)
qed

section \<open>Properties\<close>


text \<open>A service that keeps its policies in a table and makes ids longer than all of the ones in use.\<close>

definition fresh_id :: "string go_map \<Rightarrow> string" where
  "fresh_id m = CHR ''n'' # concat (map fst m)"

lemma fresh_id_new: "map_of m (fresh_id m) = None"
proof -
  have "length i \<le> length (concat (map fst m))" if "i \<in> fst ` set m" for i
    using that by (induction m) (force intro: trans_le_add2)+
  then have "fresh_id m \<notin> fst ` set m" by (fastforce simp: fresh_id_def)
  then show ?thesis by (simp add: map_of_eq_None_iff)
qed

fun table_perform :: "string go_map \<Rightarrow> avp_call \<Rightarrow> string go_map \<times> string option res" where
  "table_perform m (CreateCall input) = ((fresh_id m, create_statement input) # m, Inr (Some (fresh_id m)))"
| "table_perform m (UpdateCall u) =
     (case update_id u of
        None \<Rightarrow> (m, Inl (Error ''missing id''))
      | Some i \<Rightarrow> (AList.update i (update_statement u) m, Inr None))"
| "table_perform m (DeleteCall None) = (m, Inl (Error ''missing id''))"
| "table_perform m (DeleteCall (Some d)) =
     (case delete_id d of None \<Rightarrow> (m, Inl (Error ''missing id'')) | Some i \<Rightarrow> (AList.delete i m, Inr None))"

definition table_item :: avp_item where
  "table_item = \<lparr>item_policy_id = Some ''p1'', item_store_id = Some ''store'', item_type = static_type,
     item_definition = OtherItem, item_created = None, item_updated = None\<rparr>"

definition table_client :: "string \<Rightarrow> string go_map avp_client" where
  "table_client statement = \<lparr>avp_connect = None, avp_list_policies = Inr [table_item],
     avp_get_policy = (\<lambda>_. Inr (StaticDetail \<lparr>detail_statement = Some statement, detail_description = Some ''d''\<rparr>)),
     avp_get_template = (\<lambda>_. Inl (Error ''no templates'')), avp_perform = table_perform\<rparr>"

lemma table_service: "avp_service (table_client statement) app_id map_of"
  using fresh_id_new
  by (auto simp: avp_service_def table_client_def update_conv' AList.delete_conv' split: option.splits)

lemma table_listing: "lists_store (table_client statement) ''store'' (map_of [(''p1'', statement)])"
  by (auto simp: lists_store_def table_client_def table_item_def)

text \<open>A parser that knows one text, a policy that permits everything.\<close>

definition open_provider :: avp_provider where
  "open_provider = \<lparr>avp_mapper = Some \<lparr>name_map = new_name_mapper [], parse_decimal = (\<lambda>_. None)\<rparr>,
     avp_parse = (\<lambda>_. Inr [open_policy ''permit'' None]), avp_hash = identity_hash\<rparr>"

definition open_existing :: policy_info where
  "open_existing = with_etag identity_hash
     \<lparr>meta = (map_avp_meta table_item)\<lparr>description := ''d''\<rparr>,
      subjects = Some [''any''], actions = Some [], object_info = [], condition = None, scope = None\<rparr>"

lemma open_listed: "get_policy_info open_provider (table_client statement) ''store'' = Inr [open_existing]"
  by (simp add: get_policy_info_def connect_def go_error_def table_client_def map_avp_policy_def map_static_policy_def go_deref_def
      map_statement_def open_provider_def map_cedar_policies_def open_policy_maps go_index_def table_item_def
      calculate_etag_hash [OF identity_hash_ok(1)] open_existing_def)

lemma sample_statement:
  "\<exists>text. convert_cedar_statement open_provider (sample_policy i subs) = Inr text"
  by (simp add: convert_cedar_statement_def open_provider_def go_deref_def map_hexa_policies_def map_hexa_policy_def
      map_condition_to_cedar_def)

lemma sample_plain: "subs = [''any''] \<Longrightarrow> \<not> is_template (sample_policy i subs)" "provider_type (meta (sample_policy i subs)) = []"
  by (simp_all add: is_template_def sample_policy_def sample_meta_def contains_str_def)

lemma sample_run: "\<exists>t. set_policy_info open_provider (table_client st) ''store'' [sample_policy None [''any'']] [(''p1'', st)] = (t, Inr 200)"
proof -
  obtain stmt where s: "convert_cedar_statement open_provider (sample_policy None [''any'']) = Inr stmt"
    using sample_statement by blast
  have e: "policy_id (meta open_existing) = Some ''p1''" "source_data (meta open_existing) \<noteq> None"
    "prepare_delete (meta open_existing) = Some \<lparr>delete_id = Some ''p1'', delete_store = Some ''store''\<rparr>"
    by (simp_all add: open_existing_def with_etag_def map_avp_meta_def table_item_def prepare_delete_def static_type_def linked_type_def)
  have h: "avp_hash open_provider = identity_hash" "avp_connect (table_client st) = None" "avp_perform (table_client st) = table_perform"
    by (simp_all add: open_provider_def table_client_def)
  show ?thesis
    by (simp add: set_policy_info_def run_bind_def pure_run_def connect_def go_error_def h avp_reconcile_def open_listed index_existing_def
        go_deref_def e avp_reconcile_policy_def assume_new_def sample_plain apply_dif_def avp_dif_def create_policy_def
        prepare_create_def s calculate_etag_hash [OF identity_hash_ok(1)] request_def delete_policy_def)
qed


text \<open>Property C37.  A policy whose subjects or object changed is deleted before its replacement is made: when the
  replacement cannot be written in Cedar, the method fails and the policy is gone.\<close>

theorem avp_replacement_lost:
  assumes "avp_service c app_id contents" and "avp_connect c = None"
    and "get_policy_info a c app_id = Inr [q]" and "policy_id (meta q) = Some i"
    and "plain_wanted app_id p" and "provider_type (meta p) = ''avp''" and "policy_id (meta p) = Some i"
    and "compare_policies (avp_hash a) p q = Inr (p', ts)" and "DifSubject \<in> set ts \<or> DifObject \<in> set ts"
    and "convert_cedar_statement a p = Inl (Error e)"
    and "avp_perform c s (DeleteCall (prepare_delete (meta p))) = (t, Inr r)"
  shows "set_policy_info a c app_id [p] s = (t, Inl (Failed 400 e)) \<and> contents t = (contents s)(i := None)"
proof -
  from compare_shape(1) [OF assms(8)] obtain v where p': "p' = p\<lparr>meta := (meta p)\<lparr>etag := v\<rparr>\<rparr>" ..
  have del: "prepare_delete (meta p') = prepare_delete (meta p)" by (simp add: p' prepare_delete_def)
  have ids: "provider_type (meta p') = ''avp''" "policy_id (meta p') = Some i"
    "convert_cedar_statement a p' = Inl (Error e)" using assms(6,7,10) by (simp_all add: p')
  have dif: "CompareEqual \<notin> set ts" using compare_shape(2) [OF assms(8)] assms(9) by auto
  have "avp_reconcile a c app_id [p] True = Inr [avp_dif ChangeUpdate (Some ts) (Some [q]) (Some p')]"
    using assms(3-8) dif
    by (simp add: avp_reconcile_def index_existing_def go_deref_def avp_reconcile_policy_def plain_wanted_def compare_existing_def)
  moreover have "update_policy a c app_id ts p' s = (t, Inl (Failed 400 e))"
    using assms(9,11) ids del
    by (simp add: update_policy_def run_bind_def pure_run_def go_deref_def request_def create_policy_def prepare_create_def)
  ultimately have "set_policy_info a c app_id [p] s = (t, Inl (Failed 400 e))"
    using assms(2)
    by (simp add: set_policy_info_def connect_def go_error_def run_bind_def pure_run_def apply_dif_def avp_dif_def go_deref_def)
  moreover have "contents t = (contents s)(i := None)"
    using delete_effect [OF assms(1,11)] assms(5-7) by (simp add: plain_wanted_def)
  ultimately show ?thesis by blast
qed

definition moved_policy :: policy_info where
  "moved_policy = (sample_policy (Some ''p1'') [''User:a''])\<lparr>
     meta := (sample_meta (Some ''p1''))\<lparr>provider_type := ''avp'', pap_id := Some ''store''\<rparr>,
     condition := Some \<lparr>rule = [], action = ''allow''\<rparr>\<rparr>"

lemma empty_rule_error: "parse_filter [] = Inl (Error ''invalid condition: Missing and/or clause'')"
  by (simp add: parse_filter_def parse_loop.simps pstate_init_def parse_finish_def finish_word_def combine_logic_def perror_def)

lemma moved_compare: "\<exists>p'. compare_policies identity_hash moved_policy open_existing = Inr (p', [DifSubject, DifAction, DifObject, DifCondition])"
proof -
  have p: "subjects (with_etag identity_hash moved_policy) = Some [''User:a'']" "subjects moved_policy = Some [''User:a'']"
    "actions (with_etag identity_hash moved_policy) = Some [''http:GET'']" "actions moved_policy = Some [''http:GET'']"
    "object_info moved_policy = ''PhotoApp''" "condition moved_policy = Some \<lparr>rule = [], action = ''allow''\<rparr>"
    by (simp_all add: with_etag_def moved_policy_def sample_policy_def)
  have q: "subjects open_existing = Some [''any'']" "actions open_existing = Some []" "object_info open_existing = []"
    "condition open_existing = None"
    by (simp_all add: open_existing_def with_etag_def)
  have "\<not> equal_fold ''User:a'' ''any''" by (auto dest: equal_fold_length)
  then have "policy_equals identity_hash moved_policy open_existing = Inr (with_etag identity_hash moved_policy, False)"
    by (simp add: policy_equals_content [OF identity_hash_ok] same_content_def semantic_equals_def clauses_equal_def
        subject_equals_def p q)
  with \<open>\<not> equal_fold ''User:a'' ''any''\<close> show ?thesis
    by (auto simp: compare_policies_def condition_differs_def with_etag_def p q subject_equals_def actions_equal_def
        object_equals_def dest: equal_fold_length)
qed

theorem avp_replacement_lost_witness:
  "set_policy_info open_provider (table_client ''x'') ''store'' [moved_policy] [(''p1'', ''x'')] =
     ([], Inl (Failed 400 ''invalid condition: Missing and/or clause''))"
proof -
  obtain p' where cmp: "compare_policies (avp_hash open_provider) moved_policy open_existing = Inr (p', [DifSubject, DifAction, DifObject, DifCondition])"
    using moved_compare by (auto simp: open_provider_def)
  have conv: "convert_cedar_statement open_provider moved_policy = Inl (Error ''invalid condition: Missing and/or clause'')"
    by (simp add: convert_cedar_statement_def open_provider_def go_deref_def map_hexa_policies_def map_hexa_policy_def
        map_condition_to_cedar_def moved_policy_def condition_ast_def empty_rule_error)
  have m: "plain_wanted ''store'' moved_policy" "provider_type (meta moved_policy) = ''avp''" "policy_id (meta moved_policy) = Some ''p1''"
    "prepare_delete (meta moved_policy) = Some \<lparr>delete_id = Some ''p1'', delete_store = Some ''store''\<rparr>"
    by (simp_all add: plain_wanted_def moved_policy_def is_template_def sample_policy_def sample_meta_def contains_str_def prepare_delete_def)
  have "policy_id (meta open_existing) = Some ''p1''"
    by (simp add: open_existing_def with_etag_def map_avp_meta_def table_item_def)
  from avp_replacement_lost [OF table_service _ open_listed this m(1-3) cmp _ conv, of _ "[(''p1'', ''x'')]" "[]" None] m(4)
  show ?thesis by (simp add: table_client_def)
qed

text \<open>A policy of the store whose Cedar text the mapper does not support makes the reading of all the
  policies panic: the mapper hides its error and returns no policy, and the first one is taken.\<close>

lemma avp_unsupported_policy_panics:
  assumes "avp_connect c = None" and "avp_list_policies c = Inr (item # items)"
    and "item_type item = static_type" and "item_policy_id item = Some i"
    and "avp_get_policy c i = Inr (StaticDetail d)" and "detail_statement d = Some st"
    and "avp_mapper a \<noteq> None" and "avp_parse a st = Inr (p # ps)" and "map_cedar_policy p = Inl (Error e)"
  shows "get_policy_info a c app_id = Inl (Panic ''index out of range'')"
  using assms
  by (auto simp: get_policy_info_def connect_def go_error_def map_avp_policy_def map_static_policy_def go_deref_def map_statement_def
      map_cedar_policies_def go_index_def)

text \<open>An existing policy made from a template that is not wanted any more is deleted with a nil input.\<close>

lemma template_deleted_with_nil:
  assumes "avp_connect c = None" and "get_policy_info a c app_id = Inr [q]" and "policy_id (meta q) = Some i"
    and "map_of (elems (source_data (meta q))) ''policyType'' = Some (SText linked_type)"
    and "avp_perform c s (DeleteCall None) = (t, Inl (Error e))"
  shows "set_policy_info a c app_id [] s = (t, Inl (Failed 400 e))"
  using assms
  by (simp add: set_policy_info_def connect_def go_error_def run_bind_def pure_run_def avp_reconcile_def index_existing_def go_deref_def
      apply_dif_def avp_dif_def delete_policy_def prepare_delete_def request_def)

text \<open>A provider without a mapper panics before anything is created, since the method that makes one changes a copy.\<close>

lemma nil_mapper_panics:
  "avp_mapper a = None \<Longrightarrow> prepare_create a app_id p = Inl (Panic ''nil pointer dereference'')"
  by (simp add: prepare_create_def convert_cedar_statement_def go_deref_def)

end
