(* ===== verification/Async_Process.thy ===== *)
theory Async_Process
  imports Go_Prelude "HOL-Library.Multiset"
begin

text \<open>
  \<^verbatim>\<open>pkg/workflowsupport/process_async.go\<close>: \<open>ProcessAsync\<close> runs a function on every input in a goroutine
  of its own and collects the results over a channel.

  The goroutines, the one that waits for them and the loop that receives are interleaved by a step
  relation.  The channel has no buffer, so a worker that has a result stays at \<open>Sending\<close> until the
  loop takes it; only then does its deferred \<open>Done\<close> run.  The function \<open>block\<close> has no effect on the
  other goroutines here, and does not panic.
\<close>

datatype ('u, 't) worker = Running 'u | Sending 't | Finished

record ('u, 't) async_state =
  workers :: "('u, 't) worker list"
  results :: "'t list"
  channel_closed :: bool

definition async_start :: "'u list \<Rightarrow> ('u, 't) async_state" where
  "async_start inputs = \<lparr>workers = map Running inputs, results = [], channel_closed = False\<rparr>"

inductive async_step :: "('u \<Rightarrow> 't res) \<Rightarrow> ('u, 't) async_state \<Rightarrow> ('u, 't) async_state \<Rightarrow> bool"
  for block where
  block_fails: "i < length (workers st) \<Longrightarrow> workers st ! i = Running u \<Longrightarrow> block u = Inl e \<Longrightarrow>
    async_step block st (st\<lparr>workers := (workers st)[i := Finished]\<rparr>)"
| block_returns: "i < length (workers st) \<Longrightarrow> workers st ! i = Running u \<Longrightarrow> block u = Inr t \<Longrightarrow>
    async_step block st (st\<lparr>workers := (workers st)[i := Sending t]\<rparr>)"
| result_received: "i < length (workers st) \<Longrightarrow> workers st ! i = Sending t \<Longrightarrow> \<not> channel_closed st \<Longrightarrow>
    async_step block st (st\<lparr>workers := (workers st)[i := Finished], results := results st @ [t]\<rparr>)"
| all_done: "\<forall>w \<in> set (workers st). w = Finished \<Longrightarrow> \<not> channel_closed st \<Longrightarrow>
    async_step block st (st\<lparr>channel_closed := True\<rparr>)"

text \<open>The loop over the channel ends when it is closed; its results are then returned.\<close>

inductive async_run :: "('u \<Rightarrow> 't res) \<Rightarrow> ('u, 't) async_state \<Rightarrow> 't list \<Rightarrow> bool" for block where
  run_ends: "channel_closed st \<Longrightarrow> async_run block st (results st)"
| run_step: "async_step block st st' \<Longrightarrow> async_run block st' ts \<Longrightarrow> async_run block st ts"

definition process_async :: "'u list \<Rightarrow> ('u \<Rightarrow> 't res) \<Rightarrow> 't list \<Rightarrow> bool" where
  "process_async inputs block ts \<longleftrightarrow> async_run block (async_start inputs) ts"

section \<open>What the workers still owe\<close>

fun owed :: "('u \<Rightarrow> 't res) \<Rightarrow> ('u, 't) worker \<Rightarrow> 't list" where
  "owed block (Running u) = (case block u of Inl e \<Rightarrow> [] | Inr t \<Rightarrow> [t])"
| "owed block (Sending t) = [t]"
| "owed block Finished = []"

definition all_results :: "('u \<Rightarrow> 't res) \<Rightarrow> ('u, 't) async_state \<Rightarrow> 't multiset" where
  "all_results block st = mset (results st) + mset (concat (map (owed block) (workers st)))"

definition ok_results :: "('u \<Rightarrow> 't res) \<Rightarrow> 'u list \<Rightarrow> 't list" where
  "ok_results block inputs = concat (map (\<lambda>u. owed block (Running u)) inputs)"

text \<open>The steps a worker has still to take.\<close>

fun work_left :: "('u, 't) worker \<Rightarrow> nat" where
  "work_left (Running u) = 2"
| "work_left (Sending t) = 1"
| "work_left Finished = 0"

definition steps_left :: "('u, 't) async_state \<Rightarrow> nat" where
  "steps_left st = sum_list (map work_left (workers st)) + (if channel_closed st then 0 else 1)"

lemma concat_update:
  "i < length xs \<Longrightarrow> mset (concat (map f (xs[i := y]))) + mset (f (xs ! i)) = mset (concat (map f xs)) + mset (f y)"
proof (induction xs arbitrary: i)
  case (Cons x xs)
  then show ?case by (cases i) (auto simp: ac_simps)
qed simp

lemma sum_update:
  fixes f :: "'a \<Rightarrow> nat"
  shows "i < length xs \<Longrightarrow> sum_list (map f (xs[i := y])) + f (xs ! i) = sum_list (map f xs) + f y"
proof (induction xs arbitrary: i)
  case (Cons x xs)
  then show ?case by (cases i) (auto simp: ac_simps)
qed simp

lemma step_keeps_results:
  assumes "async_step block st st'"
  shows "all_results block st' = all_results block st"
  using assms
proof cases
  case (block_fails i u e)
  with concat_update [of i "workers st" "owed block" Finished] show ?thesis by (simp add: all_results_def)
next
  case (block_returns i u t)
  with concat_update [of i "workers st" "owed block" "Sending t"] show ?thesis by (simp add: all_results_def)
next
  case (result_received i t)
  with concat_update [of i "workers st" "owed block" Finished] show ?thesis by (simp add: all_results_def)
qed (simp add: all_results_def)

lemma step_makes_progress:
  assumes "async_step block st st'"
  shows "steps_left st' < steps_left st"
  using assms
proof cases
  case (block_fails i u e)
  with sum_update [of i "workers st" work_left Finished] show ?thesis by (simp add: steps_left_def)
next
  case (block_returns i u t)
  with sum_update [of i "workers st" work_left "Sending t"] show ?thesis by (simp add: steps_left_def)
next
  case (result_received i t)
  with sum_update [of i "workers st" work_left Finished] show ?thesis by (simp add: steps_left_def)
qed (simp add: steps_left_def)

lemma step_possible:
  assumes "\<not> channel_closed st"
  shows "\<exists>st'. async_step block st st'"
proof (cases "\<forall>w \<in> set (workers st). w = Finished")
  case True
  from all_done [OF this assms] show ?thesis by blast
next
  case False
  then obtain i where i: "i < length (workers st)" "workers st ! i \<noteq> Finished"
    by (auto simp: in_set_conv_nth)
  show ?thesis
  proof (cases "workers st ! i")
    case (Running u)
    then show ?thesis using i block_fails [of i st u block] block_returns [of i st u block] by (cases "block u") blast+
  next
    case (Sending t)
    from result_received [OF i(1) this assms] show ?thesis by blast
  qed (use i in simp)
qed

text \<open>The channel is closed only after all the workers are done.\<close>

definition closed_late :: "('u, 't) async_state \<Rightarrow> bool" where
  "closed_late st \<longleftrightarrow> channel_closed st \<longrightarrow> (\<forall>w \<in> set (workers st). w = Finished)"

lemma step_keeps_closed_late:
  assumes "async_step block st st'" and "closed_late st"
  shows "closed_late st'"
  using assms(1)
proof cases
  case (block_fails i u e)
  with assms(2) nth_mem [of i "workers st"] show ?thesis by (auto simp: closed_late_def)
next
  case (block_returns i u t)
  with assms(2) nth_mem [of i "workers st"] show ?thesis by (auto simp: closed_late_def)
qed (auto simp: closed_late_def)

lemma run_results:
  "async_run block st ts \<Longrightarrow> closed_late st \<Longrightarrow> mset ts = all_results block st"
proof (induction rule: async_run.induct)
  case (run_ends st)
  then have "concat (map (owed block) (workers st)) = []" by (auto simp: closed_late_def)
  then show ?case by (simp add: all_results_def)
next
  case (run_step st st' ts)
  with step_keeps_closed_late step_keeps_results show ?case by metis
qed

lemma run_exists: "\<exists>ts. async_run block st ts"
proof (induction "steps_left st" arbitrary: st rule: less_induct)
  case less
  show ?case
  proof (cases "channel_closed st")
    case False
    from step_possible [OF this] obtain st' where st': "async_step block st st'" ..
    from less [OF step_makes_progress [OF this]] st' show ?thesis by (blast intro: run_step)
  qed (blast intro: run_ends)
qed

lemma async_start_results: "all_results block (async_start inputs) = mset (ok_results block inputs)"
  by (simp add: all_results_def async_start_def ok_results_def comp_def)

lemma async_mset: "process_async inputs block ts \<Longrightarrow> mset ts = mset (ok_results block inputs)"
  using run_results [of block "async_start inputs" ts]
  by (simp add: process_async_def async_start_results) (simp add: closed_late_def async_start_def)

lemma async_exists: "\<exists>ts. process_async inputs block ts"
  using run_exists by (simp add: process_async_def)

lemma ok_results_iff: "t \<in> set (ok_results block inputs) \<longleftrightarrow> (\<exists>u \<in> set inputs. block u = Inr t)"
  by (auto simp: ok_results_def split: sum.splits) metis

lemma async_set: "process_async inputs block ts \<Longrightarrow> set ts = {t. \<exists>u \<in> set inputs. block u = Inr t}"
  unfolding set_eq_iff mem_Collect_eq ok_results_iff [symmetric] by (metis async_mset mset_eq_setD)

text \<open>One of the orders is that of the inputs.\<close>

lemma run_in_order:
  "async_run block \<lparr>workers = replicate k Finished @ map Running us, results = ts, channel_closed = False\<rparr>
     (ts @ ok_results block us)"
proof (induction us arbitrary: k ts)
  case Nil
  let ?st = "\<lparr>workers = replicate k Finished, results = ts, channel_closed = False\<rparr>"
  have "async_step block ?st (?st\<lparr>channel_closed := True\<rparr>)" by (rule all_done) simp_all
  from run_step [OF this run_ends] show ?case by (simp add: ok_results_def)
next
  case (Cons u us)
  let ?st = "\<lambda>w ts. \<lparr>workers = replicate k Finished @ w # map Running us, results = ts, channel_closed = False\<rparr>"
  have finished: "?st Finished ts = \<lparr>workers = replicate (Suc k) Finished @ map Running us, results = ts, channel_closed = False\<rparr>"
    for ts by (simp add: replicate_app_Cons_same)
  show ?case
  proof (cases "block u")
    case (Inl e)
    from block_fails [of k "?st (Running u) ts" u block e] Inl
    have "async_step block (?st (Running u) ts) (?st Finished ts)" by (simp add: nth_append list_update_append)
    moreover from Cons.IH [of "Suc k" ts] have "async_run block (?st Finished ts) (ts @ ok_results block us)" unfolding finished .
    ultimately show ?thesis using run_step Inl by (fastforce simp: ok_results_def)
  next
    case (Inr t)
    from block_returns [of k "?st (Running u) ts" u block t] Inr
    have 1: "async_step block (?st (Running u) ts) (?st (Sending t) ts)" by (simp add: nth_append list_update_append)
    from result_received [of k "?st (Sending t) ts" t block]
    have 2: "async_step block (?st (Sending t) ts) (?st Finished (ts @ [t]))" by (simp add: nth_append list_update_append)
    from Cons.IH [of "Suc k" "ts @ [t]"]
    have 3: "async_run block (?st Finished (ts @ [t])) ((ts @ [t]) @ ok_results block us)" unfolding finished .
    from run_step [OF 1 run_step [OF 2 3]] Inr show ?thesis by (simp add: ok_results_def)
  qed
qed

lemma async_in_order: "process_async us block (ok_results block us)"
  using run_in_order [of block 0 us "[]"] by (simp add: process_async_def async_start_def)

section \<open>Properties\<close>

text \<open>Property C24.  However the goroutines are interleaved, \<open>ProcessAsync\<close> returns the results of the inputs its
  function does not fail on, each as often as it is made, in some order; it always can go on until it returns,
  and every step brings the return nearer.\<close>

theorem async_returns_all:
  "(process_async inputs block ts \<longrightarrow> mset ts = mset (ok_results block inputs)) \<and>
   (\<exists>ts. process_async inputs block ts) \<and>
   (\<forall>st st'. async_step block st st' \<longrightarrow> steps_left st' < steps_left st) \<and>
   (\<forall>st. \<not> channel_closed st \<longrightarrow> (\<exists>st'. async_step block st st'))"
  by (intro conjI allI impI) (erule async_mset async_exists step_makes_progress step_possible | rule async_exists)+

theorem async_returns_all_witness:
  "\<exists>ts. process_async [1, 2, 3 :: nat] (\<lambda>u. if u = 2 then Inl (Error ''not found'') else Inr (u + 10)) ts \<and>
     mset ts = {#11, 13#}"
proof -
  let ?block = "\<lambda>u :: nat. if u = 2 then Inl (Error ''not found'') else Inr (u + 10)"
  from async_returns_all [of "[1, 2, 3]" ?block] obtain ts where "process_async [1, 2, 3] ?block ts" by blast
  moreover from this async_returns_all [of "[1, 2, 3]" ?block ts] have "mset ts = mset (ok_results ?block [1, 2, 3])" by blast
  ultimately show ?thesis by (auto simp: ok_results_def add_mset_commute)
qed

end
