(* ===== verification/Azure_Provider.thy ===== *)
theory Azure_Provider
  imports Provider_Runs Async_Process
begin

text \<open>
  The provider for Azure application roles: the client of the Microsoft Graph interface
  (\<^verbatim>\<open>providers/azure/azad/azure_client.go\<close>), the mapper of roles and assignments to policies
  (\<^verbatim>\<open>azureProvider/azure_policy_mapper.go\<close>) and the provider (\<^verbatim>\<open>azureProvider/azure_provider.go\<close>).

  The HTTP exchange is a parameter: what \<open>azureRequest\<close>, with the key it decodes and the token it
  fetches, answers in a state of the service, with the body as it decodes.  Structures have the
  fields this program reads or writes.
\<close>

section \<open>Data\<close>

record web_app =
  web_id :: string
  web_app_id :: string
  web_name :: string
  web_home_page :: string

record app_role =
  allowed_member_types :: "string slice"
  role_description :: string
  role_id :: string
  role_enabled :: bool
  role_value :: string

record service_principal =
  principal_id :: string
  principal_name :: string
  principal_roles :: "app_role list"

record role_assignment =
  assignment_id :: string
  assigned_role :: string
  assigned_principal :: string
  assigned_resource :: string

record azure_user =
  user_principal :: string
  user_email :: string

record 'a http_response =
  status_code :: nat
  status_text :: string
  decoded :: "'a res"

record 's azure_service =
  az_applications :: "'s \<Rightarrow> web_app list http_response res"
  az_principals :: "'s \<Rightarrow> string \<Rightarrow> service_principal list http_response res"
  az_user :: "'s \<Rightarrow> string \<Rightarrow> azure_user http_response res"
  az_users :: "'s \<Rightarrow> string \<Rightarrow> azure_user list http_response res"
  az_assigned :: "'s \<Rightarrow> string \<Rightarrow> role_assignment slice http_response res"
  az_post :: "'s \<Rightarrow> string \<Rightarrow> role_assignment \<Rightarrow> 's \<times> nat res"
  az_delete :: "'s \<Rightarrow> string \<Rightarrow> string \<Rightarrow> 's \<times> nat res"
  az_validate :: "role_assignment list \<Rightarrow> string option"

section \<open>Requests that read\<close>

definition get_json :: "string \<Rightarrow> 'a http_response res \<Rightarrow> 'a res" where
  "get_json what answer =
     rbind answer (\<lambda>r.
       if status_code r \<noteq> 200 then Inl (Error (what @ ''. Unexpected status '' @ status_text r)) else decoded r)"

definition get_azure_applications :: "'s azure_service \<Rightarrow> 's \<Rightarrow> web_app list res" where
  "get_azure_applications az s = get_json ''unable to get azure web applications'' (az_applications az s)"

text \<open>Only applications with a home page are listed.\<close>

definition get_web_applications :: "'s azure_service \<Rightarrow> 's \<Rightarrow> application_info list res" where
  "get_web_applications az s =
     rbind (get_json ''unable to get azure web applications'' (az_applications az s)) (\<lambda>webs.
       Inr (map (\<lambda>w. \<lparr>object_id = web_id w, app_name = web_name w, app_description = web_app_id w,
                     app_service = ''App Service''\<rparr>)
              (filter (\<lambda>w. web_home_page w \<noteq> []) webs)))"

definition get_service_principals :: "'s azure_service \<Rightarrow> 's \<Rightarrow> string \<Rightarrow> service_principal list res" where
  "get_service_principals az s app_id =
     get_json ''unable to get azure service principals'' (az_principals az s app_id)"

definition get_user_info :: "'s azure_service \<Rightarrow> 's \<Rightarrow> string \<Rightarrow> azure_user res" where
  "get_user_info az s pid = get_json ''unable to get azure user'' (az_user az s pid)"

text \<open>The first user with the address is taken, also when there is none.\<close>

definition get_principal_id :: "'s azure_service \<Rightarrow> 's \<Rightarrow> string \<Rightarrow> string res" where
  "get_principal_id az s email =
     rbind (get_json ''unable to get id for azure user'' (az_users az s email)) (\<lambda>users.
     rbind (go_index users 0) (\<lambda>u. Inr (user_principal u)))"

definition get_app_role_assigned :: "'s azure_service \<Rightarrow> 's \<Rightarrow> string \<Rightarrow> role_assignment list res" where
  "get_app_role_assigned az s sp =
     rbind (get_json ''unable to get id for azure app role assignments'' (az_assigned az s sp)) (\<lambda>as. Inr (elems as))"

section \<open>Setting the assignments\<close>

definition same_grant :: "role_assignment \<Rightarrow> role_assignment \<Rightarrow> bool" where
  "same_grant a b \<longleftrightarrow>
     assigned_role a = assigned_role b \<and> assigned_resource a = assigned_resource b \<and>
     assigned_principal a = assigned_principal b"

definition should_add :: "role_assignment list \<Rightarrow> role_assignment list \<Rightarrow> role_assignment list" where
  "should_add wanted existing =
     filter (\<lambda>w. assigned_principal w \<noteq> [] \<and> \<not> (\<exists>e \<in> set existing. same_grant e w)) wanted"

text \<open>The inner loop over the wanted assignments, with the flag it sets and the match it stops at.\<close>

fun do_remove :: "role_assignment \<Rightarrow> bool \<Rightarrow> role_assignment list \<Rightarrow> bool" where
  "do_remove e flag [] = flag"
| "do_remove e flag (w # ws) =
     (if assigned_role e = assigned_role w \<and> assigned_resource e = assigned_resource w then
        (if assigned_principal e = assigned_principal w then False else do_remove e True ws)
      else do_remove e flag ws)"

definition should_remove :: "role_assignment list \<Rightarrow> role_assignment list \<Rightarrow> string list" where
  "should_remove existing wanted = map assignment_id (filter (\<lambda>e. do_remove e False wanted) existing)"

text \<open>What is posted has no id yet, and the service principal for its resource.\<close>

definition add_assignment :: "'s azure_service \<Rightarrow> string \<Rightarrow> role_assignment \<Rightarrow> ('s, unit) run" where
  "add_assignment az sp w =
     run_bind (request 500 (\<lambda>s. az_post az s sp (w\<lparr>assignment_id := [], assigned_resource := sp\<rparr>))) (\<lambda>code.
       pure_run 500 (if code = 201 then Inr ()
         else Inl (Error (''unable to add azure app role assignments. Unexpected status '' @ nat_string code))))"

definition delete_assignment :: "'s azure_service \<Rightarrow> string \<Rightarrow> string \<Rightarrow> ('s, unit) run" where
  "delete_assignment az sp i =
     run_bind (request 500 (\<lambda>s. az_delete az s sp i)) (\<lambda>code.
       pure_run 500 (if code = 204 then Inr ()
         else Inl (Error (''unable to delete azure app role assignments. Unexpected status '' @ nat_string code))))"

definition set_app_role_assigned :: "'s azure_service \<Rightarrow> string \<Rightarrow> role_assignment list \<Rightarrow> ('s, unit) run" where
  "set_app_role_assigned az sp wanted =
     run_bind (pure_run 500 (go_error (az_validate az wanted))) (\<lambda>_.
     run_bind (read_run 500 (\<lambda>s. get_app_role_assigned az s sp)) (\<lambda>existing.
     run_bind (run_all (add_assignment az sp) (should_add wanted existing)) (\<lambda>_.
       run_all (delete_assignment az sp) (should_remove existing wanted))))"

section \<open>The policy mapper\<close>

record azure_mapper =
  mapper_object :: string
  role_map :: "app_role go_map"
  existing_map :: "role_assignment list go_map"
  email_map :: "string go_map"

definition map_app_roles :: "app_role list \<Rightarrow> app_role go_map" where
  "map_app_roles roles = foldl (\<lambda>m r. AList.update (role_id r) r m) [] roles"

definition map_app_role_assignments :: "role_assignment list \<Rightarrow> role_assignment list go_map" where
  "map_app_role_assignments as =
     foldl (\<lambda>m a. AList.update (assigned_role a)
       ((case map_of m (assigned_role a) of None \<Rightarrow> [] | Some bs \<Rightarrow> bs) @ [a]) m) [] as"

definition new_azure_mapper :: "service_principal list \<Rightarrow> role_assignment list \<Rightarrow> string go_map \<Rightarrow> azure_mapper" where
  "new_azure_mapper sps existing emails =
     (case sps of
        [] \<Rightarrow> \<lparr>mapper_object = [], role_map = [], existing_map = [], email_map = []\<rparr>
      | sp # _ \<Rightarrow> \<lparr>mapper_object = principal_name sp, role_map = map_app_roles (principal_roles sp),
                  existing_map = map_app_role_assignments existing, email_map = emails\<rparr>)"

definition assignment_member :: "azure_mapper \<Rightarrow> role_assignment \<Rightarrow> string list" where
  "assignment_member m a =
     (case map_of (email_map m) (assigned_principal a) of
        None \<Rightarrow> []
      | Some email \<Rightarrow> if email = [] then [] else [''user:'' @ email])"

definition role_to_idql :: "azure_mapper \<Rightarrow> role_assignment list \<Rightarrow> app_role \<Rightarrow> policy_info" where
  "role_to_idql m as r =
     \<lparr>meta = \<lparr>meta_version = ''0.7'',
              source_data = Some [(''enabled'', SText (if role_enabled r then ''true'' else ''false'')),
                                  (''membertypes'', SOther ''[]string'')],
              description = role_description r, created = None, modified = None, etag = [],
              policy_id = Some (role_id r), pap_id = Some (mapper_object m), provider_type = ''azure''\<rparr>,
      subjects = Some (concat (map (assignment_member m) as)), actions = Some [role_value r],
      object_info = mapper_object m, condition = None, scope = None\<rparr>"

definition to_idql :: "azure_mapper \<Rightarrow> policy_info list" where
  "to_idql m =
     map (\<lambda>(i, r). role_to_idql m (case map_of (existing_map m) i of None \<Rightarrow> [] | Some as \<Rightarrow> as) r) (role_map m)"

section \<open>The provider\<close>

definition discover_azure :: "'s azure_service \<Rightarrow> 's \<Rightarrow> integration_info \<Rightarrow> application_info list res" where
  "discover_azure az s info =
     (if \<not> equal_fold (integration_name info) ''azure'' then Inr []
      else rbind (try_call (get_web_applications az s)) (\<lambda>found.
        Inr (case found of None \<Rightarrow> [] | Some apps \<Rightarrow> apps)))"

text \<open>The function \<open>ProcessAsync\<close> applies to every assignment.\<close>

definition assignment_user :: "'s azure_service \<Rightarrow> 's \<Rightarrow> role_assignment \<Rightarrow> azure_user res" where
  "assignment_user az s a =
     (let email = (case get_user_info az s (assigned_principal a) of Inl _ \<Rightarrow> [] | Inr u \<Rightarrow> user_email u) in
      if email = [] then Inl (Error (''no email found for principalId '' @ assigned_principal a))
      else Inr \<lparr>user_principal = assigned_principal a, user_email = email\<rparr>)"

definition user_email_map :: "azure_user list \<Rightarrow> string go_map" where
  "user_email_map users =
     foldl (\<lambda>m u. if user_principal u \<noteq> [] \<and> user_email u \<noteq> [] then AList.update (user_principal u) (user_email u) m else m)
       [] users"

text \<open>The results depend on the order in which the users come in, hence a relation.  The errors of the two
  requests are ignored.\<close>

definition azure_get_policy_info :: "'s azure_service \<Rightarrow> 's \<Rightarrow> application_info \<Rightarrow> policy_info list \<Rightarrow> bool" where
  "azure_get_policy_info az s appl ps \<longleftrightarrow>
     (let sps = (case get_service_principals az s (app_description appl) of Inl _ \<Rightarrow> [] | Inr sps \<Rightarrow> sps) in
      case sps of
        [] \<Rightarrow> ps = []
      | sp # _ \<Rightarrow>
          (let as = (case get_app_role_assigned az s (principal_id sp) of Inl _ \<Rightarrow> [] | Inr as \<Rightarrow> as) in
           \<exists>users. process_async as (assignment_user az s) users \<and>
             ps = to_idql (new_azure_mapper sps as (user_email_map users))))"

definition role_ids :: "app_role list \<Rightarrow> string go_map" where
  "role_ids roles = foldl (\<lambda>m r. AList.update (role_value r) (role_id r) m) [] roles"

text \<open>The assignment a subject stands for; a subject whose lookup fails is left out.\<close>

definition subject_assignment :: "'s azure_service \<Rightarrow> 's \<Rightarrow> string \<Rightarrow> string \<Rightarrow> string \<Rightarrow> role_assignment list res" where
  "subject_assignment az s rid sp user =
     rbind (go_index (split_str user '':'') 1) (\<lambda>email.
     rbind (try_call (get_principal_id az s email)) (\<lambda>found.
       case found of
         None \<Rightarrow> Inr []
       | Some pid \<Rightarrow>
           Inr (if pid = [] then []
                else [\<lparr>assignment_id = [], assigned_role = rid, assigned_principal = pid, assigned_resource = sp\<rparr>])))"

definition policy_assignments :: "'s azure_service \<Rightarrow> 's \<Rightarrow> string \<Rightarrow> string \<Rightarrow> policy_info \<Rightarrow> role_assignment list res" where
  "policy_assignments az s rid sp p =
     (if elems (subjects p) = [] then
        Inr [\<lparr>assignment_id = [], assigned_role = rid, assigned_principal = [], assigned_resource = sp\<rparr>]
      else rbind (mapM (subject_assignment az s rid sp) (elems (subjects p))) (\<lambda>ass. Inr (concat ass)))"

definition azure_set_policy :: "'s azure_service \<Rightarrow> service_principal \<Rightarrow> policy_info \<Rightarrow> ('s, unit) run" where
  "azure_set_policy az sp p =
     run_bind (pure_run 500 (go_index (elems (actions p)) 0)) (\<lambda>act.
       case map_of (role_ids (principal_roles sp)) (trim_prefix act ''azure:'') of
         None \<Rightarrow> pure_run 500 (Inr ())
       | Some rid \<Rightarrow>
           run_bind (read_run 500 (\<lambda>s. policy_assignments az s rid (principal_id sp) p)) (\<lambda>as.
             if as = [] then pure_run 500 (Inr ()) else set_app_role_assigned az (principal_id sp) as))"

definition azure_set_policy_info ::
  "'s azure_service \<Rightarrow> arg_validator \<Rightarrow> application_info \<Rightarrow> policy_info list \<Rightarrow> ('s, nat) run" where
  "azure_set_policy_info az v appl ps =
     run_bind (pure_run 500 (validate_arguments v appl ps)) (\<lambda>_.
     run_bind (read_run 500 (\<lambda>s.
       Inr (case get_service_principals az s (app_description appl) of Inl _ \<Rightarrow> [] | Inr sps \<Rightarrow> sps))) (\<lambda>sps.
     run_bind (pure_run 500 (go_index sps 0)) (\<lambda>sp.
     run_bind (run_all (azure_set_policy az sp) ps) (\<lambda>_. pure_run 201 (Inr 201)))))"

end
