(* ===== verification/Azure_Sync.thy ===== *)
theory Azure_Sync
  imports Azure_Provider
begin

text \<open>
  What the Azure provider does to the application role assignments of a service principal, and what
  it reads from them.  The Graph service is known by its documentation only, stated in \<open>azure_graph\<close>
  for a view of its state as a set of assignments.
\<close>

section \<open>What the documentation of the service says\<close>

text \<open>
  The assignments of a service principal have different ids and a principal each.  Listing gives all
  of them; a posted assignment that is accepted (201) is added under a new id; a deletion that is
  accepted (204) removes the assignment with the id.
\<close>

definition assignments_ok :: "role_assignment set \<Rightarrow> bool" where
  "assignments_ok A \<longleftrightarrow> inj_on assignment_id A \<and> (\<forall>a \<in> A. assigned_principal a \<noteq> [])"

definition azure_graph :: "'s azure_service \<Rightarrow> string \<Rightarrow> ('s \<Rightarrow> role_assignment set) \<Rightarrow> bool" where
  "azure_graph az sp view \<longleftrightarrow>
     (\<forall>s as. get_app_role_assigned az s sp = Inr as \<longrightarrow> set as = view s) \<and>
     (\<forall>s t w. az_post az s sp w = (t, Inr 201) \<longrightarrow>
        (\<exists>i. i \<notin> assignment_id ` view s \<and> view t = insert (w\<lparr>assignment_id := i\<rparr>) (view s))) \<and>
     (\<forall>s t i. az_delete az s sp i = (t, Inr 204) \<longrightarrow> view t = {a \<in> view s. assignment_id a \<noteq> i})"

definition grants :: "role_assignment set \<Rightarrow> (string \<times> string \<times> string) set" where
  "grants A = (\<lambda>a. (assigned_role a, assigned_resource a, assigned_principal a)) ` A"

lemma grants_iff:
  "(r, q, p) \<in> grants A \<longleftrightarrow> (\<exists>a \<in> A. assigned_role a = r \<and> assigned_resource a = q \<and> assigned_principal a = p)"
  by (auto simp: grants_def)

lemma do_remove_iff:
  "do_remove e flag ws \<longleftrightarrow>
     \<not> (\<exists>w \<in> set ws. same_grant e w) \<and>
     (flag \<or> (\<exists>w \<in> set ws. assigned_role e = assigned_role w \<and> assigned_resource e = assigned_resource w))"
  by (induction ws arbitrary: flag) (auto simp: same_grant_def)

section \<open>The two runs\<close>

lemma add_runs:
  assumes graph: "azure_graph az sp view" and run: "run_all (add_assignment az sp) ws s = (t, Inr ())"
    and sp: "\<forall>w \<in> set ws. assigned_resource w = sp"
  shows "view s \<subseteq> view t \<and> assignment_id ` (view t - view s) \<inter> assignment_id ` view s = {} \<and>
    grants (view t - view s) = grants (set ws)"
proof -
  let ?P = "\<lambda>ys u. view s \<subseteq> view u \<and> assignment_id ` (view u - view s) \<inter> assignment_id ` view s = {} \<and>
    grants (view u - view s) = grants (set ys)"
  show ?thesis
  proof (rule run_all_invariant [where P = ?P, OF run])
    fix ys y u v
    assume P: "?P ys u" and y: "y \<in> set ws" and step: "add_assignment az sp y u = (v, Inr ())"
    from step have "az_post az u sp (y\<lparr>assignment_id := [], assigned_resource := sp\<rparr>) = (v, Inr 201)"
      by (auto simp: add_assignment_def rbind_iff split: if_splits)
    moreover have "\<forall>s t w. az_post az s sp w = (t, Inr 201) \<longrightarrow>
        (\<exists>i. i \<notin> assignment_id ` view s \<and> view t = insert (w\<lparr>assignment_id := i\<rparr>) (view s))"
      using graph by (simp add: azure_graph_def)
    ultimately obtain i where "i \<notin> assignment_id ` view u"
      "view v = insert (y\<lparr>assignment_id := [], assigned_resource := sp\<rparr>\<lparr>assignment_id := i\<rparr>) (view u)" by blast
    then have i: "i \<notin> assignment_id ` view u"
      "view v = insert (y\<lparr>assigned_resource := sp, assignment_id := i\<rparr>) (view u)" by simp_all
    let ?a = "y\<lparr>assigned_resource := sp, assignment_id := i\<rparr>"
    have new: "?a \<notin> view u" using i(1) by force
    with i(2) P have d: "view v - view s = insert ?a (view u - view s)" by auto
    have "assigned_resource y = sp" using y sp by blast
    then have g: "grants (view v - view s) = grants (set (ys @ [y]))" using P by (simp add: d) (simp add: grants_def)
    have "i \<notin> assignment_id ` view s" using i(1) P by blast
    then have "assignment_id ` (view v - view s) \<inter> assignment_id ` view s = {}" using P by (simp add: d)
    moreover have "view s \<subseteq> view v" using P i(2) by blast
    ultimately show "?P (ys @ [y]) v" using g by blast
  qed (simp add: grants_def)
qed

lemma delete_runs:
  assumes graph: "azure_graph az sp view" and run: "run_all (delete_assignment az sp) js s = (t, Inr ())"
  shows "view t = {a \<in> view s. assignment_id a \<notin> set js}"
proof (rule run_all_invariant [where P = "\<lambda>ys u. view u = {a \<in> view s. assignment_id a \<notin> set ys}", OF run])
  fix ys y u v
  assume P: "view u = {a \<in> view s. assignment_id a \<notin> set ys}" and step: "delete_assignment az sp y u = (v, Inr ())"
  from step have "az_delete az u sp y = (v, Inr 204)"
    by (auto simp: delete_assignment_def rbind_iff split: if_splits)
  with graph have "view v = {a \<in> view u. assignment_id a \<noteq> y}" unfolding azure_graph_def by blast
  with P show "view v = {a \<in> view s. assignment_id a \<notin> set (ys @ [y])}" by auto
qed simp

section \<open>Properties\<close>


text \<open>A service that keeps the assignments of one principal in a list, with ids longer than those in use.\<close>

definition fresh_assignment :: "role_assignment list \<Rightarrow> string" where
  "fresh_assignment as = CHR ''n'' # concat (map assignment_id as)"

definition list_azure :: "role_assignment list azure_service" where
  "list_azure = \<lparr>
     az_applications = (\<lambda>_. Inl (Error ''none'')), az_principals = (\<lambda>_ _. Inl (Error ''none'')),
     az_user = (\<lambda>_ _. Inl (Error ''none'')), az_users = (\<lambda>_ _. Inl (Error ''none'')),
     az_assigned = (\<lambda>as _. Inr \<lparr>status_code = 200, status_text = ''200 OK'', decoded = Inr (Some as)\<rparr>),
     az_post = (\<lambda>as sp w. if assigned_principal w = [] then (as, Inr 400)
                 else (w\<lparr>assignment_id := fresh_assignment as\<rparr> # as, Inr 201)),
     az_delete = (\<lambda>as sp i. (filter (\<lambda>a. assignment_id a \<noteq> i) as, Inr 204)),
     az_validate = (\<lambda>_. None)\<rparr>"

lemma fresh_assignment_new: "fresh_assignment as \<notin> assignment_id ` set as"
proof -
  have "length (assignment_id a) \<le> length (concat (map assignment_id as))" if "a \<in> set as" for a
    using that by (induction as) (force intro: trans_le_add2)+
  then have "assignment_id a \<noteq> fresh_assignment as" if "a \<in> set as" for a
    using that by (force simp: fresh_assignment_def)
  then show ?thesis by (metis imageE)
qed

lemma list_azure_graph: "azure_graph list_azure sp set"
  using fresh_assignment_new
  by (auto simp: azure_graph_def list_azure_def get_app_role_assigned_def get_json_def split: if_splits)

definition granted :: "string \<Rightarrow> string \<Rightarrow> string \<Rightarrow> role_assignment" where
  "granted i r p = \<lparr>assignment_id = i, assigned_role = r, assigned_principal = p, assigned_resource = ''sp''\<rparr>"


section \<open>Reading the policies\<close>

lemma user_email_map_lookup:
  assumes "\<forall>u \<in> set users. user_email u = f (user_principal u)"
  shows "map_of (user_email_map users) p =
    (if p \<noteq> [] \<and> f p \<noteq> [] \<and> p \<in> user_principal ` set users then Some (f p) else None)"
  using assms
proof (induction users rule: rev_induct)
  case (snoc u users)
  then show ?case by (auto simp: user_email_map_def update_conv')
qed (simp add: user_email_map_def)

lemma async_users:
  assumes "process_async as (assignment_user az s) users" and "process_async as (assignment_user az s) users'"
  shows "map_of (user_email_map users) = map_of (user_email_map users')"
proof -
  define f where "f = (\<lambda>p. case get_user_info az s p of Inl _ \<Rightarrow> [] | Inr u \<Rightarrow> user_email u)"
  have sets: "set users = set (ok_results (assignment_user az s) as)" "set users' = set (ok_results (assignment_user az s) as)"
    using assms async_mset by (metis set_mset_mset)+
  have "user_email u = f (user_principal u)" if "u \<in> set (ok_results (assignment_user az s) as)" for u
  proof -
    from that obtain a where "assignment_user az s a = Inr u" by (auto simp: ok_results_iff)
    then show ?thesis
      by (cases "get_user_info az s (assigned_principal a)") (auto simp: assignment_user_def f_def Let_def split: if_splits)
  qed
  then show ?thesis
    using sets by (simp add: fun_eq_iff user_email_map_lookup [of _ f])
qed

text \<open>The requests for the users run at the same time, but the policies read do not depend on the
  order in which they are answered: there is exactly one result.\<close>

lemma azure_policies_unique: "\<exists>!ps. azure_get_policy_info az s appl ps"
proof (cases "case get_service_principals az s (app_description appl) of Inl _ \<Rightarrow> [] | Inr sps \<Rightarrow> sps")
  case Nil
  then show ?thesis by (simp add: azure_get_policy_info_def)
next
  case (Cons sp sps)
  define as where "as = (case get_app_role_assigned az s (principal_id sp) of Inl _ \<Rightarrow> [] | Inr as \<Rightarrow> as)"
  define result where "result = (\<lambda>users. to_idql (new_azure_mapper (sp # sps) as (user_email_map users)))"
  have iff: "azure_get_policy_info az s appl ps \<longleftrightarrow>
      (\<exists>users. process_async as (assignment_user az s) users \<and> ps = result users)" for ps
    using Cons by (simp add: azure_get_policy_info_def as_def result_def Let_def)
  have "result users = result users'"
    if "process_async as (assignment_user az s) users" "process_async as (assignment_user az s) users'" for users users'
  proof -
    have m: "assignment_member (new_azure_mapper (sp # sps) as (user_email_map users)) =
        assignment_member (new_azure_mapper (sp # sps) as (user_email_map users'))"
      by (simp add: fun_eq_iff assignment_member_def new_azure_mapper_def async_users [OF that])
    show ?thesis
      unfolding result_def to_idql_def role_to_idql_def m by (simp add: new_azure_mapper_def)
  qed
  with async_exists [of as "assignment_user az s"] show ?thesis unfolding iff by blast
qed

text \<open>A subject without a colon, as \<open>any\<close> is, makes \<open>SetPolicyInfo\<close> panic.\<close>

lemma azure_any_panics:
  assumes "go_index (elems (actions p)) 0 = Inr act"
    and "map_of (role_ids (principal_roles sp)) (trim_prefix act ''azure:'') = Some rid"
    and "elems (subjects p) = ''any'' # rest"
  shows "azure_set_policy az sp p s = (s, Inl (Crashed ''index out of range''))"
proof -
  have "split_str ''any'' '':'' = [''any'']" by (simp add: split_str_char_absent)
  then show ?thesis
    using assms by (simp add: azure_set_policy_def run_bind_def pure_run_def read_run_def policy_assignments_def
        subject_assignment_def go_index_def)
qed

text \<open>A user that the service does not know makes the lookup by mail panic.\<close>

lemma azure_unknown_user_panics:
  "az_users az s email = Inr \<lparr>status_code = 200, status_text = st, decoded = Inr []\<rparr> \<Longrightarrow>
   get_principal_id az s email = Inl (Panic ''index out of range'')"
  by (simp add: get_principal_id_def get_json_def go_index_def)

end
