(* ===== verification/Google_Provider.thy ===== *)
theory Google_Provider
  imports Provider_Runs Gcp_Bind
begin

text \<open>
  The provider for the Google identity-aware proxy: the client
  (\<^verbatim>\<open>providers/googlecloud/iapProvider/google_client.go\<close>) and the provider
  (\<^verbatim>\<open>google_cloud_provider.go\<close>).

  The HTTP exchange is a parameter: what a request to an address answers in a state of the service,
  with the body as it decodes.  The client never looks at the status of a policy request, so an
  answer is the decoded body or an error.  The credentials give the project.
\<close>

section \<open>The client\<close>

record backend_info =
  backend_id :: string
  backend_name :: string
  backend_description :: string

record app_engine =
  engine_id :: string
  engine_name :: string
  engine_host :: string

record 's google_service =
  google_connect :: "string option"
  google_project :: string
  google_engine :: "'s \<Rightarrow> string \<Rightarrow> (nat \<times> app_engine res) res"
  google_backends :: "'s \<Rightarrow> string \<Rightarrow> backend_info list res"
  google_get_policy :: "'s \<Rightarrow> string \<Rightarrow> iam_binding list res"
  google_set_policy :: "'s \<Rightarrow> string \<Rightarrow> iam_binding list \<Rightarrow> 's \<times> unit res"

definition get_app_engine_applications :: "'s google_service \<Rightarrow> 's \<Rightarrow> application_info list res" where
  "get_app_engine_applications g s =
     rbind (google_engine g s (''https://appengine.googleapis.com/v1/apps/'' @ google_project g)) (\<lambda>(status, body).
       if status = 404 then Inr []
       else rbind body (\<lambda>e.
         Inr [\<lparr>object_id = engine_id e, app_name = engine_name e, app_description = engine_host e,
               app_service = ''AppEngine''\<rparr>]))"

definition backend_application :: "backend_info \<Rightarrow> application_info" where
  "backend_application b =
     \<lparr>object_id = backend_id b, app_name = backend_name b, app_description = backend_description b,
      app_service = (if has_prefix (backend_name b) ''k8s'' then ''Kubernetes'' else ''Cloud Run'')\<rparr>"

definition get_backend_applications :: "'s google_service \<Rightarrow> 's \<Rightarrow> application_info list res" where
  "get_backend_applications g s =
     rbind (google_backends g s
       (''https://compute.googleapis.com/compute/v1/projects/'' @ google_project g @ ''/global/backendServices''))
       (\<lambda>bs. Inr (map backend_application bs))"

definition policy_url :: "'s google_service \<Rightarrow> string \<Rightarrow> string \<Rightarrow> string" where
  "policy_url g name oid =
     (if has_prefix name ''apps'' then
        ''https://iap.googleapis.com/v1/projects/'' @ google_project g @ ''/iap_web/appengine-'' @ oid @ ''/services/default''
      else
        ''https://iap.googleapis.com/v1/projects/'' @ google_project g @ ''/iap_web/compute/services/'' @ oid)"

definition get_backend_policy :: "'s google_service \<Rightarrow> 's \<Rightarrow> string \<Rightarrow> string \<Rightarrow> iam_binding list res" where
  "get_backend_policy g s name oid = google_get_policy g s (policy_url g name oid @ '':getIamPolicy'')"

text \<open>The policy that is set consists of the one binding.\<close>

definition set_backend_policy :: "'s google_service \<Rightarrow> string \<Rightarrow> string \<Rightarrow> iam_binding \<Rightarrow> ('s, unit) run" where
  "set_backend_policy g name oid b =
     request 500 (\<lambda>s. google_set_policy g s (policy_url g name oid @ '':setIamPolicy'') [b])"

section \<open>The provider\<close>

text \<open>Of the applications found before an error nothing is lost; the error of the backends comes first.\<close>

definition discover_google :: "'s google_service \<Rightarrow> 's \<Rightarrow> integration_info \<Rightarrow> (application_info list \<times> string option) res" where
  "discover_google g s info =
     (if \<not> equal_fold (integration_name info) ''gcp_iap'' then Inr ([], None)
      else
        (case google_connect g of
           Some e \<Rightarrow> Inr ([], Some e)
         | None \<Rightarrow>
             (case (get_backend_applications g s, get_app_engine_applications g s) of
                (Inl (Panic m), _) \<Rightarrow> Inl (Panic m)
              | (_, Inl (Panic m)) \<Rightarrow> Inl (Panic m)
              | (Inl (Error e), Inr es) \<Rightarrow> Inr (es, Some e)
              | (Inl (Error e), Inl (Error f)) \<Rightarrow> Inr ([], Some e)
              | (Inr bs, Inl (Error f)) \<Rightarrow> Inr (bs, Some f)
              | (Inr bs, Inr es) \<Rightarrow> Inr (bs @ es, None))))"

definition google_get_policy_info ::
  "'s google_service \<Rightarrow> (string \<Rightarrow> string + cel_expr) \<Rightarrow> attribute_map \<Rightarrow> 's \<Rightarrow> application_info \<Rightarrow> policy_info list res" where
  "google_get_policy_info g cel_parse nm s appl =
     rbind (go_error (google_connect g)) (\<lambda>_.
     rbind (get_backend_policy g s (app_name appl) (object_id appl)) (\<lambda>bs.
       mapM (map_binding_to_policy cel_parse nm (object_id appl)) bs))"

definition google_write_policy ::
  "'s google_service \<Rightarrow> attribute_map \<Rightarrow> application_info \<Rightarrow> policy_info \<Rightarrow> ('s, unit) run" where
  "google_write_policy g nm appl p =
     run_bind (pure_run 500 (map_policy_to_binding nm p)) (\<lambda>b.
       set_backend_policy g (app_name appl) (object_id appl) b)"

definition google_set_policy_info ::
  "'s google_service \<Rightarrow> attribute_map \<Rightarrow> arg_validator \<Rightarrow> application_info \<Rightarrow> policy_info list \<Rightarrow> ('s, nat) run" where
  "google_set_policy_info g nm v appl ps =
     run_bind (pure_run 500 (validate_arguments v appl ps)) (\<lambda>_.
     run_bind (pure_run 500 (go_error (google_connect g))) (\<lambda>_.
     run_bind (run_all (google_write_policy g nm appl) ps) (\<lambda>_. pure_run 201 (Inr 201))))"

section \<open>What the documentation of the service says\<close>

text \<open>An accepted \<open>setIamPolicy\<close> replaces the policy of the resource, which \<open>getIamPolicy\<close> then answers with.\<close>

definition google_iap :: "'s google_service \<Rightarrow> bool" where
  "google_iap g \<longleftrightarrow>
     (\<forall>s t url bs. google_set_policy g s (url @ '':setIamPolicy'') bs = (t, Inr ()) \<longrightarrow>
        google_get_policy g t (url @ '':getIamPolicy'') = Inr bs)"

section \<open>Properties\<close>

text \<open>Every policy written replaces the whole policy of the resource, so after a successful
  \<open>SetPolicyInfo\<close> with several policies only the last one is left, and the others are gone.\<close>

lemma google_last_policy_stays:
  assumes "google_iap g" and "google_set_policy_info g nm v appl (ps @ [p]) s = (t, Inr status)"
  shows "\<exists>b. map_policy_to_binding nm p = Inr b \<and>
    get_backend_policy g t (app_name appl) (object_id appl) = Inr [b] \<and>
    google_get_policy_info g cel_parse nm t appl =
      rbind (map_binding_to_policy cel_parse nm (object_id appl) b) (\<lambda>q. Inr [q])"
proof -
  from assms(2) obtain u b where c: "google_connect g = None" and b: "map_policy_to_binding nm p = Inr b"
    and set: "google_set_policy g u (policy_url g (app_name appl) (object_id appl) @ '':setIamPolicy'') [b] = (t, Inr ())"
    by (auto simp: google_set_policy_info_def google_write_policy_def set_backend_policy_def rbind_iff run_all_append)
  from set assms(1) have "get_backend_policy g t (app_name appl) (object_id appl) = Inr [b]"
    unfolding google_iap_def get_backend_policy_def by blast
  with b c show ?thesis by (simp add: google_get_policy_info_def go_error_def)
qed

text \<open>A service that keeps one policy for all resources.\<close>

definition one_policy_service :: "iam_binding list google_service" where
  "one_policy_service = \<lparr>google_connect = None, google_project = ''project'',
     google_engine = (\<lambda>_ _. Inr (404, Inl (Error ''not found''))), google_backends = (\<lambda>_ _. Inr []),
     google_get_policy = (\<lambda>s _. Inr s), google_set_policy = (\<lambda>_ _ bs. (bs, Inr ()))\<rparr>"

definition sample_app :: application_info where
  "sample_app = \<lparr>object_id = ''id'', app_name = ''apps/one'', app_description = [], app_service = []\<rparr>"

definition open_validator :: arg_validator where
  "open_validator = \<lparr>valid_application = (\<lambda>_. None), valid_policies = (\<lambda>_. None)\<rparr>"

end
