(* ===== verification/Policy_Json.thy ===== *)
theory Policy_Json
  imports Hexa_Policy "HOL-Library.Multiset"
begin

text \<open>
  Reading a policy from JSON, \<open>UnmarshalJSON\<close> of \<^verbatim>\<open>pkg/hexapolicy/hexa_policy.go\<close>: the fields of the object in the
  order in which Go ranges over their map, the spellings they may have, and the formats of earlier versions.

  The decoders of the parts are those \<^verbatim>\<open>encoding/json\<close> makes from the structures, and parameters.  They are given
  what an earlier field has left in the variable, where decoding merges with it.
\<close>

section \<open>Errors\<close>

text \<open>Two kinds of errors have an offset in the text.\<close>

datatype decode_error = SyntaxError string nat | TypeError string nat | OtherError string

definition problem_part :: "string \<Rightarrow> nat \<Rightarrow> string res" where
  "problem_part data n = go_slice data (n - 10) (min (n + 10) (length data))"

definition enhance_error :: "decode_error \<Rightarrow> string \<Rightarrow> string res" where
  "enhance_error e data =
     (case e of
        SyntaxError m n \<Rightarrow>
          rbind (problem_part data n) (\<lambda>p. Inr (m @ '' - error near '' @ [CHR 0x27] @ p @ [CHR 0x27]))
      | TypeError m n \<Rightarrow>
          rbind (problem_part data n) (\<lambda>p. Inr (m @ '' - type error near '' @ [CHR 0x27] @ p @ [CHR 0x27]))
      | OtherError m \<Rightarrow> Inr m)"

section \<open>Fields\<close>

type_synonym 'a decoder = "string \<Rightarrow> decode_error + 'a"

record part_decoders =
  decode_meta :: "meta_info \<Rightarrow> meta_info decoder"
  decode_texts :: "string slice \<Rightarrow> string slice decoder"
  decode_old_subject :: "string slice decoder"
  decode_old_actions :: "string list decoder"
  decode_text :: "string decoder"
  decode_old_object :: "string decoder"
  decode_scope :: "scope_info option \<Rightarrow> scope_info option decoder"
  decode_condition :: "condition_info option \<Rightarrow> condition_info option decoder"

definition upgrade_meta :: "meta_info \<Rightarrow> meta_info" where
  "upgrade_meta m = (if equal_fold (meta_version m) ''0.7'' then m else m\<lparr>meta_version := ''0.7''\<rparr>)"

text \<open>The newer format first; of two errors the later one counts.\<close>

definition or_else :: "'e + 'a \<Rightarrow> 'e + 'a \<Rightarrow> 'e + 'a" where
  "or_else r r' = (case r of Inl _ \<Rightarrow> r' | Inr x \<Rightarrow> Inr x)"

definition decode_actions :: "part_decoders \<Rightarrow> string slice \<Rightarrow> string slice decoder" where
  "decode_actions d as0 v =
     or_else (decode_texts d as0 v) (rbind (decode_old_actions d v) (\<lambda>as. Inr (if as = [] then None else Some as)))"

definition decode_object :: "part_decoders \<Rightarrow> string decoder" where
  "decode_object d v = or_else (decode_text d v) (decode_old_object d v)"

text \<open>What becomes of a decoded part, or of the error.\<close>

definition take_part :: "string \<Rightarrow> decode_error + 'a \<Rightarrow> ('a \<Rightarrow> 'b) \<Rightarrow> 'b res" where
  "take_part v r f = (case r of Inl e \<Rightarrow> rbind (enhance_error e v) (\<lambda>m. Inl (Error m)) | Inr x \<Rightarrow> Inr (f x))"

text \<open>A null is a nil pointer to the text of the field; only for the actions it is looked for.\<close>

definition decode_field :: "part_decoders \<Rightarrow> policy_info \<Rightarrow> string \<times> string option \<Rightarrow> policy_info res" where
  "decode_field d p = (\<lambda>(k, raw).
     if k = ''Meta'' \<or> k = ''meta'' then
       rbind (go_deref raw) (\<lambda>v. take_part v (decode_meta d (meta p) v) (\<lambda>m. p\<lparr>meta := upgrade_meta m\<rparr>))
     else if k = ''Subjects'' \<or> k = ''subjects'' then
       rbind (go_deref raw) (\<lambda>v. take_part v (decode_texts d (subjects p) v) (\<lambda>s. p\<lparr>subjects := s\<rparr>))
     else if k = ''Subject'' \<or> k = ''subject'' then
       rbind (go_deref raw) (\<lambda>v. take_part v (decode_old_subject d v) (\<lambda>s. p\<lparr>subjects := s\<rparr>))
     else if k = ''Actions'' \<or> k = ''actions'' then
       (case raw of
          None \<Rightarrow> Inr p
        | Some v \<Rightarrow> take_part v (decode_actions d (actions p) v) (\<lambda>a. p\<lparr>actions := a\<rparr>))
     else if k = ''Object'' \<or> k = ''object'' then
       rbind (go_deref raw) (\<lambda>v. take_part v (decode_object d v) (\<lambda>x. p\<lparr>object_info := x\<rparr>))
     else if k = ''Scope'' \<or> k = ''scope'' then
       rbind (go_deref raw) (\<lambda>v. take_part v (decode_scope d (scope p) v) (\<lambda>s. p\<lparr>scope := s\<rparr>))
     else if k = ''Condition'' \<or> k = ''condition'' then
       rbind (go_deref raw) (\<lambda>v. take_part v (decode_condition d (condition p) v) (\<lambda>c. p\<lparr>condition := c\<rparr>))
     else Inr p)"

definition empty_policy :: policy_info where
  "empty_policy = \<lparr>meta = \<lparr>meta_version = [], source_data = None, description = [], created = None, modified = None,
       etag = [], policy_id = None, pap_id = None, provider_type = []\<rparr>,
     subjects = None, actions = None, object_info = [], condition = None, scope = None\<rparr>"

definition decode_fields :: "part_decoders \<Rightarrow> (string \<times> string option) list \<Rightarrow> policy_info res" where
  "decode_fields d fs = foldM (decode_field d) empty_policy fs"

text \<open>The object, with nil for a null; a null instead of an object has no fields, and an empty text changes nothing.\<close>

definition raw_fields :: "string \<Rightarrow> (string \<times> string option) list res" where
  "raw_fields text =
     (if has_prefix (skip_ws text) ''null'' \<and> skip_ws (drop 4 (skip_ws text)) = [] then Inr []
      else
        rbind (json_object_fields text) (\<lambda>m.
          Inr (map (\<lambda>(k, v). (k, if takeWhile (Not \<circ> json_space) v = ''null'' then None else Some v)) m)))"

definition unmarshal_policy :: "part_decoders \<Rightarrow> string \<Rightarrow> policy_info \<Rightarrow> policy_info res" where
  "unmarshal_policy d text p = (if text = [] then Inr p else rbind (raw_fields text) (decode_fields d))"

section \<open>Fields and parts\<close>

datatype part = MetaPart | SubjectPart | ActionPart | ObjectPart | ScopePart | ConditionPart

definition part_of :: "string \<Rightarrow> part option" where
  "part_of k =
     (if k = ''Meta'' \<or> k = ''meta'' then Some MetaPart
      else if k \<in> {''Subjects'', ''subjects'', ''Subject'', ''subject''} then Some SubjectPart
      else if k = ''Actions'' \<or> k = ''actions'' then Some ActionPart
      else if k = ''Object'' \<or> k = ''object'' then Some ObjectPart
      else if k = ''Scope'' \<or> k = ''scope'' then Some ScopePart
      else if k = ''Condition'' \<or> k = ''condition'' then Some ConditionPart
      else None)"

lemma take_part_Inr [rbind_iff]: "take_part v r f = Inr y \<longleftrightarrow> (\<exists>x. r = Inr x \<and> y = f x)"
  by (auto simp: take_part_def rbind_iff split: sum.splits)

text \<open>Two names of one part: the later of the two fields counts.\<close>

definition separate_parts :: "string \<times> string option \<Rightarrow> string \<times> string option \<Rightarrow> bool" where
  "separate_parts f g \<longleftrightarrow> part_of (fst f) = None \<or> part_of (fst g) = None \<or> part_of (fst f) \<noteq> part_of (fst g)"

text \<open>A field changes its own part, to a value that depends on that part only.\<close>

fun set_part :: "part option \<Rightarrow> policy_info \<Rightarrow> policy_info \<Rightarrow> policy_info" where
  "set_part None q p = p"
| "set_part (Some MetaPart) q p = p\<lparr>meta := meta q\<rparr>"
| "set_part (Some SubjectPart) q p = p\<lparr>subjects := subjects q\<rparr>"
| "set_part (Some ActionPart) q p = p\<lparr>actions := actions q\<rparr>"
| "set_part (Some ObjectPart) q p = p\<lparr>object_info := object_info q\<rparr>"
| "set_part (Some ScopePart) q p = p\<lparr>scope := scope q\<rparr>"
| "set_part (Some ConditionPart) q p = p\<lparr>condition := condition q\<rparr>"

fun same_part :: "part option \<Rightarrow> policy_info \<Rightarrow> policy_info \<Rightarrow> bool" where
  "same_part None p q \<longleftrightarrow> True"
| "same_part (Some MetaPart) p q \<longleftrightarrow> meta p = meta q"
| "same_part (Some SubjectPart) p q \<longleftrightarrow> subjects p = subjects q"
| "same_part (Some ActionPart) p q \<longleftrightarrow> actions p = actions q"
| "same_part (Some ObjectPart) p q \<longleftrightarrow> True"
| "same_part (Some ScopePart) p q \<longleftrightarrow> scope p = scope q"
| "same_part (Some ConditionPart) p q \<longleftrightarrow> condition p = condition q"

lemma rbind_take_part_Inr [rbind_iff]:
  "rbind (go_deref raw) (\<lambda>v. take_part v (r v) (f v)) = Inr y \<longleftrightarrow> (\<exists>v x. raw = Some v \<and> r v = Inr x \<and> y = f v x)"
  by (cases raw) (auto simp: rbind_iff go_deref_def)

definition field_names :: "string list" where
  "field_names =
     [''Meta'', ''meta'', ''Subjects'', ''subjects'', ''Subject'', ''subject'', ''Actions'', ''actions'', ''Object'',
      ''object'', ''Scope'', ''scope'', ''Condition'', ''condition'']"

lemma decode_field_unknown:
  assumes "k \<notin> set field_names"
  shows "decode_field d p (k, raw) = Inr p" and "part_of k = None"
  using assms by (simp_all add: decode_field_def part_of_def field_names_def)

lemma field_name_cases:
  assumes "k \<notin> set field_names \<Longrightarrow> P"
    and "list_all (\<lambda>n. k = n \<longrightarrow> P) field_names"
  shows P
  using assms by (auto simp: list_all_iff)

lemma decode_field_own:
  assumes "decode_field d p (k, raw) = Inr q"
  shows "q = set_part (part_of k) q p"
proof (rule field_name_cases [of k])
  show "k \<notin> set field_names \<Longrightarrow> q = set_part (part_of k) q p"
    using assms by (simp add: decode_field_unknown)
  show "list_all (\<lambda>n. k = n \<longrightarrow> q = set_part (part_of k) q p) field_names"
    using assms unfolding field_names_def list.pred_inject
    by - (intro conjI impI TrueI; clarsimp simp: decode_field_def part_of_def rbind_iff split: option.split_asm)
qed

lemma decode_field_local:
  assumes "decode_field d p (k, raw) = Inr q" and "same_part (part_of k) p p'"
  shows "decode_field d p' (k, raw) = Inr (set_part (part_of k) q p')"
proof (rule field_name_cases [of k])
  show "k \<notin> set field_names \<Longrightarrow> ?thesis"
    by (simp add: decode_field_unknown)
  show "list_all (\<lambda>n. k = n \<longrightarrow> decode_field d p' (k, raw) = Inr (set_part (part_of k) q p')) field_names"
    using assms unfolding field_names_def list.pred_inject
    by - (intro conjI impI TrueI; clarsimp simp: decode_field_def part_of_def rbind_iff split: option.split_asm)
qed

lemma set_part_other:
  assumes "k = None \<or> l = None \<or> k \<noteq> l"
  shows "same_part l (set_part k q p) p" and "same_part l p (set_part k q p)"
    and "set_part k q (set_part l r p) = set_part l r (set_part k q p)"
    and "set_part l (set_part l r (set_part k q p)) p' = set_part l (set_part l r p) p'"
  using assms by (cases "(k, q, p)" rule: set_part.cases; cases "(l, q, p)" rule: set_part.cases; simp)+

section \<open>The order of the fields\<close>

lemma decode_field_commute:
  assumes "separate_parts f g"
    and "rbind (decode_field d p f) (\<lambda>p. decode_field d p g) = Inr q"
  shows "rbind (decode_field d p g) (\<lambda>p. decode_field d p f) = Inr q"
proof -
  obtain k v l w where fg: "f = (k, v)" "g = (l, w)" by (cases f; cases g) auto
  have sep: "part_of k = None \<or> part_of l = None \<or> part_of k \<noteq> part_of l"
    and sep': "part_of l = None \<or> part_of k = None \<or> part_of l \<noteq> part_of k"
    using assms(1) by (auto simp: separate_parts_def fg)
  obtain r where r: "decode_field d p (k, v) = Inr r" "decode_field d r (l, w) = Inr q"
    using assms(2) by (auto simp: fg rbind_iff)
  have rr: "r = set_part (part_of k) r p" by (rule decode_field_own [OF r(1)])
  have qq: "q = set_part (part_of l) q r" by (rule decode_field_own [OF r(2)])
  have "same_part (part_of l) r p" by (subst rr) (rule set_part_other(1) [OF sep])
  from decode_field_local [OF r(2) this] have g: "decode_field d p (l, w) = Inr (set_part (part_of l) q p)" .
  have "same_part (part_of k) p (set_part (part_of l) q p)" by (rule set_part_other(2) [OF sep'])
  from decode_field_local [OF r(1) this]
  have "decode_field d (set_part (part_of l) q p) (k, v) = Inr (set_part (part_of k) r (set_part (part_of l) q p))" .
  also have "set_part (part_of k) r (set_part (part_of l) q p) = q"
    by (subst set_part_other(3) [OF sep], subst rr [symmetric], rule qq [symmetric])
  finally show ?thesis by (simp add: g fg)
qed

lemma foldM_move:
  assumes "\<And>y s t. y \<in> set ys \<Longrightarrow> rbind (f s x) (\<lambda>s. f s y) = Inr t \<Longrightarrow> rbind (f s y) (\<lambda>s. f s x) = Inr t"
    and "foldM f s (x # ys @ zs) = Inr t"
  shows "foldM f s (ys @ x # zs) = Inr t"
  using assms
proof (induction ys arbitrary: s)
  case (Cons y ys)
  obtain u v where "f s x = Inr u" "f u y = Inr v" and v: "foldM f v (ys @ zs) = Inr t"
    using Cons.prems(2) by (auto simp: rbind_iff)
  then have "rbind (f s y) (\<lambda>s. f s x) = Inr v" using Cons.prems(1) [of y s v] by simp
  then obtain w where "f s y = Inr w" "f w x = Inr v" by (auto simp: rbind_iff)
  with v Cons.IH [of w] Cons.prems(1) show ?case by simp
qed simp

text \<open>Steps that commute where they succeed can be taken in any order.\<close>

lemma foldM_any_order:
  assumes "\<And>x y s t. R x y \<Longrightarrow> rbind (f s x) (\<lambda>s. f s y) = Inr t \<Longrightarrow> rbind (f s y) (\<lambda>s. f s x) = Inr t"
    and "sorted_wrt R xs" and "mset ys = mset xs" and "foldM f s xs = Inr t"
  shows "foldM f s ys = Inr t"
  using assms(2-4)
proof (induction xs arbitrary: s ys)
  case (Cons x xs)
  have "x \<in> set ys" using Cons.prems(2) by (metis list.set_intros(1) set_mset_mset)
  then obtain us vs where ys: "ys = us @ x # vs" by (auto simp: in_set_conv_decomp)
  then have eq: "mset (us @ vs) = mset xs" using Cons.prems(2) by simp
  obtain u where u: "f s x = Inr u" "foldM f u xs = Inr t" using Cons.prems(3) by (auto simp: rbind_iff)
  have "foldM f u (us @ vs) = Inr t" using Cons.IH [OF _ eq u(2)] Cons.prems(1) by simp
  then have "foldM f s (x # us @ vs) = Inr t" using u(1) by simp
  moreover have "set us \<subseteq> set xs" using mset_eq_setD [OF eq] by auto
  ultimately show ?case unfolding ys using Cons.prems(1) assms(1) by (intro foldM_move) auto
qed simp


text \<open>Property C23.  Go ranges over the map of the fields in any order: the policy read from an object does not depend
  on it as long as no part of the policy is given under two names (such as both \<open>subject\<close> and \<open>subjects\<close>).
\<close>

theorem field_order_irrelevant:
  assumes "sorted_wrt separate_parts fs" and "mset gs = mset fs" and "decode_fields d fs = Inr p"
  shows "decode_fields d gs = Inr p"
  using assms decode_field_commute unfolding decode_fields_def by (rule foldM_any_order [rotated])

definition plain_decoders :: part_decoders where
  "plain_decoders =
     \<lparr>decode_meta = (\<lambda>m v. Inr (m\<lparr>description := v\<rparr>)),
      decode_texts = (\<lambda>_ v. if has_prefix v ''['' then Inr (Some [v]) else Inl (TypeError ''not an array'' 1)),
      decode_old_subject = (\<lambda>v. Inr (Some [''any''])), decode_old_actions = (\<lambda>v. Inr [v]),
      decode_text = (\<lambda>v. Inr v), decode_old_object = (\<lambda>v. Inr v),
      decode_scope = (\<lambda>s v. Inr s), decode_condition = (\<lambda>c v. Inr c)\<rparr>"

theorem field_order_irrelevant_witness:
  "decode_fields plain_decoders
     [(''object'', Some ''res''), (''actions'', None), (''subject'', Some ''{}''), (''rest'', None)]
   = Inr (empty_policy\<lparr>subjects := Some [''any''], object_info := ''res''\<rparr>)"
  by (rule field_order_irrelevant [where fs = "[(''subject'', Some ''{}''), (''rest'', None), (''object'', Some ''res''), (''actions'', None)]"])
    (simp_all add: separate_parts_def part_of_def decode_fields_def decode_field_def take_part_def plain_decoders_def
      go_deref_def decode_object_def or_else_def empty_policy_def)

text \<open>Under both names the order decides.\<close>

lemma both_subject_names:
  "decode_fields plain_decoders [(''subject'', Some ''{}''), (''subjects'', Some ''[]'')]
     = Inr (empty_policy\<lparr>subjects := Some [''[]'']\<rparr>)"
  "decode_fields plain_decoders [(''subjects'', Some ''[]''), (''subject'', Some ''{}'')]
     = Inr (empty_policy\<lparr>subjects := Some [''any'']\<rparr>)"
  by (simp_all add: decode_fields_def decode_field_def take_part_def plain_decoders_def go_deref_def has_prefix_def)

text \<open>A null under any name of a part but the actions is a nil pointer that is followed.\<close>

lemma null_field_panics:
  assumes "part_of k \<notin> {None, Some ActionPart}"
  shows "decode_field d p (k, None) = Inl (Panic ''nil pointer dereference'')"
  using assms by (auto simp: decode_field_def part_of_def go_deref_def split: if_split_asm)

lemma null_condition_panics:
  "unmarshal_policy d (''{'' @ [dq] @ ''condition'' @ [dq] @ '': null}'') p
   = Inl (Panic ''nil pointer dereference'')"
proof -
  have "raw_fields (''{'' @ [dq] @ ''condition'' @ [dq] @ '': null}'') = Inr [(''condition'', None)]" by code_simp
  then show ?thesis by (simp add: unmarshal_policy_def decode_fields_def null_field_panics part_of_def)
qed

text \<open>A policy that is read with a \<open>meta\<close> part has the current version.\<close>

lemma decode_field_version:
  assumes "decode_field d p (k, raw) = Inr q" and "part_of k = Some MetaPart \<or> equal_fold (meta_version (meta p)) ''0.7''"
  shows "equal_fold (meta_version (meta q)) ''0.7''"
proof (cases "part_of k = Some MetaPart")
  case True
  then have "k = ''Meta'' \<or> k = ''meta''" by (auto simp: part_of_def split: if_split_asm)
  then show ?thesis using assms(1) by (auto simp: decode_field_def rbind_iff upgrade_meta_def)
next
  case False
  have "meta q = meta p"
    by (subst decode_field_own [OF assms(1)]) (use False in \<open>cases "(part_of k, q, p)" rule: set_part.cases; simp\<close>)
  with False assms(2) show ?thesis by simp
qed

lemma decode_fields_version:
  assumes "decode_fields d fs = Inr q" and "\<exists>f\<in>set fs. part_of (fst f) = Some MetaPart"
  shows "equal_fold (meta_version (meta q)) ''0.7''"
proof -
  have "(\<exists>f\<in>set fs. part_of (fst f) = Some MetaPart) \<longrightarrow> equal_fold (meta_version (meta q)) ''0.7''"
    using assms(1) unfolding decode_fields_def
  proof (rule foldM_invariant)
    fix u v and y :: "string \<times> string option" and ys :: "(string \<times> string option) list"
    assume old: "(\<exists>f\<in>set ys. part_of (fst f) = Some MetaPart) \<longrightarrow> equal_fold (meta_version (meta u)) ''0.7''"
      and step: "decode_field d u y = Inr v"
    show "(\<exists>f\<in>set (ys @ [y]). part_of (fst f) = Some MetaPart) \<longrightarrow> equal_fold (meta_version (meta v)) ''0.7''"
      using old decode_field_version [of d u "fst y" "snd y" v] step by auto
  qed simp
  with assms(2) show ?thesis by blast
qed

text \<open>An error keeps at most twenty bytes of the text, and finding them never fails within it.\<close>

lemma enhance_error_returns:
  assumes "case e of SyntaxError m n \<Rightarrow> n \<le> length data + 10 | TypeError m n \<Rightarrow> n \<le> length data + 10 | OtherError m \<Rightarrow> True"
  shows "\<exists>m. enhance_error e data = Inr m"
  using assms by (cases e) (auto simp: enhance_error_def problem_part_def go_slice_def)

end
