(* ===== verification/Jwt_Auth.thy ===== *)
theory Jwt_Auth
  imports Hexa_Policy
begin

text \<open>
  Bearer tokens: the authorizer that protects a resource
  (\<^verbatim>\<open>pkg/oauth2support/jwt_token_support.go\<close>) and the issuer of tokens
  (\<^verbatim>\<open>pkg/tokensupport/tokenGenerator.go\<close>).

  JWT parsing, signing and key loading are libraries and parameters: a parser takes the text of a
  token and gives its claims, once signature and times are checked.  A request is its headers, a
  response what the handler writes before it stops.  The environment is a function from names to
  texts, an unset variable being empty.
\<close>

section \<open>Data\<close>

record token_claims =
  claim_subject :: string
  claim_issuer :: string
  claim_audience :: "string list"
  claim_email :: string
  claim_scope :: string
  claim_roles :: "string slice"

record authorizer =
  auth_jwks_url :: string
  auth_realm :: string
  auth_enabled :: bool
  auth_key :: "string \<Rightarrow> token_claims res"
  auth_audience :: string

type_synonym headers = "string go_map"

record response =
  response_status :: nat
  response_challenge :: string

definition header_get :: "headers \<Rightarrow> string \<Rightarrow> string" where
  "header_get h k = (case map_of h k of None \<Rightarrow> [] | Some v \<Rightarrow> v)"

section \<open>Authentication\<close>

definition jwt_scope_match :: "string list \<Rightarrow> string list \<Rightarrow> bool" where
  "jwt_scope_match accepted have_scopes \<longleftrightarrow> (\<exists>a \<in> set accepted. \<exists>s \<in> set have_scopes. equal_fold s a)"

definition bearer_realm :: "authorizer \<Rightarrow> string" where
  "bearer_realm a = ''Bearer realm='' @ [dq] @ auth_realm a @ [dq]"

definition challenge :: "authorizer \<Rightarrow> nat \<Rightarrow> string \<Rightarrow> string \<Rightarrow> response" where
  "challenge a status err desc =
     \<lparr>response_status = status,
      response_challenge = bearer_realm a @ '', error='' @ [dq] @ err @ [dq] @ '', error_description='' @ [dq] @ desc @ [dq]\<rparr>"

definition no_authorization :: "authorizer \<Rightarrow> response" where
  "no_authorization a = \<lparr>response_status = 401, response_challenge = bearer_realm a\<rparr>"

definition audience_matches :: "authorizer \<Rightarrow> token_claims \<Rightarrow> bool" where
  "audience_matches a c \<longleftrightarrow> auth_audience a = [] \<or> (\<exists>x \<in> set (claim_audience c). equal_fold x (auth_audience a))"

text \<open>The scopes first, then the roles; without accepted scopes anything goes.\<close>

definition scope_accepted :: "string slice \<Rightarrow> token_claims \<Rightarrow> bool" where
  "scope_accepted accepted c =
     (if accepted = None then True
      else if jwt_scope_match (elems accepted) (split_str (claim_scope c) '' '') then True
      else if elems (claim_roles c) \<noteq> [] then jwt_scope_match (elems accepted) (elems (claim_roles c))
      else False)"

text \<open>The request with the headers that are added, and the claims of the token or the rejection.\<close>

definition authenticate ::
  "authorizer \<Rightarrow> headers \<Rightarrow> string slice \<Rightarrow> (headers \<times> (response + token_claims)) res" where
  "authenticate a h accepted =
     (let authorization = header_get h ''Authorization'' in
      if authorization = [] then Inr (h, Inl (no_authorization a))
      else
        (case split_str authorization '' '' of
           kind # token # _ \<Rightarrow>
             if equal_fold kind ''bearer'' then
               (case auth_key a (trim_space token) of
                  Inl (Panic m) \<Rightarrow> Inl (Panic m)
                | Inl (Error e) \<Rightarrow> Inr (h, Inl (challenge a 401 ''invalid_token'' e))
                | Inr c \<Rightarrow>
                    (let h' = AList.update ''X-JWT-EMAIL'' (claim_email c)
                                (AList.update ''X-JWT-SUBJECT'' (claim_subject c) h) in
                     if \<not> audience_matches a c then Inr (h', Inl (challenge a 401 ''invalid_token'' ''invalid audience''))
                     else if \<not> scope_accepted accepted c then
                       Inr (h', Inl (challenge a 403 ''insufficient_scope''
                         (''requires scope='' @ join_str (elems accepted) '','')))
                     else Inr (h', Inr c)))
             else Inr (h, Inl (challenge a 401 ''invalid_token'' ''Bearer token required''))
         | _ \<Rightarrow> Inr (h, Inl (challenge a 401 ''invalid_token'' ''Missing authorization type or value''))))"

definition validate_authorization :: "authorizer \<Rightarrow> headers \<Rightarrow> string slice \<Rightarrow> token_claims option res" where
  "validate_authorization a h accepted =
     rbind (authenticate a h accepted) (\<lambda>(_, r). Inr (case r of Inl _ \<Rightarrow> None | Inr c \<Rightarrow> Some c))"

text \<open>The middleware: the request that is passed on, or the response that ends it.\<close>

definition jwt_authentication_handler :: "authorizer \<Rightarrow> string slice \<Rightarrow> headers \<Rightarrow> (response + headers) res" where
  "jwt_authentication_handler a accepted h =
     (if \<not> auth_enabled a then Inr (Inr h)
      else if header_get h ''Authorization'' = [] then Inr (Inl (no_authorization a))
      else
        rbind (authenticate a h accepted) (\<lambda>(h', r).
          Inr (case r of
                 Inl resp \<Rightarrow> Inl resp
               | Inr c \<Rightarrow> Inr (AList.update ''X-Subject'' (claim_subject c) h'))))"

section \<open>The authorizer from the environment\<close>

text \<open>The two ways to load keys: from an address, and from the PEM block of a file, which may be missing.\<close>

record key_loader =
  load_url :: "string \<Rightarrow> (string \<Rightarrow> token_claims res) res"
  read_pem :: "string \<Rightarrow> string option res"
  public_key :: "string \<Rightarrow> string \<Rightarrow> (string \<Rightarrow> token_claims res) res"

definition key_func_from_file :: "key_loader \<Rightarrow> string \<Rightarrow> string \<Rightarrow> (string \<Rightarrow> token_claims res) res" where
  "key_func_from_file l name path =
     (case read_pem l path of
        Inl (Panic m) \<Rightarrow> Inl (Panic m)
      | Inl (Error e) \<Rightarrow> Inl (Error (''Unalbe to load public key ('' @ path @ ''): '' @ e))
      | Inr pem \<Rightarrow> rbind (go_deref pem) (\<lambda>der. public_key l name der))"

definition disabled_authorizer :: authorizer where
  "disabled_authorizer = \<lparr>auth_jwks_url = [], auth_realm = [], auth_enabled = False,
     auth_key = (\<lambda>_. Inl (Panic ''nil pointer dereference'')), auth_audience = []\<rparr>"

definition new_resource_jwt_authorizer :: "(string \<Rightarrow> string) \<Rightarrow> key_loader \<Rightarrow> authorizer res" where
  "new_resource_jwt_authorizer env l =
     (if env ''HEXA_JWT_AUTH_ENABLE'' \<noteq> ''true'' then Inr disabled_authorizer
      else
        (let url = env ''HEXA_TOKEN_JWKSURL''; path = env ''HEXA_TKN_PUBKEYFILE'' in
         if url = [] \<and> path = [] then
           Inl (Error ''One of HEXA_OAUTH_TOKEN_ENDPOINT or HEXA_TKN_PUBKEYFILE environment variables must be set to validate authorizations'')
         else
           rbind (if url \<noteq> [] then load_url l url else key_func_from_file l (env ''HEXA_JWT_KID'') path) (\<lambda>key.
             Inr \<lparr>auth_jwks_url = url,
                  auth_realm = (if env ''HEXA_JWT_REALM'' = [] then ''UNDEFINED'' else env ''HEXA_JWT_REALM''),
                  auth_enabled = True, auth_key = key, auth_audience = env ''HEXA_JWT_AUDIENCE''\<rparr>)))"

section \<open>Issued tokens\<close>

text \<open>The handler: its name and its private key, given by what it signs, if it has one.\<close>

record token_handler =
  token_issuer :: string
  private_key :: "(token_claims \<Rightarrow> string res) option"

definition issued_claims :: "'a token_handler_scheme \<Rightarrow> string slice \<Rightarrow> string \<Rightarrow> token_claims" where
  "issued_claims t scopes email =
     \<lparr>claim_subject = [], claim_issuer = token_issuer t, claim_audience = [token_issuer t], claim_email = email,
      claim_scope = [], claim_roles = scopes\<rparr>"

definition issue_token :: "'a token_handler_scheme \<Rightarrow> string slice \<Rightarrow> string \<Rightarrow> string res" where
  "issue_token t scopes email =
     (case private_key t of
        None \<Rightarrow> Inl (Error ''validation mode only'')
      | Some sign \<Rightarrow> sign (issued_claims t scopes email))"

section \<open>Lemmas\<close>

lemma scope_accepted_iff:
  "scope_accepted accepted c \<longleftrightarrow>
     (case accepted of
        None \<Rightarrow> True
      | Some as \<Rightarrow> jwt_scope_match as (split_str (claim_scope c) '' '' @ elems (claim_roles c)))"
  by (auto simp: scope_accepted_def jwt_scope_match_def split: option.splits)

section \<open>Properties\<close>


text \<open>A token issued for some scopes is accepted, as its roles, wherever one of them is asked for,
  by an authorizer with the matching key and the issuer as its audience.\<close>

lemma issued_token_accepted:
  assumes "issue_token t (Some scopes) email = Inr token"
    and "auth_key a token = Inr (issued_claims t (Some scopes) email)"
    and "token \<noteq> []" and "\<not> is_space (hd token)" and "\<not> is_space (last token)" and "CHR '' '' \<notin> set token"
    and "equal_fold (token_issuer t) (auth_audience a)"
  shows "validate_authorization a [(''Authorization'', ''Bearer '' @ token)] (Some accepted) =
    Inr (if jwt_scope_match accepted ([] # scopes) then Some (issued_claims t (Some scopes) email) else None)"
proof -
  have "split_str (''Bearer'' @ CHR '' '' # token) '' '' = [''Bearer'', token]"
    using assms(6) by (subst split_str_char) (simp_all add: split_str_char_absent)
  then have s: "split_str (''Bearer '' @ token) '' '' = [''Bearer'', token]" by simp
  have t: "trim_space token = token" using assms(3-5) by (intro trim_space_id) simp
  have "split_str [] '' '' = [[]]" by (simp add: split_str_char_absent)
  moreover have "equal_fold ''Bearer'' ''bearer''" by (simp add: equal_fold_def to_lower_def lower_others)
  ultimately show ?thesis
    using assms(2,7)
    by (simp add: validate_authorization_def authenticate_def header_get_def s [simplified] t audience_matches_def
        scope_accepted_iff issued_claims_def)
qed

lemma issued_token_accepted_witness:
  "let t = \<lparr>token_issuer = ''hexa'', private_key = Some (\<lambda>_. Inr ''a.b.c'')\<rparr>;
       a = \<lparr>auth_jwks_url = [], auth_realm = ''test'', auth_enabled = True,
             auth_key = (\<lambda>s. if s = ''a.b.c'' then Inr (issued_claims t (Some [''az'', ''root'']) ''a@b.c'')
                             else Inl (Error ''token is malformed'')),
             auth_audience = ''HEXA''\<rparr>
   in validate_authorization a [(''Authorization'', ''Bearer '' @ ''a.b.c'')] (Some [''root'']) =
        Inr (if jwt_scope_match [''root''] ([] # [''az'', ''root''])
             then Some (issued_claims t (Some [''az'', ''root'']) ''a@b.c'') else None)"
  unfolding Let_def
  by (rule issued_token_accepted) (simp_all add: issue_token_def is_space_def equal_fold_def to_lower_def lower_others)

end
