(* ===== verification/Go_Files.thy ===== *)
theory Go_Files
  imports Provider_Runs
begin

text \<open>
  What the program uses of the packages \<open>path\<close>, \<open>filepath\<close> and \<open>os\<close>: paths with slashes, and a file system that
  holds the texts of the files and the directories.  Permissions and other troubles are a parameter of every call,
  \<open>refused\<close>: the error the operating system gives for a path, if it gives one.
\<close>

section \<open>Paths\<close>

text \<open>The packages \<open>path\<close> and \<open>filepath\<close>, for slashes.\<close>

fun clean_parts :: "bool \<Rightarrow> string list \<Rightarrow> string list \<Rightarrow> string list" where
  "clean_parts rooted out [] = out"
| "clean_parts rooted out (p # ps) =
     (if p = [] \<or> p = ''.'' then clean_parts rooted out ps
      else if p = ''..'' then
        clean_parts rooted
          (if out \<noteq> [] \<and> last out \<noteq> ''..'' then butlast out else if rooted then out else out @ [p]) ps
      else clean_parts rooted (out @ [p]) ps)"

definition path_clean :: "string \<Rightarrow> string" where
  "path_clean p =
     (let rooted = has_prefix p ''/''; t = join_str (clean_parts rooted [] (split_str p ''/'')) ''/'' in
      if rooted then ''/'' @ t else if t = [] then ''.'' else t)"

definition path_join :: "string \<Rightarrow> string \<Rightarrow> string" where
  "path_join d p = (if d = [] then (if p = [] then [] else path_clean p) else path_clean (d @ ''/'' @ p))"

definition path_dir :: "string \<Rightarrow> string" where
  "path_dir p = path_clean (case last_index_str p ''/'' of None \<Rightarrow> [] | Some i \<Rightarrow> take (Suc i) p)"

definition path_base :: "string \<Rightarrow> string" where
  "path_base p =
     (if p = [] then ''.''
      else
        (let q = rev (dropWhile (\<lambda>c. c = CHR ''/'') (rev p)) in
         if q = [] then ''/'' else (case last_index_str q ''/'' of None \<Rightarrow> q | Some i \<Rightarrow> drop (Suc i) q)))"

text \<open>From the last dot behind the last slash.\<close>

definition path_ext :: "string \<Rightarrow> string" where
  "path_ext p =
     (let b = (case last_index_str p ''/'' of None \<Rightarrow> p | Some i \<Rightarrow> drop (Suc i) p) in
      case last_index_str b ''.'' of None \<Rightarrow> [] | Some i \<Rightarrow> drop i b)"

section \<open>Files\<close>

record file_system =
  file_texts :: "string go_map"
  folders :: "string list"

definition file_exists :: "file_system \<Rightarrow> string \<Rightarrow> bool" where
  "file_exists fs p \<longleftrightarrow> map_of (file_texts fs) p \<noteq> None \<or> p \<in> set (folders fs)"

type_synonym refusals = "string \<Rightarrow> string option"

definition os_stat :: "refusals \<Rightarrow> file_system \<Rightarrow> string \<Rightarrow> unit res" where
  "os_stat refused fs p =
     rbind (go_error (refused p)) (\<lambda>_.
       if file_exists fs p then Inr () else Inl (Error (''stat '' @ p @ '': no such file or directory'')))"

definition os_read_file :: "refusals \<Rightarrow> file_system \<Rightarrow> string \<Rightarrow> string res" where
  "os_read_file refused fs p =
     rbind (go_error (refused p)) (\<lambda>_.
       if p \<in> set (folders fs) then Inl (Error (''read '' @ p @ '': is a directory''))
       else
         (case map_of (file_texts fs) p of
            None \<Rightarrow> Inl (Error (''open '' @ p @ '': no such file or directory''))
          | Some t \<Rightarrow> Inr t))"

definition os_write_file :: "refusals \<Rightarrow> string \<Rightarrow> string \<Rightarrow> file_system \<Rightarrow> file_system res" where
  "os_write_file refused p t fs =
     rbind (go_error (refused p)) (\<lambda>_.
       if p \<in> set (folders fs) then Inl (Error (''open '' @ p @ '': is a directory''))
       else if path_dir p \<notin> set (folders fs) then Inl (Error (''open '' @ p @ '': no such file or directory''))
       else Inr (fs\<lparr>file_texts := AList.update p t (file_texts fs)\<rparr>))"

text \<open>A directory that exists is an error of its own, which \<open>os.IsExist\<close> recognises.\<close>

definition os_mkdir :: "refusals \<Rightarrow> string \<Rightarrow> file_system \<Rightarrow> file_system res" where
  "os_mkdir refused p fs =
     rbind (go_error (refused p)) (\<lambda>_.
       if file_exists fs (path_clean p) then Inl (Error (''mkdir '' @ p @ '': file exists''))
       else if path_dir (path_clean p) \<notin> set (folders fs) then
         Inl (Error (''mkdir '' @ p @ '': no such file or directory''))
       else Inr (fs\<lparr>folders := path_clean p # folders fs\<rparr>))"

definition os_is_exist :: "refusals \<Rightarrow> file_system \<Rightarrow> string \<Rightarrow> bool" where
  "os_is_exist refused fs p \<longleftrightarrow> refused p = None \<and> file_exists fs (path_clean p)"

text \<open>A directory with all those above it.\<close>

definition dir_chain :: "string \<Rightarrow> string list" where
  "dir_chain p =
     (let c = path_clean p in
      filter (\<lambda>d. d \<noteq> [] \<and> d \<noteq> ''.'' \<and> d \<noteq> ''/'')
        (map (\<lambda>i. take i c) (filter (\<lambda>i. c ! i = CHR ''/'') [0..<length c]) @ [c]))"

definition os_mkdir_all :: "refusals \<Rightarrow> string \<Rightarrow> file_system \<Rightarrow> file_system res" where
  "os_mkdir_all refused p fs =
     foldM (\<lambda>fs d.
         if d \<in> set (folders fs) then Inr fs
         else if map_of (file_texts fs) d \<noteq> None then Inl (Error (''mkdir '' @ d @ '': not a directory''))
         else rbind (go_error (refused d)) (\<lambda>_. Inr (fs\<lparr>folders := d # folders fs\<rparr>)))
       fs (dir_chain p)"

section \<open>Lemmas\<close>

lemma os_mkdir_all_texts:
  assumes "os_mkdir_all refused p fs = Inr gs"
  shows "file_texts gs = file_texts fs" and "set (folders fs) \<subseteq> set (folders gs)"
proof -
  have "file_texts gs = file_texts fs \<and> set (folders fs) \<subseteq> set (folders gs)"
    using assms unfolding os_mkdir_all_def
    by (rule foldM_invariant) (auto simp: rbind_iff split: if_splits)
  then show "file_texts gs = file_texts fs" and "set (folders fs) \<subseteq> set (folders gs)" by auto
qed

lemma os_write_file_Inr [rbind_iff]:
  "os_write_file refused p t fs = Inr gs \<longleftrightarrow>
     refused p = None \<and> p \<notin> set (folders fs) \<and> path_dir p \<in> set (folders fs) \<and>
     gs = fs\<lparr>file_texts := AList.update p t (file_texts fs)\<rparr>"
  by (auto simp: os_write_file_def rbind_iff)

lemma os_read_file_Inr [rbind_iff]:
  "os_read_file refused fs p = Inr t \<longleftrightarrow>
     refused p = None \<and> p \<notin> set (folders fs) \<and> map_of (file_texts fs) p = Some t"
  by (auto simp: os_read_file_def rbind_iff split: option.splits)

lemma os_write_file_read:
  assumes "os_write_file refused p t fs = Inr gs"
  shows "os_read_file refused gs p = Inr t" and "file_exists gs p"
  using assms by (auto simp: rbind_iff file_exists_def update_conv')

lemma os_mkdir_all_made:
  assumes "os_mkdir_all refused p fs = Inr gs"
  shows "set (dir_chain p) \<subseteq> set (folders gs)"
  using assms unfolding os_mkdir_all_def
  by (rule foldM_invariant) (auto simp: rbind_iff split: if_splits)

lemma os_mkdir_all_present:
  assumes "set (dir_chain p) \<subseteq> set (folders fs)"
  shows "os_mkdir_all refused p fs = Inr fs"
proof -
  have "foldM (\<lambda>fs d. if d \<in> set (folders fs) then Inr fs
         else if map_of (file_texts fs) d \<noteq> None then Inl (Error (''mkdir '' @ d @ '': not a directory''))
         else rbind (go_error (refused d)) (\<lambda>_. Inr (fs\<lparr>folders := d # folders fs\<rparr>))) fs ds = Inr fs"
    if "set ds \<subseteq> set (folders fs)" for ds
    using that by (induction ds) auto
  with assms show ?thesis by (simp add: os_mkdir_all_def)
qed

lemma path_clean_not_empty [simp]: "path_clean p \<noteq> []"
  by (simp add: path_clean_def Let_def)

end
