(* ===== verification/Key_Config.thy ===== *)
theory Key_Config
  imports Go_Files
begin

text \<open>
  The self-signed keys of a server, \<^verbatim>\<open>pkg/keysupport/key_handler.go\<close>, and the TLS set-up that reads them,
  \<^verbatim>\<open>pkg/websupport/web_support.go\<close>.

  RSA, X.509 and PEM are a parameter, \<open>crypto\<close>, over a type \<open>'k\<close> of private keys: random data are numbered by
  how many were drawn before.  The environment, the clock (the time so many years from now) and the lock on the
  directory, a library that works on a file, are parameters too.
\<close>

section \<open>Data\<close>

datatype ext_usage = ClientAuth | ServerAuth
datatype key_usage = DigitalSignature | CertSign

record pkix_name =
  organization :: string
  country :: string
  province :: string
  locality :: string

record certificate =
  serial_number :: int
  cert_subject :: pkix_name
  dns_names :: "string list"
  ip_addresses :: "string list"
  not_before :: string
  not_after :: string
  is_ca :: bool
  subject_key_id :: "nat list"
  ext_usages :: "ext_usage list"
  key_usages :: "key_usage list"
  constraints_valid :: bool

record 'k crypto =
  generate_key :: "nat \<Rightarrow> 'k res"
  random_below :: "int \<Rightarrow> nat \<Rightarrow> int"
  pkcs1_encode :: "'k \<Rightarrow> string"
  pkcs1_decode :: "string \<Rightarrow> 'k res"
  pem_encode :: "string \<Rightarrow> string \<Rightarrow> string"
  pem_decode :: "string \<Rightarrow> string option"
  create_certificate :: "certificate \<Rightarrow> certificate \<Rightarrow> 'k \<Rightarrow> 'k \<Rightarrow> string res"

record 'k key_config =
  ca_key_file :: string
  ca_cert_file :: string
  ca_priv_key :: "'k option"
  cert_dir :: string
  pkix :: pkix_name
  server_cert_path :: string
  server_key_path :: string
  ca_config :: "certificate option"
  dir_lock :: string

record 'k key_host =
  key_crypto :: "'k crypto"
  key_refused :: refusals
  key_env :: "string \<Rightarrow> string"
  lock_file :: "string \<Rightarrow> file_system \<Rightarrow> file_system res"
  unlock_file :: "string \<Rightarrow> file_system \<Rightarrow> file_system res"

record 'k key_state =
  key_conf :: "'k key_config"
  key_files :: file_system
  draws :: nat

type_synonym clock = "nat \<Rightarrow> string"

section \<open>The configuration\<close>

definition env_or :: "'k key_host \<Rightarrow> string \<Rightarrow> string \<Rightarrow> string" where
  "env_or h name other = (if key_env h name = [] then other else key_env h name)"

text \<open>A name of the environment without a directory is one in the directory of the certificates.\<close>

definition env_path :: "'k key_host \<Rightarrow> string \<Rightarrow> string \<Rightarrow> string \<Rightarrow> string" where
  "env_path h dir name other =
     (if key_env h name = [] then path_join dir other
      else if path_dir (key_env h name) = ''.'' then path_join dir (key_env h name)
      else key_env h name)"

definition certificate_directory :: "'k key_host \<Rightarrow> string" where
  "certificate_directory h = env_or h ''HEXA_CERT_DIRECTORY'' (path_join (key_env h ''HOME'') ''./.certs'')"

text \<open>Making the directory has to fail because it exists: when it is made, the nil error is not such an error.\<close>

definition get_key_config :: "'k key_host \<Rightarrow> (file_system, 'k key_config) run" where
  "get_key_config h fs =
     (let dir = certificate_directory h;
          unable = (\<lambda>e. Crashed (''Was unable to open or create certificate directory('' @ dir @ ''):'' @ e)) in
      case os_mkdir (key_refused h) dir fs of
        Inr fs' \<Rightarrow> (fs', Inl (unable ''%!s(<nil>)''))
      | Inl (Panic m) \<Rightarrow> (fs, Inl (Crashed m))
      | Inl (Error e) \<Rightarrow>
          if os_is_exist (key_refused h) fs dir then
            (fs, Inr \<lparr>ca_key_file = env_or h ''HEXA_CA_KEYFILE'' (path_join dir ''ca-key.pem''),
                      ca_cert_file = env_or h ''HEXA_CA_CERT'' (path_join dir ''ca-cert.pem''),
                      ca_priv_key = None,
                      cert_dir = dir,
                      pkix = \<lparr>organization = env_or h ''HEXA_CERT_ORG'' ''Hexa Organization'',
                              country = env_or h ''HEXA_CERT_COUNTRY'' ''US'',
                              province = env_or h ''HEXA_CERT_PROV'' ''CO'',
                              locality = env_or h ''HEXA_CERT_LOCALITY'' ''Boulder''\<rparr>,
                      server_cert_path = env_path h dir ''HEXA_SERVER_CERT'' ''server-cert.pem'',
                      server_key_path = env_path h dir ''HEXA_SERVER_KEY_PATH'' ''server-key.pem'',
                      ca_config = None,
                      dir_lock = path_join dir ''hexa.lck''\<rparr>)
          else (fs, Inl (unable e)))"

definition cert_dir_exists :: "'k key_host \<Rightarrow> 'k key_state \<Rightarrow> bool" where
  "cert_dir_exists h s \<longleftrightarrow>
     key_refused h (cert_dir (key_conf s)) = None \<and> cert_dir (key_conf s) \<in> set (folders (key_files s))"

definition path_present :: "'k key_host \<Rightarrow> 'k key_state \<Rightarrow> string \<Rightarrow> bool" where
  "path_present h s p \<longleftrightarrow> os_stat (key_refused h) (key_files s) p = Inr ()"

definition root_key_exists :: "'k key_host \<Rightarrow> 'k key_state \<Rightarrow> bool" where
  "root_key_exists h s \<longleftrightarrow> path_present h s (ca_key_file (key_conf s))"

definition server_cert_exists :: "'k key_host \<Rightarrow> 'k key_state \<Rightarrow> bool" where
  "server_cert_exists h s \<longleftrightarrow> path_present h s (server_cert_path (key_conf s))"

section \<open>Making keys\<close>

type_synonym ('k, 'a) key_run = "('k key_state, 'a) run"

definition save_text :: "'k key_host \<Rightarrow> string \<Rightarrow> string \<Rightarrow> ('k, unit) key_run" where
  "save_text h p t s =
     (case os_write_file (key_refused h) p t (key_files s) of
        Inl e \<Rightarrow> (s, with_status 0 (Inl e))
      | Inr fs \<Rightarrow> (s\<lparr>key_files := fs\<rparr>, Inr ()))"

definition draw_key :: "'k key_host \<Rightarrow> ('k, 'k) key_run" where
  "draw_key h s = (s\<lparr>draws := Suc (draws s)\<rparr>, with_status 0 (generate_key (key_crypto h) (draws s)))"

definition draw_serial :: "'k key_host \<Rightarrow> ('k, int) key_run" where
  "draw_serial h s = (s\<lparr>draws := Suc (draws s)\<rparr>, Inr (random_below (key_crypto h) (2 ^ 128) (draws s)))"

definition change_conf :: "('k key_config \<Rightarrow> 'k key_config) \<Rightarrow> ('k, unit) key_run" where
  "change_conf f s = (s\<lparr>key_conf := f (key_conf s)\<rparr>, Inr ())"

definition key_text :: "('k, 'z) crypto_scheme \<Rightarrow> 'k \<Rightarrow> string" where
  "key_text cr k = pem_encode cr ''RSA PRIVATE KEY'' (pkcs1_encode cr k)"

text \<open>The certificate library follows the pointers to the parent and to the key that signs.\<close>

definition signed_certificate ::
  "'k key_host \<Rightarrow> certificate \<Rightarrow> certificate option \<Rightarrow> 'k \<Rightarrow> 'k option \<Rightarrow> string res" where
  "signed_certificate h template parent key signer =
     rbind (go_deref signer) (\<lambda>k.
       rbind (go_deref parent) (\<lambda>p.
         rbind (create_certificate (key_crypto h) template p key k) (\<lambda>b.
           Inr (pem_encode (key_crypto h) ''CERTIFICATE'' b))))"

definition initialize_ca :: "'k key_host \<Rightarrow> ('k, unit) key_run" where
  "initialize_ca h =
     run_bind (draw_key h) (\<lambda>k.
       run_bind (change_conf (\<lambda>c. c\<lparr>ca_priv_key := Some k\<rparr>)) (\<lambda>_ s.
         run_bind (save_text h (ca_key_file (key_conf s)) (key_text (key_crypto h) k)) (\<lambda>_.
           run_bind (read_run 0 (\<lambda>s.
               rbind (go_deref (ca_config (key_conf s))) (\<lambda>t. signed_certificate h t (Some t) k (Some k)))) (\<lambda>pem s.
             save_text h (ca_cert_file (key_conf s)) pem s)) s))"

definition server_template :: "'k key_config \<Rightarrow> clock \<Rightarrow> int \<Rightarrow> ext_usage list \<Rightarrow> string list \<Rightarrow> certificate" where
  "server_template c now n usages dns =
     \<lparr>serial_number = n, cert_subject = pkix c, dns_names = dns, ip_addresses = [''127.0.0.1'', ''::1''],
      not_before = now 0, not_after = now 2, is_ca = False, subject_key_id = [1, 2, 3, 4, 6],
      ext_usages = usages, key_usages = [DigitalSignature], constraints_valid = False\<rparr>"

definition generate_cert ::
  "'k key_host \<Rightarrow> clock \<Rightarrow> ext_usage list \<Rightarrow> string list \<Rightarrow> ('k, string \<times> string) key_run" where
  "generate_cert h now usages dns =
     run_bind (draw_serial h) (\<lambda>n.
       run_bind (draw_key h) (\<lambda>k.
         run_bind (read_run 0 (\<lambda>s.
             signed_certificate h (server_template (key_conf s) now n usages dns) (ca_config (key_conf s)) k
               (ca_priv_key (key_conf s)))) (\<lambda>cert.
           pure_run 0 (Inr (cert, key_text (key_crypto h) k)))))"

section \<open>Setting up\<close>

text \<open>The error of the lock is only logged.\<close>

definition wait_lock :: "'k key_host \<Rightarrow> 'k key_state \<Rightarrow> 'k key_state" where
  "wait_lock h s =
     (case lock_file h (dir_lock (key_conf s)) (key_files s) of Inl _ \<Rightarrow> s | Inr fs \<Rightarrow> s\<lparr>key_files := fs\<rparr>)"

definition clear_lock :: "'k key_host \<Rightarrow> 'k key_state \<Rightarrow> 'k key_state" where
  "clear_lock h s =
     (case unlock_file h (dir_lock (key_conf s)) (key_files s) of Inl _ \<Rightarrow> s | Inr fs \<Rightarrow> s\<lparr>key_files := fs\<rparr>)"

definition auto_create :: "'k key_host \<Rightarrow> bool" where
  "auto_create h \<longleftrightarrow>
     \<not> (key_env h ''HEXA_AUTO_SELFSIGN'' \<noteq> [] \<and> to_lower (take 1 (key_env h ''HEXA_AUTO_SELFSIGN'')) = ''f'')"

definition ca_template :: "clock \<Rightarrow> 'k key_config \<Rightarrow> certificate" where
  "ca_template now c =
     \<lparr>serial_number = 2019, cert_subject = pkix c, dns_names = [], ip_addresses = [], not_before = now 0,
      not_after = now 10, is_ca = True, subject_key_id = [], ext_usages = [ClientAuth, ServerAuth],
      key_usages = [DigitalSignature, CertSign], constraints_valid = True\<rparr>"

text \<open>A short file is skipped, and the key stays what it was.  A key that does not parse is nil in the configuration.\<close>

definition load_ca_key :: "'k key_host \<Rightarrow> ('k, unit) key_run" where
  "load_ca_key h =
     run_bind (read_run 0 (\<lambda>s. os_read_file (key_refused h) (key_files s) (ca_key_file (key_conf s)))) (\<lambda>t.
       if length t > 10 then
         (case pem_decode (key_crypto h) t of
            None \<Rightarrow> pure_run 0 (Inl (Error ''expecting file to contain a PEM key''))
          | Some der \<Rightarrow>
              (case pkcs1_decode (key_crypto h) der of
                 Inl e \<Rightarrow> run_bind (change_conf (\<lambda>c. c\<lparr>ca_priv_key := None\<rparr>)) (\<lambda>_. pure_run 0 (Inl e))
               | Inr k \<Rightarrow> change_conf (\<lambda>c. c\<lparr>ca_priv_key := Some k\<rparr>)))
       else pure_run 0 (Inr ()))"

definition server_dns_names :: "'k key_host \<Rightarrow> string list" where
  "server_dns_names h =
     (if key_env h ''HEXA_SERVER_DNS_NAME'' = [] then [''hexa_bundle-server'', ''hexa-opaBundle-server'']
      else split_str (key_env h ''HEXA_SERVER_DNS_NAME'') '','')"

definition server_keys :: "'k key_host \<Rightarrow> clock \<Rightarrow> ('k, unit) key_run" where
  "server_keys h now =
     run_bind (generate_cert h now [ClientAuth, ServerAuth] (server_dns_names h)) (\<lambda>(cert, key) s.
       run_bind (save_text h (server_cert_path (key_conf s)) cert) (\<lambda>_.
         save_text h (server_key_path (key_conf s)) key) s)"

definition initialize_keys_locked :: "'k key_host \<Rightarrow> clock \<Rightarrow> ('k, unit) key_run" where
  "initialize_keys_locked h now =
     run_bind (change_conf (\<lambda>c. c\<lparr>ca_config := Some (ca_template now c)\<rparr>)) (\<lambda>_.
       run_bind (\<lambda>s.
           if root_key_exists h s then load_ca_key h s
           else if auto_create h then initialize_ca h s else (s, Inr ())) (\<lambda>_ s.
         if \<not> server_cert_exists h s \<and> auto_create h then server_keys h now s else (s, Inr ())))"

definition initialize_keys :: "'k key_host \<Rightarrow> clock \<Rightarrow> ('k, unit) key_run" where
  "initialize_keys h now s = (case initialize_keys_locked h now (wait_lock h s) of (t, r) \<Rightarrow> (clear_lock h t, r))"

definition generate_client_keys :: "'k key_host \<Rightarrow> clock \<Rightarrow> string \<Rightarrow> string \<Rightarrow> ('k, unit) key_run" where
  "generate_client_keys h now key_path cert_path =
     run_bind (generate_cert h now [ClientAuth] []) (\<lambda>(cert, key) s.
       run_bind (save_text h
           (if cert_path = [] then path_join (cert_dir (key_conf s)) ''client-cert.pem'' else cert_path) cert) (\<lambda>_.
         save_text h (if key_path = [] then path_join (cert_dir (key_conf s)) ''client-key.pem'' else key_path) key) s)"

section \<open>Using them\<close>

text \<open>
  A client with its pool of root certificates, if it has one of its own.  \<open>AppendCertsFromPEM\<close> is a parameter, and
  so is the pool of the system, which is only a copy.
\<close>

definition check_ca_installed ::
  "'k key_host \<Rightarrow> (string \<Rightarrow> 'c list) \<Rightarrow> file_system \<Rightarrow> ('c list) option option \<Rightarrow> ('c list) option option" where
  "check_ca_installed h certs_of fs client =
     (let path = key_env h ''HEXA_CA_CERT'' in
      if path = [] then client
      else
        (let pem = (case os_read_file (key_refused h) fs path of Inl _ \<Rightarrow> [] | Inr t \<Rightarrow> t) in
         case client of None \<Rightarrow> None | Some _ \<Rightarrow> Some (Some (certs_of pem))))"

definition is_tls_enabled :: "(string \<Rightarrow> string) \<Rightarrow> bool" where
  "is_tls_enabled env \<longleftrightarrow>
     (let m = env ''HEXA_TLS_ENABLED'' in
      m \<noteq> [] \<and> (equal_fold (take 1 m) ''y'' \<or> equal_fold (take 1 m) ''t''))"

text \<open>The TLS configuration of the server; when only the key is missing, the nil error of the other is followed.\<close>

definition with_transport_layer_security ::
  "'k key_host \<Rightarrow> (string \<Rightarrow> string \<Rightarrow> 'p res) \<Rightarrow> file_system \<Rightarrow> string \<Rightarrow> string \<Rightarrow> 'p option \<Rightarrow> 'p option res" where
  "with_transport_layer_security h key_pair fs cert_file key_file tls =
     (if is_tls_enabled (key_env h) then
        (case os_read_file (key_refused h) fs cert_file of
           Inl (Panic e) \<Rightarrow> Inl (Panic e)
         | Inl (Error e) \<Rightarrow> Inl (Panic e)
         | Inr cert \<Rightarrow>
             (case os_read_file (key_refused h) fs key_file of
                Inl _ \<Rightarrow> Inl (Panic ''nil pointer dereference'')
              | Inr key \<Rightarrow>
                  (case key_pair cert key of
                     Inl (Panic e) \<Rightarrow> Inl (Panic e)
                   | Inl (Error e) \<Rightarrow> Inl (Panic e)
                   | Inr pair \<Rightarrow> Inr (Some pair))))
      else Inr tls)"

section \<open>Setting up twice\<close>

text \<open>What is documented of PEM and PKCS #1, and of the lock: it touches its own file only.\<close>

definition key_codec :: "'k crypto \<Rightarrow> bool" where
  "key_codec cr \<longleftrightarrow>
     (\<forall>k. pkcs1_decode cr (pkcs1_encode cr k) = Inr k) \<and>
     (\<forall>ty b. pem_decode cr (pem_encode cr ty b) = Some b \<and> 10 < length (pem_encode cr ty b))"

definition same_files_but :: "string \<Rightarrow> file_system \<Rightarrow> file_system \<Rightarrow> bool" where
  "same_files_but p fs gs \<longleftrightarrow>
     folders gs = folders fs \<and> (\<forall>q. q \<noteq> p \<longrightarrow> map_of (file_texts gs) q = map_of (file_texts fs) q)"

definition lock_local :: "'k key_host \<Rightarrow> bool" where
  "lock_local h \<longleftrightarrow>
     (\<forall>p fs gs. lock_file h p fs = Inr gs \<or> unlock_file h p fs = Inr gs \<longrightarrow> same_files_but p fs gs)"

definition key_paths_apart :: "'k key_config \<Rightarrow> bool" where
  "key_paths_apart c \<longleftrightarrow>
     ca_key_file c \<notin> {ca_cert_file c, server_cert_path c, server_key_path c} \<and>
     dir_lock c \<notin> {ca_key_file c, server_cert_path c}"

definition same_paths :: "'k key_config \<Rightarrow> 'k key_config \<Rightarrow> bool" where
  "same_paths c d \<longleftrightarrow>
     ca_key_file c = ca_key_file d \<and> ca_cert_file c = ca_cert_file d \<and> server_cert_path c = server_cert_path d \<and>
     server_key_path c = server_key_path d \<and> dir_lock c = dir_lock d"

lemma same_paths_apart: "same_paths c d \<Longrightarrow> key_paths_apart c = key_paths_apart d"
  by (simp add: same_paths_def key_paths_apart_def)

text \<open>The configuration agrees with the files, and there is nothing left to make.\<close>

definition key_loaded :: "'k key_host \<Rightarrow> 'k key_state \<Rightarrow> bool" where
  "key_loaded h s \<longleftrightarrow>
     (\<exists>x. os_read_file (key_refused h) (key_files s) (ca_key_file (key_conf s)) = Inr x \<and>
        (length x > 10 \<longrightarrow> (\<exists>der k. pem_decode (key_crypto h) x = Some der \<and>
           pkcs1_decode (key_crypto h) der = Inr k \<and> ca_priv_key (key_conf s) = Some k)))"

definition keys_settled :: "'k key_host \<Rightarrow> 'k key_state \<Rightarrow> bool" where
  "keys_settled h s \<longleftrightarrow>
     (if root_key_exists h s then key_loaded h s else \<not> auto_create h) \<and>
     (server_cert_exists h s \<or> \<not> auto_create h)"

lemma save_text_Inr [rbind_iff]:
  "save_text h p x s = (t, Inr u) \<longleftrightarrow>
     (\<exists>fs. os_write_file (key_refused h) p x (key_files s) = Inr fs \<and> t = s\<lparr>key_files := fs\<rparr>)"
  by (auto simp: save_text_def split: sum.splits)

lemma change_conf_Inr [rbind_iff]: "change_conf f s = (t, Inr u) \<longleftrightarrow> t = s\<lparr>key_conf := f (key_conf s)\<rparr>"
  by (auto simp: change_conf_def)

lemma draw_key_Inr [rbind_iff]:
  "draw_key h s = (t, Inr k) \<longleftrightarrow> t = s\<lparr>draws := Suc (draws s)\<rparr> \<and> generate_key (key_crypto h) (draws s) = Inr k"
  by (auto simp: draw_key_def)

lemma draw_serial_Inr [rbind_iff]:
  "draw_serial h s = (t, Inr n) \<longleftrightarrow>
     t = s\<lparr>draws := Suc (draws s)\<rparr> \<and> n = random_below (key_crypto h) (2 ^ 128) (draws s)"
  by (auto simp: draw_serial_def)

lemma load_ca_key_Inr [rbind_iff]:
  "load_ca_key h s = (t, Inr u) \<longleftrightarrow>
     (\<exists>x. os_read_file (key_refused h) (key_files s) (ca_key_file (key_conf s)) = Inr x \<and>
        (if length x > 10
         then \<exists>der k. pem_decode (key_crypto h) x = Some der \<and> pkcs1_decode (key_crypto h) der = Inr k \<and>
           t = s\<lparr>key_conf := (key_conf s)\<lparr>ca_priv_key := Some k\<rparr>\<rparr>
         else t = s))"
proof (cases "os_read_file (key_refused h) (key_files s) (ca_key_file (key_conf s))")
  case (Inr x)
  then show ?thesis
    by (cases "pem_decode (key_crypto h) x") (auto simp: load_ca_key_def run_bind_def read_run_def pure_run_def change_conf_def split: sum.splits)
qed (auto simp: load_ca_key_def rbind_iff)

lemma path_present_iff:
  "path_present h s p \<longleftrightarrow> key_refused h p = None \<and> file_exists (key_files s) p"
  by (auto simp: path_present_def os_stat_def rbind_iff)

lemma load_ca_key_loads:
  assumes "load_ca_key h s = (t, Inr ())"
  shows "key_loaded h t" and "key_files t = key_files s" and "same_paths (key_conf t) (key_conf s)"
    and "draws t = draws s"
proof -
  obtain x where x: "os_read_file (key_refused h) (key_files s) (ca_key_file (key_conf s)) = Inr x"
    and t: "if 10 < length x then \<exists>der k. pem_decode (key_crypto h) x = Some der \<and> pkcs1_decode (key_crypto h) der = Inr k \<and>
           t = s\<lparr>key_conf := (key_conf s)\<lparr>ca_priv_key := Some k\<rparr>\<rparr> else t = s"
    using assms unfolding load_ca_key_Inr by blast
  have "key_loaded h t \<and> key_files t = key_files s \<and> same_paths (key_conf t) (key_conf s) \<and> draws t = draws s"
  proof (cases "10 < length x")
    case True
    with t obtain der k where "pem_decode (key_crypto h) x = Some der" "pkcs1_decode (key_crypto h) der = Inr k"
      and "t = s\<lparr>key_conf := (key_conf s)\<lparr>ca_priv_key := Some k\<rparr>\<rparr>" by auto
    with x show ?thesis by (simp add: key_loaded_def same_paths_def)
  next
    case False
    with t x show ?thesis by (simp add: key_loaded_def same_paths_def)
  qed
  then show "key_loaded h t" and "key_files t = key_files s" and "same_paths (key_conf t) (key_conf s)"
    and "draws t = draws s" by auto
qed

lemma loaded_loads:
  assumes "key_loaded h s"
  shows "load_ca_key h s = (s, Inr ())"
proof -
  have "s\<lparr>key_conf := (key_conf s)\<lparr>ca_priv_key := ca_priv_key (key_conf s)\<rparr>\<rparr> = s" by simp
  then show ?thesis using assms by (auto simp: load_ca_key_Inr key_loaded_def)
qed

lemma initialize_ca_settled:
  assumes "initialize_ca h s = (t, Inr ())" and "key_codec (key_crypto h)"
    and "ca_key_file (key_conf s) \<noteq> ca_cert_file (key_conf s)"
  shows "root_key_exists h t" and "key_loaded h t"
    and "same_paths (key_conf t) (key_conf s)"
  using assms
  by (auto simp: initialize_ca_def rbind_iff root_key_exists_def path_present_iff file_exists_def update_conv'
      key_loaded_def key_codec_def key_text_def signed_certificate_def same_paths_def split: if_splits)

text \<open>Whether everything is settled depends on two files and the key.\<close>

lemma keys_settled_cong:
  assumes "same_files_but p (key_files s) (key_files t)" and "p \<notin> {ca_key_file (key_conf s), server_cert_path (key_conf s)}"
    and "ca_key_file (key_conf t) = ca_key_file (key_conf s)"
    and "server_cert_path (key_conf t) = server_cert_path (key_conf s)"
    and "ca_priv_key (key_conf t) = ca_priv_key (key_conf s)"
  shows "root_key_exists h t = root_key_exists h s" and "server_cert_exists h t = server_cert_exists h s"
    and "key_loaded h t = key_loaded h s" and "keys_settled h t = keys_settled h s"
proof -
  show eq: "root_key_exists h t = root_key_exists h s" "server_cert_exists h t = server_cert_exists h s"
    "key_loaded h t = key_loaded h s"
    using assms
    by (auto simp: same_files_but_def root_key_exists_def server_cert_exists_def key_loaded_def path_present_iff
        file_exists_def os_read_file_def)
  show "keys_settled h t = keys_settled h s" by (simp add: keys_settled_def eq)
qed

lemma server_keys_settled:
  assumes "server_keys h now s = (t, Inr ())"
  shows "server_cert_exists h t" and "key_conf t = key_conf s"
    and "folders (key_files t) = folders (key_files s)"
    and "p \<notin> {server_cert_path (key_conf s), server_key_path (key_conf s)} \<Longrightarrow>
      map_of (file_texts (key_files t)) p = map_of (file_texts (key_files s)) p"
  using assms
  by (auto simp: server_keys_def generate_cert_def rbind_iff server_cert_exists_def path_present_iff file_exists_def
      update_conv' split: if_splits)

text \<open>After a successful run everything is settled.\<close>

lemma initialize_keys_settles:
  assumes "initialize_keys_locked h now s = (t, Inr ())" and "key_codec (key_crypto h)"
    and apart: "key_paths_apart (key_conf s)"
  shows "keys_settled h t" and "dir_lock (key_conf t) = dir_lock (key_conf s)"
    and "key_paths_apart (key_conf t)"
proof -
  define s0 where "s0 = s\<lparr>key_conf := (key_conf s)\<lparr>ca_config := Some (ca_template now (key_conf s))\<rparr>\<rparr>"
  obtain u where
    ca: "(if root_key_exists h s0 then load_ca_key h s0 else if auto_create h then initialize_ca h s0 else (s0, Inr ()))
      = (u, Inr ())"
    and srv: "(if \<not> server_cert_exists h u \<and> auto_create h then server_keys h now u else (u, Inr ())) = (t, Inr ())"
    using assms(1) unfolding initialize_keys_locked_def s0_def by (auto simp: rbind_iff)
  have a0: "key_paths_apart (key_conf s0)" using apart by (simp add: s0_def key_paths_apart_def)
  have root: "root_key_exists h u \<and> key_loaded h u \<or> \<not> root_key_exists h u \<and> \<not> auto_create h"
    and conf: "same_paths (key_conf u) (key_conf s0)"
  proof -
    consider (load) "root_key_exists h s0" "load_ca_key h s0 = (u, Inr ())"
      | (make) "initialize_ca h s0 = (u, Inr ())" | (none) "\<not> root_key_exists h s0" "\<not> auto_create h" "u = s0"
      using ca by (cases "root_key_exists h s0"; cases "auto_create h"; simp)
    then have "(root_key_exists h u \<and> key_loaded h u \<or> \<not> root_key_exists h u \<and> \<not> auto_create h) \<and>
      same_paths (key_conf u) (key_conf s0)"
    proof cases
      case load
      have "root_key_exists h u"
        using load(1) load_ca_key_loads(2,3) [OF load(2)]
        by (simp add: root_key_exists_def path_present_iff same_paths_def)
      with load_ca_key_loads(1,3) [OF load(2)] show ?thesis by simp
    next
      case make
      from initialize_ca_settled [OF make assms(2)] a0 show ?thesis by (simp add: key_paths_apart_def)
    next
      case none
      then show ?thesis by (simp add: same_paths_def)
    qed
    then show "root_key_exists h u \<and> key_loaded h u \<or> \<not> root_key_exists h u \<and> \<not> auto_create h"
      and "same_paths (key_conf u) (key_conf s0)" by auto
  qed
  have s0: "same_paths (key_conf s0) (key_conf s)" by (simp add: s0_def same_paths_def)
  have au: "key_paths_apart (key_conf u)" using a0 same_paths_apart [OF conf] by simp
  have "keys_settled h t \<and> key_conf t = key_conf u"
  proof (cases "\<not> server_cert_exists h u \<and> auto_create h")
    case True
    with srv have k: "server_keys h now u = (t, Inr ())" by simp
    note made = server_keys_settled [OF k]
    have "map_of (file_texts (key_files t)) (ca_key_file (key_conf u)) =
        map_of (file_texts (key_files u)) (ca_key_file (key_conf u))"
      using au by (intro made(4)) (auto simp: key_paths_apart_def)
    then have "root_key_exists h t = root_key_exists h u" "key_loaded h t = key_loaded h u"
      using made(2,3) by (simp_all add: root_key_exists_def path_present_iff file_exists_def key_loaded_def os_read_file_def)
    with True root made(1,2) show ?thesis by (auto simp: keys_settled_def)
  next
    case False
    with srv root show ?thesis by (auto simp: keys_settled_def split: if_splits)
  qed
  with au s0 conf show "keys_settled h t" and "dir_lock (key_conf t) = dir_lock (key_conf s)"
    and "key_paths_apart (key_conf t)"
    by (simp_all add: same_paths_def)
qed

lemma settled_runs:
  assumes "keys_settled h s"
  shows "initialize_keys_locked h now s =
    (s\<lparr>key_conf := (key_conf s)\<lparr>ca_config := Some (ca_template now (key_conf s))\<rparr>\<rparr>, Inr ())"
    (is "_ = (?t, _)")
proof -
  have same: "root_key_exists h ?t = root_key_exists h s" "server_cert_exists h ?t = server_cert_exists h s"
    "key_loaded h ?t = key_loaded h s"
    by (simp_all add: root_key_exists_def server_cert_exists_def path_present_iff key_loaded_def)
  show ?thesis
  proof (cases "root_key_exists h s")
    case True
    with assms have "load_ca_key h ?t = (?t, Inr ())" by (intro loaded_loads) (simp add: same keys_settled_def)
    with True assms same(1,2) show ?thesis
      by (auto simp: initialize_keys_locked_def run_bind_def change_conf_def keys_settled_def)
  next
    case False
    with assms same(1,2) show ?thesis
      by (simp add: initialize_keys_locked_def run_bind_def change_conf_def keys_settled_def)
  qed
qed

lemma wait_lock_local:
  assumes "lock_local h"
  obtains fs where "wait_lock h s = s\<lparr>key_files := fs\<rparr>" and "same_files_but (dir_lock (key_conf s)) (key_files s) fs"
proof (cases "lock_file h (dir_lock (key_conf s)) (key_files s)")
  case (Inl e)
  with that [of "key_files s"] show ?thesis by (simp add: wait_lock_def same_files_but_def)
next
  case (Inr fs)
  with assms that [of fs] show ?thesis by (auto simp: wait_lock_def lock_local_def)
qed

lemma clear_lock_local:
  assumes "lock_local h"
  obtains fs where "clear_lock h s = s\<lparr>key_files := fs\<rparr>" and "same_files_but (dir_lock (key_conf s)) (key_files s) fs"
proof (cases "unlock_file h (dir_lock (key_conf s)) (key_files s)")
  case (Inl e)
  with that [of "key_files s"] show ?thesis by (simp add: clear_lock_def same_files_but_def)
next
  case (Inr fs)
  with assms that [of fs] show ?thesis by (auto simp: clear_lock_def lock_local_def)
qed

lemma settled_lock:
  assumes "key_paths_apart (key_conf s)" and "same_files_but (dir_lock (key_conf s)) (key_files s) fs"
  shows "keys_settled h (s\<lparr>key_files := fs\<rparr>) = keys_settled h s"
  using assms by (intro keys_settled_cong) (auto simp: key_paths_apart_def)

lemma same_files_trans: "same_files_but p fs gs \<Longrightarrow> same_files_but p gs hs \<Longrightarrow> same_files_but p fs hs"
  by (simp add: same_files_but_def)

text \<open>Setting up what is settled changes no file but the lock's.\<close>

lemma settled_keeps_files:
  assumes "keys_settled h s" and "lock_local h" and "key_paths_apart (key_conf s)"
  shows "\<exists>u. initialize_keys h now s = (u, Inr ()) \<and> ca_priv_key (key_conf u) = ca_priv_key (key_conf s) \<and>
    draws u = draws s \<and> same_files_but (dir_lock (key_conf s)) (key_files s) (key_files u)"
proof -
  obtain fs where fs: "wait_lock h s = s\<lparr>key_files := fs\<rparr>" "same_files_but (dir_lock (key_conf s)) (key_files s) fs"
    using wait_lock_local [OF assms(2)] .
  have "keys_settled h (s\<lparr>key_files := fs\<rparr>)" using assms(1) settled_lock [OF assms(3) fs(2)] by simp
  note run = settled_runs [OF this, of now]
  let ?t = "s\<lparr>key_files := fs, key_conf := (key_conf s)\<lparr>ca_config := Some (ca_template now (key_conf s))\<rparr>\<rparr>"
  obtain gs where gs: "clear_lock h ?t = ?t\<lparr>key_files := gs\<rparr>" "same_files_but (dir_lock (key_conf ?t)) (key_files ?t) gs"
    using clear_lock_local [OF assms(2)] .
  have "same_files_but (dir_lock (key_conf s)) (key_files s) gs" using same_files_trans [OF fs(2)] gs(2) by simp
  then show ?thesis using run gs(1) by (simp add: initialize_keys_def fs(1))
qed

text \<open>Property C22.  Keys are made once: when the set-up has succeeded, running it again succeeds, makes no key, leaves
  every file but the lock as it is, and works with the same key of the authority.\<close>

theorem keys_made_once:
  assumes "initialize_keys h now s = (t, Inr ())" and "key_codec (key_crypto h)" and "lock_local h"
    and "key_paths_apart (key_conf s)"
  shows "\<exists>u. initialize_keys h later t = (u, Inr ()) \<and> ca_priv_key (key_conf u) = ca_priv_key (key_conf t) \<and>
    draws u = draws t \<and> same_files_but (dir_lock (key_conf t)) (key_files t) (key_files u)"
proof -
  obtain fs where fs: "wait_lock h s = s\<lparr>key_files := fs\<rparr>" using wait_lock_local [OF assms(3)] .
  obtain v where v: "initialize_keys_locked h now (s\<lparr>key_files := fs\<rparr>) = (v, Inr ())" and t: "t = clear_lock h v"
    using assms(1) by (auto simp: initialize_keys_def fs split: prod.splits)
  have done_v: "keys_settled h v" "key_paths_apart (key_conf v)"
    using initialize_keys_settles [OF v assms(2)] assms(4) by simp_all
  obtain gs where gs: "t = v\<lparr>key_files := gs\<rparr>" "same_files_but (dir_lock (key_conf v)) (key_files v) gs"
    using clear_lock_local [OF assms(3)] t by metis
  have "keys_settled h t" using done_v settled_lock [OF done_v(2) gs(2)] gs(1) by simp
  then show ?thesis by (rule settled_keeps_files [OF _ assms(3)]) (simp add: gs(1) done_v(2))
qed

text \<open>A host with two named keys: the first number drawn gives the serial number or a key.\<close>

definition test_crypto :: "nat crypto" where
  "test_crypto =
     \<lparr>generate_key = (\<lambda>n. Inr n), random_below = (\<lambda>m n. int n mod m), pkcs1_encode = (\<lambda>k. replicate k CHR ''k''),
      pkcs1_decode = (\<lambda>t. Inr (length t)), pem_encode = (\<lambda>ty b. ''-----BEGIN-----'' @ b),
      pem_decode = (\<lambda>t. Some (drop 15 t)), create_certificate = (\<lambda>c p k s. Inr (''cert'' @ replicate k CHR ''k''))\<rparr>"

definition test_host :: "nat key_host" where
  "test_host =
     \<lparr>key_crypto = test_crypto, key_refused = (\<lambda>_. None), key_env = (\<lambda>n. if n = ''HOME'' then ''/h'' else []),
      lock_file = (\<lambda>p fs. Inr (fs\<lparr>file_texts := AList.update p [] (file_texts fs)\<rparr>)), unlock_file = (\<lambda>p fs. Inr fs)\<rparr>"

definition test_clock :: clock where "test_clock n = ''2024''"

definition test_conf :: "nat key_config" where
  "test_conf =
     \<lparr>ca_key_file = ''/h/.certs/ca-key.pem'', ca_cert_file = ''/h/.certs/ca-cert.pem'', ca_priv_key = None,
      cert_dir = ''/h/.certs'', pkix = \<lparr>organization = ''Hexa Organization'', country = ''US'', province = ''CO'',
        locality = ''Boulder''\<rparr>, server_cert_path = ''/h/.certs/server-cert.pem'',
      server_key_path = ''/h/.certs/server-key.pem'', ca_config = None, dir_lock = ''/h/.certs/hexa.lck''\<rparr>"

definition test_files :: file_system where
  "test_files = \<lparr>file_texts = [], folders = [''/h/.certs'', ''/h'']\<rparr>"

lemma test_config: "get_key_config test_host test_files = (test_files, Inr test_conf)"
  by code_simp

definition first_state :: "nat key_state" where
  "first_state = \<lparr>key_conf = test_conf, key_files = test_files, draws = 5\<rparr>"

definition second_state :: "nat key_state" where
  "second_state = fst (initialize_keys test_host test_clock first_state)"

lemma first_run: "initialize_keys test_host test_clock first_state = (second_state, Inr ())"
  and second_texts: "map fst (file_texts (key_files second_state)) =
    [dir_lock test_conf, ca_key_file test_conf, ca_cert_file test_conf, server_cert_path test_conf, server_key_path test_conf]"
  and second_draws: "draws second_state = 8" and second_ca: "ca_priv_key (key_conf second_state) = Some 5"
proof -
  have "snd (initialize_keys test_host test_clock first_state) = Inr ()" by code_simp
  then show "initialize_keys test_host test_clock first_state = (second_state, Inr ())"
    by (simp add: second_state_def prod_eq_iff)
  show "map fst (file_texts (key_files second_state)) =
    [dir_lock test_conf, ca_key_file test_conf, ca_cert_file test_conf, server_cert_path test_conf, server_key_path test_conf]"
    and "draws second_state = 8" and "ca_priv_key (key_conf second_state) = Some 5"
    by code_simp+
qed

theorem keys_made_once_witness:
  "\<exists>u. initialize_keys test_host test_clock second_state = (u, Inr ()) \<and> ca_priv_key (key_conf u) = Some 5 \<and>
    draws u = 8 \<and> same_files_but (dir_lock (key_conf second_state)) (key_files second_state) (key_files u)"
  unfolding second_ca [symmetric] second_draws [symmetric]
proof (rule keys_made_once [OF first_run])
  show "key_codec (key_crypto test_host)" by (simp add: key_codec_def test_host_def test_crypto_def)
  show "lock_local test_host" by (auto simp: lock_local_def test_host_def same_files_but_def update_conv')
  show "key_paths_apart (key_conf first_state)" by (simp add: key_paths_apart_def first_state_def test_conf_def)
qed

section \<open>What goes wrong\<close>

text \<open>Making the directory of the certificates stops the program; the second start works.\<close>

lemma get_key_config_first_start:
  assumes "os_mkdir (key_refused h) (certificate_directory h) fs = Inr gs"
  shows "\<exists>m. get_key_config h fs = (gs, Inl (Crashed m))" and "\<exists>c. get_key_config h gs = (gs, Inr c)"
  using assms
  by (auto simp: get_key_config_def Let_def os_mkdir_def os_is_exist_def file_exists_def go_error_def rbind_iff
      split: if_splits option.splits)

text \<open>The key of the authority must be longer than ten bytes to be read; without it making a certificate panics.\<close>

lemma short_ca_key_panics:
  assumes "os_read_file (key_refused h) (key_files s) (ca_key_file (key_conf s)) = Inr x" and "length x \<le> 10"
    and "ca_priv_key (key_conf s) = None" and "\<not> server_cert_exists h s" and "auto_create h"
    and "\<And>n. generate_key (key_crypto h) n \<in> range Inr"
  shows "\<exists>t. initialize_keys_locked h now s = (t, Inl (Crashed ''nil pointer dereference''))"
proof -
  let ?s = "s\<lparr>key_conf := (key_conf s)\<lparr>ca_config := Some (ca_template now (key_conf s))\<rparr>\<rparr>"
  have root: "root_key_exists h ?s"
    using assms(1) by (auto simp: root_key_exists_def path_present_iff file_exists_def rbind_iff)
  have load: "load_ca_key h ?s = (?s, Inr ())"
    using assms(1,2) by (auto simp: load_ca_key_Inr)
  have no_cert: "\<not> server_cert_exists h ?s" using assms(4) by (simp add: server_cert_exists_def path_present_iff)
  obtain k where "generate_key (key_crypto h) (Suc (draws s)) = Inr k" using assms(6) by (metis rangeE)
  then show ?thesis
    using root load no_cert assms(3,5)
    by (simp add: initialize_keys_locked_def run_bind_def change_conf_def server_keys_def generate_cert_def draw_serial_def
        draw_key_def read_run_def signed_certificate_def go_deref_def)
qed

text \<open>A server whose certificate was written and whose key was not never gets the key.\<close>

lemma missing_server_key_stays:
  assumes "keys_settled h s" and "lock_local h" and "key_paths_apart (key_conf s)"
    and "map_of (file_texts (key_files s)) (server_key_path (key_conf s)) = None"
    and "server_key_path (key_conf s) \<noteq> dir_lock (key_conf s)"
  shows "\<exists>u. initialize_keys h now s = (u, Inr ()) \<and> map_of (file_texts (key_files u)) (server_key_path (key_conf s)) = None"
  using settled_keeps_files [OF assms(1-3), of now] assms(4,5) by (auto simp: same_files_but_def)

text \<open>Whatever the lock says, and whatever becomes of the keys, the lock is cleared last.\<close>

lemma initialize_keys_unlocks:
  "\<exists>t. fst (initialize_keys h now s) = clear_lock h t \<and> snd (initialize_keys h now s) = snd (initialize_keys_locked h now (wait_lock h s))"
  by (auto simp: initialize_keys_def split: prod.splits)

section \<open>The server's keys\<close>

lemma server_keys_readable:
  assumes "server_keys h now s = (t, Inr ())" and "server_cert_path (key_conf s) \<noteq> server_key_path (key_conf s)"
  shows "\<exists>der k. os_read_file (key_refused h) (key_files t) (server_cert_path (key_conf s)) =
      Inr (pem_encode (key_crypto h) ''CERTIFICATE'' der) \<and>
    os_read_file (key_refused h) (key_files t) (server_key_path (key_conf s)) = Inr (key_text (key_crypto h) k) \<and>
    (\<exists>c p signer. create_certificate (key_crypto h) c p k signer = Inr der)"
  using assms
  by (auto simp: server_keys_def generate_cert_def signed_certificate_def rbind_iff update_conv') blast

text \<open>The server can be started with them, if a certificate and the key it was made for are a pair.\<close>

lemma tls_after_setup:
  assumes "server_keys h now s = (t, Inr ())" and "server_cert_path (key_conf s) \<noteq> server_key_path (key_conf s)"
    and "\<And>c p k signer der. create_certificate (key_crypto h) c p k signer = Inr der \<Longrightarrow>
      key_pair (pem_encode (key_crypto h) ''CERTIFICATE'' der) (key_text (key_crypto h) k) = Inr (mk der k)"
    and "is_tls_enabled (key_env h)"
  shows "\<exists>pair. with_transport_layer_security h key_pair (key_files t) (server_cert_path (key_conf s))
    (server_key_path (key_conf s)) tls = Inr (Some pair)"
  using server_keys_readable [OF assms(1,2)] assms(3,4) by (auto simp: with_transport_layer_security_def)

text \<open>A key file that cannot be read is reported as a nil pointer.\<close>

lemma missing_key_panics:
  assumes "is_tls_enabled (key_env h)" and "os_read_file (key_refused h) fs cert_file = Inr cert"
    and "os_read_file (key_refused h) fs key_file = Inl e"
  shows "with_transport_layer_security h key_pair fs cert_file key_file tls = Inl (Panic ''nil pointer dereference'')"
  using assms by (simp add: with_transport_layer_security_def)

end
