(* ===== verification/Token_Keys.thy ===== *)
theory Token_Keys
  imports Jwt_Auth Key_Config
begin

text \<open>
  The keys of a token issuer, the rest of \<^verbatim>\<open>pkg/tokensupport/tokenGenerator.go\<close>: its configuration, making and
  loading its keys; and the resource that is given the public key, \<open>Jwt_Auth\<close> over the same files.

  Public keys \<open>'p\<close>, signing and verifying are parameters that extend \<open>crypto\<close>.
\<close>

section \<open>Data\<close>

record ('k, 'p) token_crypto = "'k crypto" +
  public_of :: "'k \<Rightarrow> 'p"
  public_encode :: "'p \<Rightarrow> string"
  public_decode :: "string \<Rightarrow> 'p res"
  jwt_sign :: "'k \<Rightarrow> string \<Rightarrow> token_claims \<Rightarrow> string res"
  jwt_verify :: "string \<Rightarrow> 'p \<Rightarrow> string \<Rightarrow> token_claims res"

record ('k, 'p) token_host =
  token_crypto :: "('k, 'p) token_crypto"
  token_refused :: refusals
  token_env :: "string \<Rightarrow> string"

record issuer = token_handler +
  issuer_public :: "(string \<Rightarrow> token_claims res) option"
  key_dir :: string
  private_key_path :: string
  public_key_path :: string
  issuer_mode :: string

record token_world =
  token_files :: file_system
  token_draws :: nat

section \<open>The configuration\<close>

definition to_upper :: "string \<Rightarrow> string" where
  "to_upper s = map (\<lambda>c. let n = of_char c :: nat in if 97 \<le> n \<and> n \<le> 122 then char_of (n - 32) else c) s"

definition validation_mode :: "string \<Rightarrow> string" where
  "validation_mode s = (if to_upper s \<in> {''ALL'', ''BUNDLE'', ''ANON''} then to_upper s else ''ALL'')"

definition token_key_dir :: "(string \<Rightarrow> string) \<Rightarrow> string" where
  "token_key_dir env =
     (if env ''HEXA_TKN_DIRECTORY'' \<noteq> [] then env ''HEXA_TKN_DIRECTORY''
      else if env ''HEXA_TKN_PRIVKEYFILE'' \<noteq> [] then path_dir (env ''HEXA_TKN_PRIVKEYFILE'')
      else if env ''HEXA_TKN_PUBKEYFILE'' \<noteq> [] then path_dir (env ''HEXA_TKN_PUBKEYFILE'')
      else path_join (env ''HOME'') ''./.certs'')"

definition default_private_file :: string where "default_private_file = ''issuer-priv.pem''"
definition default_public_file :: string where "default_public_file = ''issuer-cert.pem''"

definition configured_issuer :: "(string \<Rightarrow> string) \<Rightarrow> issuer" where
  "configured_issuer env =
     (let dir = token_key_dir env in
      \<lparr>token_issuer = [], private_key = None, issuer_public = None, key_dir = dir,
       private_key_path =
         (if env ''HEXA_TKN_PRIVKEYFILE'' = [] then path_join dir default_private_file else env ''HEXA_TKN_PRIVKEYFILE''),
       public_key_path =
         (if env ''HEXA_TKN_PUBKEYFILE'' = [] then path_join dir default_public_file else env ''HEXA_TKN_PUBKEYFILE''),
       issuer_mode = validation_mode (env ''HEXA_TKN_MODE'')\<rparr>)"

definition get_config :: "('k, 'p) token_host \<Rightarrow> (token_world, issuer) run" where
  "get_config h w =
     (let dir = token_key_dir (token_env h) in
      case os_mkdir_all (token_refused h) dir (token_files w) of
        Inl (Panic m) \<Rightarrow> (w, Inl (Crashed m))
      | Inl (Error e) \<Rightarrow>
          (w, Inl (Crashed (''Was unable to open or create certificate directory('' @ dir @ ''):'' @ e)))
      | Inr fs \<Rightarrow> (w\<lparr>token_files := fs\<rparr>, Inr (configured_issuer (token_env h))))"

section \<open>Keys\<close>

definition private_key_exists :: "('k, 'p) token_host \<Rightarrow> token_world \<Rightarrow> issuer \<Rightarrow> bool" where
  "private_key_exists h w t \<longleftrightarrow>
     os_stat (token_refused h) (token_files w) (private_key_path t) = Inr () \<and>
     private_key_path t \<notin> set (folders (token_files w))"

text \<open>The keys a verifier looks into: one, under its name.\<close>

definition convert_jwks :: "('k, 'p) token_host \<Rightarrow> string \<Rightarrow> 'p \<Rightarrow> string \<Rightarrow> token_claims res" where
  "convert_jwks h name pub = jwt_verify (token_crypto h) name pub"

text \<open>The key identifier of a signed token is the name of the issuer.\<close>

definition with_key :: "('k, 'p) token_host \<Rightarrow> string \<Rightarrow> 'k \<Rightarrow> issuer \<Rightarrow> issuer" where
  "with_key h name k t =
     t\<lparr>token_issuer := name,
       private_key := Some (\<lambda>c. jwt_sign (token_crypto h) k (claim_issuer c) c),
       issuer_public := Some (convert_jwks h name (public_of (token_crypto h) k))\<rparr>"

definition load_issuer_keys :: "('k, 'p) token_host \<Rightarrow> string \<Rightarrow> issuer \<Rightarrow> token_world \<Rightarrow> issuer res" where
  "load_issuer_keys h name t w =
     rbind (os_read_file (token_refused h) (token_files w) (private_key_path t)) (\<lambda>pem.
       rbind (go_deref (pem_decode (token_crypto h) pem)) (\<lambda>der.
         rbind (pkcs1_decode (token_crypto h) der) (\<lambda>k. Inr (with_key h name k t))))"

text \<open>The handler comes back with the error, as the configuration left it.\<close>

definition load_with_handler ::
  "('k, 'p) token_host \<Rightarrow> string \<Rightarrow> issuer \<Rightarrow> (token_world, issuer option \<times> string option) run" where
  "load_with_handler h name t w =
     (case load_issuer_keys h name t w of
        Inl (Panic m) \<Rightarrow> (w, Inl (Crashed m))
      | Inl (Error e) \<Rightarrow> (w, Inr (Some t, Some e))
      | Inr t' \<Rightarrow> (w, Inr (Some t', None)))"

definition load_issuer :: "('k, 'p) token_host \<Rightarrow> string \<Rightarrow> (token_world, issuer option \<times> string option) run" where
  "load_issuer h name = run_bind (get_config h) (load_with_handler h name)"

text \<open>The public key always goes to the default name in the directory, and an error of writing it is dropped.\<close>

definition make_issuer_keys ::
  "('k, 'p) token_host \<Rightarrow> string \<Rightarrow> issuer \<Rightarrow> (token_world, issuer option \<times> string option) run" where
  "make_issuer_keys h name t w =
     (let cr = token_crypto h; w' = w\<lparr>token_draws := Suc (token_draws w)\<rparr> in
      case generate_key cr (token_draws w) of
        Inl _ \<Rightarrow> (w', Inl (Crashed ''exit status -1''))
      | Inr k \<Rightarrow>
          (let priv = key_text cr k;
               pub = pem_encode cr ''CERTIFICATE'' (public_encode cr (public_of cr k)) in
           case os_write_file (token_refused h) (private_key_path t) priv (token_files w') of
             Inl (Panic m) \<Rightarrow> (w', Inl (Crashed m))
           | Inl (Error e) \<Rightarrow> (w', Inr (None, Some e))
           | Inr fs \<Rightarrow>
               (w'\<lparr>token_files :=
                   (case os_write_file (token_refused h) (path_join (key_dir t) default_public_file) pub fs of
                      Inl _ \<Rightarrow> fs | Inr gs \<Rightarrow> gs)\<rparr>,
                Inr (Some (with_key h name k t), None))))"

definition generate_issuer_keys ::
  "('k, 'p) token_host \<Rightarrow> string \<Rightarrow> bool \<Rightarrow> (token_world, issuer option \<times> string option) run" where
  "generate_issuer_keys h name keep_existing =
     run_bind (get_config h) (\<lambda>t w.
       if private_key_exists h w t \<and> keep_existing then load_with_handler h name t w
       else make_issuer_keys h name t w)"

section \<open>The resource\<close>

text \<open>The loader of keys of a resource that has the files; without a file the address is a service, and a parameter.\<close>

definition file_loader ::
  "('k, 'p) token_host \<Rightarrow> (string \<Rightarrow> (string \<Rightarrow> token_claims res) res) \<Rightarrow> file_system \<Rightarrow> key_loader" where
  "file_loader h from_url fs =
     \<lparr>load_url = from_url,
      read_pem = (\<lambda>p. rbind (os_read_file (token_refused h) fs p) (\<lambda>x. Inr (pem_decode (token_crypto h) x))),
      public_key = (\<lambda>name der. rbind (public_decode (token_crypto h) der) (\<lambda>p. Inr (jwt_verify (token_crypto h) name p)))\<rparr>"

text \<open>What is documented of the encodings and of JSON web tokens.\<close>

definition token_codec :: "('k, 'p) token_crypto \<Rightarrow> bool" where
  "token_codec cr \<longleftrightarrow>
     (\<forall>k. pkcs1_decode cr (pkcs1_encode cr k) = Inr k) \<and> (\<forall>p. public_decode cr (public_encode cr p) = Inr p) \<and>
     (\<forall>ty b. pem_decode cr (pem_encode cr ty b) = Some b)"

text \<open>Three parts of base64url text, separated by dots.\<close>

definition token_text :: "string \<Rightarrow> bool" where
  "token_text s \<longleftrightarrow> s \<noteq> [] \<and> list_all (\<lambda>c. \<not> is_space c \<and> c \<noteq> CHR '' '') s"

definition jwt_laws :: "('k, 'p) token_crypto \<Rightarrow> bool" where
  "jwt_laws cr \<longleftrightarrow>
     (\<forall>k kid c x. jwt_sign cr k kid c = Inr x \<longrightarrow> token_text x \<and> jwt_verify cr kid (public_of cr k) x = Inr c)"

section \<open>Lemmas\<close>

lemma with_key_simps [simp]:
  "key_dir (with_key h name k t) = key_dir t" "private_key_path (with_key h name k t) = private_key_path t"
  "token_issuer (with_key h name k t) = name"
  by (simp_all add: with_key_def)

lemma public_path_not_empty [simp]: "path_join d default_public_file \<noteq> []"
  by (simp add: path_join_def default_public_file_def)

text \<open>The files after keys were made, where the public key could be written.\<close>

definition public_path :: "issuer \<Rightarrow> string" where
  "public_path t = path_join (key_dir t) default_public_file"

definition public_writable :: "('k, 'p) token_host \<Rightarrow> file_system \<Rightarrow> issuer \<Rightarrow> bool" where
  "public_writable h fs t \<longleftrightarrow>
     public_path t \<noteq> private_key_path t \<and> token_refused h (public_path t) = None \<and>
     public_path t \<notin> set (folders fs) \<and> path_dir (public_path t) \<in> set (folders fs)"

lemma make_issuer_keys_files:
  assumes "make_issuer_keys h name t w = (w', Inr (Some t', None))" and "public_writable h (token_files w') t'"
  shows "\<exists>k. t' = with_key h name k t \<and>
    os_read_file (token_refused h) (token_files w') (private_key_path t) = Inr (key_text (token_crypto h) k) \<and>
    os_read_file (token_refused h) (token_files w') (public_path t) =
      Inr (pem_encode (token_crypto h) ''CERTIFICATE'' (public_encode (token_crypto h) (public_of (token_crypto h) k)))"
proof -
  let ?c = "token_crypto h"
  obtain k where k: "generate_key ?c (token_draws w) = Inr k"
    using assms(1) by (cases "generate_key ?c (token_draws w)") (auto simp: make_issuer_keys_def Let_def)
  let ?pub = "pem_encode ?c ''CERTIFICATE'' (public_encode ?c (public_of ?c k))"
  obtain fs where fs: "os_write_file (token_refused h) (private_key_path t) (key_text ?c k) (token_files w) = Inr fs"
    and t': "t' = with_key h name k t"
    and w': "token_files w' =
      (case os_write_file (token_refused h) (public_path t) ?pub fs of Inl _ \<Rightarrow> fs | Inr gs \<Rightarrow> gs)"
    using assms(1) k
    by (auto simp: make_issuer_keys_def Let_def public_path_def split: sum.splits fault.splits)
  have p: "public_path t' = public_path t" by (simp add: t' public_path_def)
  have "folders (token_files w') = folders fs"
    unfolding w' by (auto simp: rbind_iff split: sum.split)
  with assms(2) have ok: "os_write_file (token_refused h) (public_path t) ?pub fs =
      Inr (fs\<lparr>file_texts := AList.update (public_path t) ?pub (file_texts fs)\<rparr>)"
    unfolding rbind_iff by (auto simp: public_writable_def p)
  show ?thesis
    using fs assms(2) unfolding t' w' ok
    by (intro exI [of _ k]) (auto simp: rbind_iff update_conv' public_writable_def public_path_def)
qed

lemma get_config_Inr:
  "get_config h w = (w', Inr t) \<longleftrightarrow>
     t = configured_issuer (token_env h) \<and>
     (\<exists>fs. os_mkdir_all (token_refused h) (token_key_dir (token_env h)) (token_files w) = Inr fs \<and> w' = w\<lparr>token_files := fs\<rparr>)"
  by (auto simp: get_config_def Let_def split: sum.splits fault.splits)

text \<open>New keys, and the files they are in.\<close>

lemma generated_keys_files:
  assumes "generate_issuer_keys h name False w = (w', Inr (Some t, None))" and "public_writable h (token_files w') t"
  shows "\<exists>k. t = with_key h name k (configured_issuer (token_env h)) \<and>
    os_read_file (token_refused h) (token_files w') (private_key_path t) = Inr (key_text (token_crypto h) k) \<and>
    os_read_file (token_refused h) (token_files w') (public_path t) =
      Inr (pem_encode (token_crypto h) ''CERTIFICATE'' (public_encode (token_crypto h) (public_of (token_crypto h) k))) \<and>
    set (dir_chain (token_key_dir (token_env h))) \<subseteq> set (folders (token_files w'))"
proof -
  obtain fs where fs: "os_mkdir_all (token_refused h) (token_key_dir (token_env h)) (token_files w) = Inr fs"
    and m: "make_issuer_keys h name (configured_issuer (token_env h)) (w\<lparr>token_files := fs\<rparr>) = (w', Inr (Some t, None))"
    using assms(1) by (auto simp: generate_issuer_keys_def rbind_iff get_config_Inr)
  obtain k where "t = with_key h name k (configured_issuer (token_env h))"
    and "os_read_file (token_refused h) (token_files w') (private_key_path t) = Inr (key_text (token_crypto h) k)"
    and "os_read_file (token_refused h) (token_files w') (public_path t) =
      Inr (pem_encode (token_crypto h) ''CERTIFICATE'' (public_encode (token_crypto h) (public_of (token_crypto h) k)))"
    using make_issuer_keys_files [OF m assms(2)] by (auto simp: public_path_def)
  moreover have "folders (token_files w') = folders fs"
    using m by (auto simp: make_issuer_keys_def Let_def rbind_iff split: sum.splits fault.splits)
  ultimately show ?thesis using os_mkdir_all_made [OF fs] by auto
qed

text \<open>A second start, keeping what exists, loads the keys of the first; so does a load.\<close>

lemma configured_path: "configured_issuer env = t \<Longrightarrow> key_dir t = token_key_dir env"
  by (auto simp: configured_issuer_def Let_def)

lemma generated_keys_load:
  assumes "generate_issuer_keys h name False w = (w', Inr (Some t, None))" and "public_writable h (token_files w') t"
    and "token_codec (token_crypto h)"
  shows "load_issuer h name w' = (w', Inr (Some t, None))"
    and "generate_issuer_keys h name True w' = (w', Inr (Some t, None))"
proof -
  let ?i = "configured_issuer (token_env h)"
  obtain k where t: "t = with_key h name k ?i"
    and pem: "os_read_file (token_refused h) (token_files w') (private_key_path t) = Inr (key_text (token_crypto h) k)"
    and dirs: "set (dir_chain (token_key_dir (token_env h))) \<subseteq> set (folders (token_files w'))"
    using generated_keys_files [OF assms(1,2)] by auto
  have conf: "get_config h w' = (w', Inr ?i)"
    using os_mkdir_all_present [OF dirs] by (simp add: get_config_Inr)
  have load: "load_with_handler h name ?i w' = (w', Inr (Some t, None))"
    using pem assms(3)
    by (simp add: load_with_handler_def load_issuer_keys_def t key_text_def token_codec_def go_deref_def)
  have "private_key_exists h w' ?i"
    using pem unfolding rbind_iff by (auto simp: private_key_exists_def t os_stat_def rbind_iff file_exists_def)
  with conf load show "load_issuer h name w' = (w', Inr (Some t, None))"
    and "generate_issuer_keys h name True w' = (w', Inr (Some t, None))"
    by (simp_all add: load_issuer_def generate_issuer_keys_def run_bind_def)
qed

lemma public_key_from_file:
  assumes "env ''HEXA_JWT_AUTH_ENABLE'' = ''true''" and "env ''HEXA_TOKEN_JWKSURL'' = []"
    and "env ''HEXA_TKN_PUBKEYFILE'' = p" and "p \<noteq> []" and "token_codec (token_crypto h)"
    and "os_read_file (token_refused h) fs p = Inr (pem_encode (token_crypto h) ''CERTIFICATE'' (public_encode (token_crypto h) pub))"
  shows "\<exists>a. new_resource_jwt_authorizer env (file_loader h from_url fs) = Inr a \<and>
    auth_key a = jwt_verify (token_crypto h) (env ''HEXA_JWT_KID'') pub \<and> auth_audience a = env ''HEXA_JWT_AUDIENCE''"
  using assms
  by (simp add: new_resource_jwt_authorizer_def Let_def key_func_from_file_def file_loader_def token_codec_def go_deref_def)

text \<open>Property C14.  A resource that is given the file with the public key, the name of the issuer and its audience
  accepts the tokens of an issuer whose keys were made, wherever one of their scopes is asked for.\<close>

theorem issued_tokens_accepted:
  assumes "generate_issuer_keys h name False w = (w', Inr (Some t, None))" and "public_writable h (token_files w') t"
    and "token_codec (token_crypto h)" and "jwt_laws (token_crypto h)"
    and "env ''HEXA_JWT_AUTH_ENABLE'' = ''true''" and "env ''HEXA_TOKEN_JWKSURL'' = []"
    and "env ''HEXA_TKN_PUBKEYFILE'' = public_path t" and "env ''HEXA_JWT_KID'' = name"
    and "equal_fold name (env ''HEXA_JWT_AUDIENCE'')"
    and "issue_token t (Some scopes) email = Inr token"
  shows "\<exists>a. new_resource_jwt_authorizer env (file_loader h from_url (token_files w')) = Inr a \<and>
    validate_authorization a [(''Authorization'', ''Bearer '' @ token)] (Some accepted) =
      Inr (if jwt_scope_match accepted ([] # scopes) then Some (issued_claims t (Some scopes) email) else None)"
proof -
  obtain k where t: "t = with_key h name k (configured_issuer (token_env h))"
    and pem: "os_read_file (token_refused h) (token_files w') (public_path t) =
      Inr (pem_encode (token_crypto h) ''CERTIFICATE'' (public_encode (token_crypto h) (public_of (token_crypto h) k)))"
    using generated_keys_files [OF assms(1,2)] by auto
  have "public_path t \<noteq> []" by (simp add: public_path_def)
  from public_key_from_file [OF assms(5-7) this assms(3) pem, of from_url] obtain a where
    a: "new_resource_jwt_authorizer env (file_loader h from_url (token_files w')) = Inr a"
    and key: "auth_key a = jwt_verify (token_crypto h) name (public_of (token_crypto h) k)"
    and aud: "auth_audience a = env ''HEXA_JWT_AUDIENCE''"
    unfolding assms(8) by auto
  have sign: "jwt_sign (token_crypto h) k name (issued_claims t (Some scopes) email) = Inr token"
    using assms(10) by (simp add: issue_token_def t with_key_def issued_claims_def)
  then have tok: "token_text token"
    and ver: "jwt_verify (token_crypto h) name (public_of (token_crypto h) k) token = Inr (issued_claims t (Some scopes) email)"
    using assms(4) by (auto simp: jwt_laws_def)
  have "validate_authorization a [(''Authorization'', ''Bearer '' @ token)] (Some accepted) =
      Inr (if jwt_scope_match accepted ([] # scopes) then Some (issued_claims t (Some scopes) email) else None)"
  proof (rule issued_token_accepted [OF _ _ _ _ _ _ _, of t])
    show "issue_token t (Some scopes) email = Inr token" by (rule assms(10))
    show "auth_key a token = Inr (issued_claims t (Some scopes) email)" using key ver by simp
    show "token \<noteq> []" "\<not> is_space (hd token)" "\<not> is_space (last token)" "CHR '' '' \<notin> set token"
      using tok by (auto simp: token_text_def list_all_iff)
    show "equal_fold (token_issuer t) (auth_audience a)" using assms(9) by (simp add: t aud)
  qed
  with a show ?thesis by blast
qed

text \<open>An issuer named hexa, whose library signs the claims of one user.\<close>

definition demo_claims :: token_claims where
  "demo_claims =
     \<lparr>claim_subject = [], claim_issuer = ''hexa'', claim_audience = [''hexa''], claim_email = ''a@b.c'', claim_scope = [],
      claim_roles = Some [''az'', ''root'']\<rparr>"

definition demo_token_crypto :: "(nat, nat) token_crypto" where
  "demo_token_crypto =
     \<lparr>generate_key = (\<lambda>n. Inr n), random_below = (\<lambda>m n. int n mod m), pkcs1_encode = (\<lambda>k. replicate k CHR ''k''),
      pkcs1_decode = (\<lambda>t. Inr (length t)), pem_encode = (\<lambda>ty b. ''-----BEGIN-----'' @ b),
      pem_decode = (\<lambda>t. Some (drop 15 t)), create_certificate = (\<lambda>c p k s. Inr (replicate k CHR ''k'')),
      public_of = (\<lambda>k. k), public_encode = (\<lambda>p. replicate p CHR ''p''), public_decode = (\<lambda>t. Inr (length t)),
      jwt_sign = (\<lambda>k kid c. if c = demo_claims then Inr (''hexa.'' @ replicate k CHR ''s'') else Inl (Error ''unsupported'')),
      jwt_verify = (\<lambda>kid p x. if x = ''hexa.'' @ replicate p CHR ''s'' then Inr demo_claims else Inl (Error ''invalid''))\<rparr>"

definition demo_host :: "(nat, nat) token_host" where
  "demo_host = \<lparr>token_crypto = demo_token_crypto, token_refused = (\<lambda>_. None), token_env = (\<lambda>n. if n = ''HOME'' then ''/h'' else [])\<rparr>"

definition demo_world :: token_world where
  "demo_world = \<lparr>token_files = \<lparr>file_texts = [], folders = [''/h'']\<rparr>, token_draws = 3\<rparr>"

definition demo_issuer :: issuer where
  "demo_issuer = with_key demo_host ''hexa'' 3 (configured_issuer (token_env demo_host))"

definition demo_made :: token_world where
  "demo_made =
     \<lparr>token_files = \<lparr>file_texts = [(''/h/.certs/issuer-priv.pem'', ''-----BEGIN-----kkk''),
                                  (''/h/.certs/issuer-cert.pem'', ''-----BEGIN-----ppp'')],
                     folders = [''/h/.certs'', ''/h'']\<rparr>,
      token_draws = 4\<rparr>"

definition demo_env :: "string \<Rightarrow> string" where
  "demo_env n =
     (if n = ''HEXA_JWT_AUTH_ENABLE'' then ''true'' else if n = ''HEXA_TKN_PUBKEYFILE'' then ''/h/.certs/issuer-cert.pem''
      else if n = ''HEXA_JWT_KID'' then ''hexa'' else if n = ''HEXA_JWT_AUDIENCE'' then ''HEXA'' else [])"

lemma demo_dirs: "dir_chain ''/h/.certs'' = [''/h'', ''/h/.certs'']"
  and demo_conf: "token_key_dir (token_env demo_host) = ''/h/.certs''"
    "path_join ''/h/.certs'' default_public_file = ''/h/.certs/issuer-cert.pem''"
    "path_join ''/h/.certs'' default_private_file = ''/h/.certs/issuer-priv.pem''"
    "path_dir ''/h/.certs/issuer-cert.pem'' = ''/h/.certs''" "path_dir ''/h/.certs/issuer-priv.pem'' = ''/h/.certs''"
  by code_simp+

lemma demo_issuer_fields: "public_path demo_issuer = ''/h/.certs/issuer-cert.pem''"
    "private_key_path demo_issuer = ''/h/.certs/issuer-priv.pem''"
  unfolding public_path_def demo_issuer_def with_key_simps by code_simp+

lemma demo_generated: "generate_issuer_keys demo_host ''hexa'' False demo_world = (demo_made, Inr (Some demo_issuer, None))"
proof -
  let ?w = "demo_world\<lparr>token_files := \<lparr>file_texts = [], folders = [''/h/.certs'', ''/h'']\<rparr>\<rparr>"
  have conf: "get_config demo_host demo_world = (?w, Inr (configured_issuer (token_env demo_host)))"
    unfolding get_config_Inr demo_conf os_mkdir_all_def demo_dirs
    by (simp add: demo_world_def demo_host_def go_error_def)
  have "private_key_path (configured_issuer (token_env demo_host)) = ''/h/.certs/issuer-priv.pem''"
    "key_dir (configured_issuer (token_env demo_host)) = ''/h/.certs''"
    by code_simp+
  then have "make_issuer_keys demo_host ''hexa'' (configured_issuer (token_env demo_host)) ?w = (demo_made, Inr (Some demo_issuer, None))"
    by (simp add: make_issuer_keys_def Let_def demo_conf demo_host_def demo_token_crypto_def demo_world_def os_write_file_def
        demo_made_def demo_issuer_def key_text_def numeral_3_eq_3 go_error_def)
  with conf show ?thesis by (simp add: generate_issuer_keys_def run_bind_def)
qed

theorem issued_tokens_accepted_witness:
  "\<exists>a. new_resource_jwt_authorizer demo_env (file_loader demo_host (\<lambda>_. Inl (Error ''refused'')) (token_files demo_made)) = Inr a \<and>
    validate_authorization a [(''Authorization'', ''Bearer '' @ ''hexa.sss'')] (Some [''root'']) =
      Inr (if jwt_scope_match [''root''] ([] # [''az'', ''root'']) then Some (issued_claims demo_issuer (Some [''az'', ''root'']) ''a@b.c'') else None)"
proof (rule issued_tokens_accepted [OF demo_generated])
  show "public_writable demo_host (token_files demo_made) demo_issuer"
    by (simp add: public_writable_def demo_issuer_fields demo_made_def demo_conf demo_host_def)
  show "token_codec (token_crypto demo_host)" by (simp add: token_codec_def demo_host_def demo_token_crypto_def)
  show "jwt_laws (token_crypto demo_host)"
    by (auto simp: jwt_laws_def demo_host_def demo_token_crypto_def token_text_def is_space_def list_all_iff split: if_splits)
  show "issue_token demo_issuer (Some [''az'', ''root'']) ''a@b.c'' = Inr ''hexa.sss''"
    by (simp add: issue_token_def demo_issuer_def with_key_def issued_claims_def demo_host_def demo_token_crypto_def
        demo_claims_def numeral_3_eq_3)
qed (simp_all add: demo_env_def demo_issuer_fields equal_fold_def to_lower_def lower_others)

text \<open>With another name for the public key in the environment the issuer writes a file that the resource does not read.\<close>

lemma public_key_elsewhere:
  assumes "generate_issuer_keys h name False w = (w', Inr (Some t, None))"
    and "token_env h ''HEXA_TKN_PUBKEYFILE'' \<notin> {[], private_key_path t, public_path t}"
    and "map_of (file_texts (token_files w)) (token_env h ''HEXA_TKN_PUBKEYFILE'') = None"
  shows "map_of (file_texts (token_files w')) (token_env h ''HEXA_TKN_PUBKEYFILE'') = None"
proof -
  let ?i = "configured_issuer (token_env h)" and ?p = "token_env h ''HEXA_TKN_PUBKEYFILE''"
  obtain fs where fs: "os_mkdir_all (token_refused h) (token_key_dir (token_env h)) (token_files w) = Inr fs"
    and m: "make_issuer_keys h name ?i (w\<lparr>token_files := fs\<rparr>) = (w', Inr (Some t, None))"
    using assms(1) by (auto simp: generate_issuer_keys_def rbind_iff get_config_Inr)
  have t: "private_key_path ?i = private_key_path t" "public_path ?i = public_path t"
    using m by (auto simp: make_issuer_keys_def Let_def public_path_def split: sum.splits fault.splits)
  have "map_of (file_texts fs) ?p = None" using os_mkdir_all_texts(1) [OF fs] assms(3) by simp
  then show ?thesis
    using m assms(2) unfolding t [symmetric] public_path_def
    by (auto simp: make_issuer_keys_def Let_def rbind_iff update_conv' split: sum.splits fault.splits)
qed

end
