(* ===== verification/Aws_Cedar.thy ===== *)
theory Aws_Cedar
  imports Gcp_Cel Hexa_Policy
begin

text \<open>
  The earlier mapping of Cedar policies, \<^verbatim>\<open>models/formats/awsCedar\<close>, which the source keeps as deprecated: from
  policies to Cedar, with one Cedar policy for every subject, and back, and the text of a Cedar policy.

  The parser, a library built from struct tags, is a parameter, and so is the CEL parser; conditions are those of
  \<open>Gcp_Cel\<close>.
\<close>

section \<open>Data\<close>

record action_expression =
  ae_operator :: string
  ae_items :: "string list"
  ae_single :: string

record entity_expression =
  ee_operator :: string
  ee_entity :: string

record policy_head =
  head_principal :: "entity_expression option"
  head_action :: "action_expression option"
  head_resource :: "entity_expression option"

record conditional_clause =
  clause_kind :: string
  clause_cel :: string

record aws_policy =
  aws_kind :: string
  aws_head :: policy_head
  aws_clauses :: "conditional_clause list"

section \<open>Names\<close>

definition colons :: string where "colons = ''::''"

text \<open>A change of what follows the last pair of colons.\<close>

definition change_last :: "(string \<Rightarrow> string res) \<Rightarrow> string \<Rightarrow> string res" where
  "change_last f s =
     (let es = split_str s colons in rbind (f (last es)) (\<lambda>l. Inr (join_str (butlast es @ [l]) colons)))"

definition strip_quotes :: "string \<Rightarrow> string res" where
  "strip_quotes l =
     rbind (go_slice l 0 1) (\<lambda>h. if h = [dq] then go_slice l 1 (length l - 1) else Inr l)"

definition put_quotes :: "string \<Rightarrow> string res" where
  "put_quotes l = rbind (go_slice l 0 1) (\<lambda>h. Inr (if h \<noteq> [dq] then [dq] @ l @ [dq] else l))"

definition remove_last_quotes :: "string \<Rightarrow> string res" where
  "remove_last_quotes = change_last strip_quotes"

definition add_last_quotes :: "string \<Rightarrow> string res" where
  "add_last_quotes = change_last put_quotes"

definition map_action_item :: "string \<Rightarrow> string res" where
  "map_action_item a =
     (if contains_str a colons then rbind (remove_last_quotes a) (\<lambda>s. Inr (''cedar:'' @ s)) else Inr a)"

definition without_cedar :: "string \<Rightarrow> string" where
  "without_cedar s = (if has_prefix (to_lower s) ''cedar:'' then drop 6 s else s)"

definition map_action_uri :: "string \<Rightarrow> string res" where
  "map_action_uri a = add_last_quotes (without_cedar a)"

definition map_actions :: "string list \<Rightarrow> action_expression option res" where
  "map_actions as =
     (case as of
        [] \<Rightarrow> Inr None
      | [a] \<Rightarrow> rbind (map_action_uri a) (\<lambda>u. Inr (Some \<lparr>ae_operator = ''=='', ae_items = [], ae_single = u\<rparr>))
      | _ \<Rightarrow> rbind (mapM map_action_uri as) (\<lambda>us. Inr (Some \<lparr>ae_operator = ''in'', ae_items = us, ae_single = []\<rparr>)))"

definition is_singular :: "string \<Rightarrow> bool" where
  "is_singular e \<longleftrightarrow> list_ex (has_prefix (to_lower e)) [''file'', ''user'', ''employee'']"

definition map_resource_to_object :: "entity_expression \<Rightarrow> string res" where
  "map_resource_to_object r = rbind (remove_last_quotes (ee_entity r)) (\<lambda>s. Inr (''cedar:'' @ s))"

definition map_object_to_resource :: "string \<Rightarrow> entity_expression option res" where
  "map_object_to_resource obj =
     (if obj = [] then Inr None
      else
        rbind (add_last_quotes (without_cedar obj)) (\<lambda>e.
          Inr (Some \<lparr>ee_operator = (if is_singular obj then ''=='' else ''in''), ee_entity = e\<rparr>)))"

definition map_member_to_principal :: "string \<Rightarrow> string res" where
  "map_member_to_principal m =
     (case split_n2 m '':'' of
        [t, i] \<Rightarrow>
          if has_prefix i '':'' then Inr m else rbind (add_last_quotes i) (\<lambda>q. Inr (t @ colons @ q))
      | _ \<Rightarrow> Inr m)"

definition map_principal_to_member :: "string \<Rightarrow> string res" where
  "map_principal_to_member p =
     (case split_n2 p colons of
        [t, i] \<Rightarrow> rbind (remove_last_quotes i) (\<lambda>s. Inr (t @ '':'' @ s))
      | _ \<Rightarrow> Inr p)"

section \<open>To Cedar\<close>

definition condition_clauses :: "attribute_map \<Rightarrow> condition_info option \<Rightarrow> conditional_clause list res" where
  "condition_clauses nm c =
     (case c of
        None \<Rightarrow> Inr []
      | Some ci \<Rightarrow>
          rbind (gcp_map_condition nm ci) (\<lambda>cel.
            Inr [\<lparr>clause_kind = (if action ci = ''deny'' then ''unless'' else ''when''), clause_cel = cel\<rparr>]))"

text \<open>Four bytes are compared with words of five, so that every member becomes an equality.\<close>

definition principal_of :: "string \<Rightarrow> (entity_expression option \<times> conditional_clause list) res" where
  "principal_of m =
     (if m = ''any'' \<or> m = [] then Inr (None, [])
      else if m \<in> {''anyAuthenticated'', ''jwt'', ''saml'', ''basic''} then
        Inr (None, [\<lparr>clause_kind = ''when'', clause_cel = ''context.authenticated == true''\<rparr>])
      else
        rbind (map_member_to_principal m) (\<lambda>p.
          rbind (go_slice (to_lower m) 0 4) (\<lambda>w.
            Inr (Some \<lparr>ee_operator = (if w = ''user:'' then ''=='' else if w = ''group'' \<or> w = ''domai'' then ''in'' else ''==''),
                       ee_entity = p\<rparr>, []))))"

definition map_simple_policy :: "attribute_map \<Rightarrow> string \<Rightarrow> policy_info \<Rightarrow> aws_policy res" where
  "map_simple_policy nm m pol =
     rbind (condition_clauses nm (condition pol)) (\<lambda>cs.
       rbind (principal_of m) (\<lambda>(pr, more_cs).
         rbind (map_actions (elems (actions pol))) (\<lambda>as.
           rbind (map_object_to_resource (object_info pol)) (\<lambda>res.
             Inr \<lparr>aws_kind = ''permit'',
                  aws_head = \<lparr>head_principal = pr, head_action = as, head_resource = res\<rparr>,
                  aws_clauses = cs @ more_cs\<rparr>))))"

definition map_policy_to_cedar :: "attribute_map \<Rightarrow> policy_info \<Rightarrow> aws_policy list res" where
  "map_policy_to_cedar nm pol =
     (if elems (subjects pol) = [] then rbind (map_simple_policy nm [] pol) (\<lambda>c. Inr [c])
      else mapM (\<lambda>m. map_simple_policy nm m pol) (elems (subjects pol)))"

definition map_policies_to_cedar :: "attribute_map \<Rightarrow> policy_info list \<Rightarrow> aws_policy list res" where
  "map_policies_to_cedar nm ps = rbind (mapM (map_policy_to_cedar nm) ps) (\<lambda>cs. Inr (concat cs))"

section \<open>From Cedar\<close>

text \<open>The CEL parser does not know entities.\<close>

definition cel_entities :: "string \<Rightarrow> string" where
  "cel_entities cel =
     (if contains_str cel colons then
        foldl (\<lambda>c n. replace_all c (n @ ''::'' @ [dq]) ([dq] @ n @ '':'')) cel
          [''Group'', ''User'', ''GitAccount'', ''Domain'', ''Account'']
      else cel)"

type_synonym cel_parser = "string \<Rightarrow> string + cel_expr"

fun clause_rules :: "cel_parser \<Rightarrow> attribute_map \<Rightarrow> conditional_clause list \<Rightarrow> string list res" where
  "clause_rules cp nm [] = Inr []"
| "clause_rules cp nm (c # cs) =
     (let cel = cel_entities (clause_cel c) in
      if equal_fold cel ''true'' then clause_rules cp nm cs
      else
        rbind (map_provider_to_condition cp nm cel) (\<lambda>ci.
          rbind (clause_rules cp nm cs) (\<lambda>rs.
            Inr ((if clause_kind c = ''when'' then rule ci else ''not('' @ rule ci @ '')'') # rs))))"

definition merge_rules :: "string list \<Rightarrow> condition_info option" where
  "merge_rules rs =
     (case rs of
        [] \<Rightarrow> None
      | [r] \<Rightarrow> Some \<lparr>rule = r, action = ''permit''\<rparr>
      | r # rs' \<Rightarrow>
          Some \<lparr>rule = foldl (\<lambda>m v. if has_prefix v ''not'' then m @ '' && '' @ v else m @ '' && ('' @ v @ '')'') (''('' @ r @ '')'') rs',
                action = ''permit''\<rparr>)"

definition head_actions :: "policy_head \<Rightarrow> string list res" where
  "head_actions h =
     (case head_action h of
        None \<Rightarrow> Inr []
      | Some ae \<Rightarrow>
          if ae_single ae \<noteq> [] then rbind (map_action_item (ae_single ae)) (\<lambda>a. Inr [a])
          else mapM map_action_item (ae_items ae))"

definition head_subjects :: "policy_head \<Rightarrow> string list res" where
  "head_subjects h =
     (case head_principal h of
        None \<Rightarrow> Inr [''any'']
      | Some e \<Rightarrow> rbind (map_principal_to_member (ee_entity e)) (\<lambda>m. Inr [m]))"

definition version_meta :: meta_info where
  "version_meta = \<lparr>meta_version = ''0.7'', source_data = None, description = [], created = None, modified = None,
     etag = [], policy_id = None, pap_id = None, provider_type = []\<rparr>"

text \<open>Whether the policy permits or forbids is not looked at.\<close>

definition map_aws_policy :: "cel_parser \<Rightarrow> attribute_map \<Rightarrow> aws_policy \<Rightarrow> policy_info res" where
  "map_aws_policy cp nm c =
     rbind (head_subjects (aws_head c)) (\<lambda>ss.
       rbind (head_actions (aws_head c)) (\<lambda>as.
         rbind (clause_rules cp nm (aws_clauses c)) (\<lambda>rs.
           rbind (case head_resource (aws_head c) of None \<Rightarrow> Inr [] | Some r \<Rightarrow> map_resource_to_object r) (\<lambda>obj.
             Inr \<lparr>meta = version_meta, subjects = Some ss, actions = Some as, object_info = obj,
                  condition = merge_rules rs, scope = None\<rparr>))))"

definition map_aws_policies :: "cel_parser \<Rightarrow> attribute_map \<Rightarrow> aws_policy list \<Rightarrow> policy_info list res" where
  "map_aws_policies cp nm cs = mapM (map_aws_policy cp nm) cs"

definition parse_and_map ::
  "(string \<Rightarrow> aws_policy list res) \<Rightarrow> cel_parser \<Rightarrow> attribute_map \<Rightarrow> string \<Rightarrow> policy_info list res" where
  "parse_and_map parse cp nm text = rbind (parse text) (map_aws_policies cp nm)"

definition parse_aws_file ::
  "(string \<Rightarrow> string res) \<Rightarrow> (string \<Rightarrow> aws_policy list res) \<Rightarrow> cel_parser \<Rightarrow> attribute_map \<Rightarrow> string \<Rightarrow> policy_info list res" where
  "parse_aws_file read parse cp nm file_name = rbind (read file_name) (parse_and_map parse cp nm)"

text \<open>The inputs of the generic interface.  Their errors are kept in variables of their own, and lost.\<close>

datatype aws_input = PoliciesInput "aws_policy list" | PolicyInput aws_policy | BytesInput string | FileInput string | OtherInput string

fun input_policies ::
  "(string \<Rightarrow> string res) \<Rightarrow> (string \<Rightarrow> aws_policy list res) \<Rightarrow> cel_parser \<Rightarrow> attribute_map \<Rightarrow> aws_input \<Rightarrow> policy_info list res" where
  "input_policies read parse cp nm (PoliciesInput cs) = map_aws_policies cp nm cs"
| "input_policies read parse cp nm (PolicyInput c) = rbind (map_aws_policy cp nm c) (\<lambda>p. Inr [p])"
| "input_policies read parse cp nm (BytesInput t) = parse_and_map parse cp nm t"
| "input_policies read parse cp nm (FileInput f) = parse_aws_file read parse cp nm f"
| "input_policies read parse cp nm (OtherInput t) = Inr []"

fun map_to_hexa_policy ::
  "(string \<Rightarrow> string res) \<Rightarrow> (string \<Rightarrow> aws_policy list res) \<Rightarrow> cel_parser \<Rightarrow> attribute_map \<Rightarrow> aws_input list \<Rightarrow>
     (policy_info list \<times> string option) res" where
  "map_to_hexa_policy read parse cp nm [] = Inr ([], None)"
| "map_to_hexa_policy read parse cp nm (i # is) =
     (case input_policies read parse cp nm i of
        Inl (Panic m) \<Rightarrow> Inl (Panic m)
      | r \<Rightarrow>
          rbind (map_to_hexa_policy read parse cp nm is) (\<lambda>(ps, e).
            Inr ((case r of Inl _ \<Rightarrow> [] | Inr qs \<Rightarrow> qs) @ ps,
                 case i of OtherInput t \<Rightarrow> Some (case e of None \<Rightarrow> ''Unsupported Cedar input type: '' @ t | Some m \<Rightarrow> m) | _ \<Rightarrow> e)))"

section \<open>The text of a policy\<close>

definition aws_line :: string where "aws_line = [CHR 0x0A]"
definition spacer :: string where "spacer = ''    ''"

definition entity_type_of :: "string \<Rightarrow> string" where
  "entity_type_of e =
     (let ps = split_n2 e colons in hd (if length ps < 2 then split_n2 e '':'' else ps))"

text \<open>The operator that is printed depends on the type, not on the operator of the expression.\<close>

definition entity_clause :: "string \<Rightarrow> entity_expression option \<Rightarrow> string" where
  "entity_clause name e =
     (case e of
        None \<Rightarrow> name
      | Some x \<Rightarrow> name @ (if is_singular (entity_type_of (ee_entity x)) then '' == '' else '' in '') @ ee_entity x)"

definition action_text :: "action_expression \<Rightarrow> string" where
  "action_text a = (if ae_operator a = ''=='' then ''== '' @ ae_single a else ''in ['' @ join_str (ae_items a) '', '' @ '']'')"

definition head_text :: "policy_head \<Rightarrow> string" where
  "head_text h =
     ''('' @ aws_line @ spacer @ entity_clause ''principal'' (head_principal h) @ '','' @ aws_line @
     spacer @ (case head_action h of None \<Rightarrow> ''action'' | Some a \<Rightarrow> ''action '' @ action_text a) @ '','' @ aws_line @
     spacer @ entity_clause ''resource'' (head_resource h) @ aws_line @ '')''"

definition conditional_text :: "conditional_clause \<Rightarrow> string" where
  "conditional_text c = (if clause_kind c = ''when'' then ''when { '' else ''unless { '') @ clause_cel c @ '' }''"

definition aws_policy_text :: "aws_policy \<Rightarrow> string" where
  "aws_policy_text c =
     aws_kind c @ '' '' @ head_text (aws_head c) @
     concat (map (\<lambda>k. aws_line @ conditional_text k) (aws_clauses c)) @ '';'' @ aws_line"

text \<open>The expressions' own texts.\<close>

definition entity_expression_text :: "entity_expression \<Rightarrow> string" where
  "entity_expression_text e =
     (if ee_operator e = ''=='' then ''== '' @ ee_entity e else ''in ['' @ ee_entity e @ '']'')"

section \<open>The text of a condition\<close>

text \<open>
  The tokens up to the closing bracket, put together again, with the tokens that are left.  Operators of one or two
  signs get blanks around them; at the end of the tokens the text ends too.
\<close>

definition prepend :: "string \<Rightarrow> string \<times> 'a \<Rightarrow> string \<times> 'a" where
  "prepend s r = (s @ fst r, snd r)"

definition operator_sign :: "string \<Rightarrow> bool" where
  "operator_sign t \<longleftrightarrow> t \<in> {''&'', ''|'', '','', ''<'', ''>'', ''=''}"

function condition_tokens :: "bool \<Rightarrow> string list \<Rightarrow> string \<times> string list" where
  "condition_tokens skip [] = ([], [])"
| "condition_tokens skip (t # ts) =
     (if skip \<and> t = ''{'' then condition_tokens False ts
      else if t = ''}'' then ([], ts)
      else if t = ''in'' then prepend '' in '' (condition_tokens True ts)
      else if operator_sign t then
        (case ts of
           u # us \<Rightarrow>
             if operator_sign u then prepend ('' '' @ t @ u @ '' '') (condition_tokens True us)
             else prepend ('' '' @ t @ '' '') (condition_tokens True ts)
         | [] \<Rightarrow> ('' '' @ t @ '' '', []))
      else prepend t (condition_tokens True ts))"
  by pat_completeness auto
termination by (relation "measure (\<lambda>(_, ts). length ts)") auto

section \<open>Names and quotes\<close>

lemma index_colons: "CHR '':'' \<notin> set x \<Longrightarrow> index_str (x @ colons @ t) colons = Some (length x)"
  by (induction x) (auto simp: has_prefix_def colons_def)

lemma index_char: "c \<notin> set x \<Longrightarrow> index_str (x @ c # t) [c] = Some (length x)"
  by (induction x) (auto simp: has_prefix_def)

lemma index_no_colons: "CHR '':'' \<notin> set x \<Longrightarrow> index_str x colons = None"
  by (induction x) (auto simp: has_prefix_def colons_def)

lemma split_colons:
  assumes "es \<noteq> []" and "\<And>e. e \<in> set es \<Longrightarrow> CHR '':'' \<notin> set e"
  shows "split_str (join_str es colons) colons = es"
  using assms
proof (induction es)
  case (Cons x xs)
  then show ?case
  proof (cases xs)
    case Nil
    with Cons.prems show ?thesis by (subst split_str.simps) (simp add: index_no_colons)
  next
    case (Cons y ys)
    have "index_str (x @ colons @ join_str xs colons) colons = Some (length x)"
      using Cons.prems by (intro index_colons) simp
    then have "split_str (x @ colons @ join_str xs colons) colons = x # split_str (join_str xs colons) colons"
      by (subst split_str.simps) (simp add: colons_def)
    with Cons.IH Cons.prems Cons show ?thesis by simp
  qed
qed simp

text \<open>Names whose parts are not empty, have no colon and are not quoted.\<close>

definition plain_parts :: "string list \<Rightarrow> bool" where
  "plain_parts es \<longleftrightarrow> es \<noteq> [] \<and> list_all (\<lambda>e. e \<noteq> [] \<and> CHR '':'' \<notin> set e) es \<and> hd (last es) \<noteq> dq"

definition name_of :: "string list \<Rightarrow> string" where
  "name_of es = join_str es colons"

definition quoted_name :: "string list \<Rightarrow> string" where
  "quoted_name es = join_str (butlast es @ [[dq] @ last es @ [dq]]) colons"

lemma plain_last:
  assumes "plain_parts es"
  shows "last es \<noteq> []" and "CHR '':'' \<notin> set (last es)" and "\<And>e. e \<in> set es \<Longrightarrow> CHR '':'' \<notin> set e"
    and "es \<noteq> []" and "hd (last es) \<noteq> dq"
  using assms by (auto simp: plain_parts_def list_all_iff)

lemma add_quotes_name:
  assumes "plain_parts es"
  shows "add_last_quotes (name_of es) = Inr (quoted_name es)"
proof -
  have "take 1 (last es) \<noteq> [dq]" using plain_last [OF assms] by (cases "last es") auto
  moreover have "1 \<le> length (last es)" using plain_last(1) [OF assms] by (cases "last es") auto
  ultimately have "put_quotes (last es) = Inr ([dq] @ last es @ [dq])"
    by (simp add: put_quotes_def go_slice_def)
  then show ?thesis
    using split_colons [OF plain_last(4,3) [OF assms]]
    by (simp add: add_last_quotes_def change_last_def name_of_def quoted_name_def)
qed

lemma remove_quotes_name:
  assumes "plain_parts es"
  shows "remove_last_quotes (quoted_name es) = Inr (name_of es)"
proof -
  have "split_str (quoted_name es) colons = butlast es @ [[dq] @ last es @ [dq]]"
    unfolding quoted_name_def
    using plain_last(2,3) [OF assms] by (intro split_colons) (auto dest: in_set_butlastD)
  moreover have "strip_quotes ([dq] @ last es @ [dq]) = Inr (last es)"
    by (simp add: strip_quotes_def go_slice_def)
  moreover have "butlast es @ [last es] = es" using plain_last(4) [OF assms] by simp
  ultimately show ?thesis by (simp add: remove_last_quotes_def change_last_def name_of_def)
qed

lemma quoted_name_long:
  assumes "plain_parts es" and "2 \<le> length es"
  shows "contains_str (quoted_name es) colons" and "quoted_name es \<noteq> []"
proof -
  obtain e es' where es: "es = e # es'" "es' \<noteq> []" using assms(2) by (cases es) (auto simp: Suc_le_eq)
  have "quoted_name es = e @ colons @ join_str (butlast es' @ [[dq] @ last es' @ [dq]]) colons"
    using es by (cases "butlast es' @ [[dq] @ last es' @ [dq]]") (auto simp: quoted_name_def)
  moreover have "CHR '':'' \<notin> set e" using plain_last(3) [OF assms(1)] es by simp
  ultimately show "contains_str (quoted_name es) colons" and "quoted_name es \<noteq> []"
    by (simp_all add: contains_str_def index_colons colons_def [symmetric])
      (simp add: colons_def)
qed

lemma lower_cedar: "to_lower (''cedar:'' @ x) = ''cedar:'' @ to_lower x"
  by (simp add: to_lower_def lower_char_def)

lemma without_cedar [simp]: "without_cedar (''cedar:'' @ x) = x"
  using lower_cedar [of x] by (simp add: without_cedar_def has_prefix_def)

lemma action_roundtrip:
  assumes "plain_parts es" and "2 \<le> length es"
  shows "map_action_uri (''cedar:'' @ name_of es) = Inr (quoted_name es)"
    and "map_action_item (quoted_name es) = Inr (''cedar:'' @ name_of es)"
  using add_quotes_name [OF assms(1)] remove_quotes_name [OF assms(1)] quoted_name_long [OF assms]
    without_cedar [of "name_of es"]
  by (simp_all add: map_action_uri_def map_action_item_def)

section \<open>There and back\<close>

text \<open>A member with a type and an identifier, which may have parts.\<close>

definition member_name :: "string \<times> string list \<Rightarrow> string" where
  "member_name = (\<lambda>(ty, es). ty @ '':'' @ name_of es)"

definition plain_member :: "string \<times> string list \<Rightarrow> bool" where
  "plain_member = (\<lambda>(ty, es). CHR '':'' \<notin> set ty \<and> 3 \<le> length ty \<and> plain_parts es)"

lemma name_of_head:
  assumes "plain_parts es"
  shows "\<exists>c cs. name_of es = c # cs \<and> c \<noteq> CHR '':''"
proof -
  obtain e es' where es: "es = e # es'" using plain_last(4) [OF assms] by (cases es) auto
  with assms obtain c e' where "e = c # e'" "c \<noteq> CHR '':''" by (cases e) (auto simp: plain_parts_def)
  with es show ?thesis by (cases es') (auto simp: name_of_def)
qed

lemma member_roundtrip:
  assumes "plain_member m"
  shows "\<exists>p. map_member_to_principal (member_name m) = Inr p \<and> map_principal_to_member p = Inr (member_name m)"
proof -
  obtain ty es where m: "m = (ty, es)" by (cases m)
  have ty: "CHR '':'' \<notin> set ty" and es: "plain_parts es" using assms by (auto simp: m plain_member_def)
  obtain c cs where n: "name_of es = c # cs" "c \<noteq> CHR '':''" using name_of_head [OF es] by auto
  have "index_str (member_name m) '':'' = Some (length ty)"
    using index_char [OF ty] by (simp add: m member_name_def)
  then have "split_n2 (member_name m) '':'' = [ty, name_of es]"
    by (simp add: split_n2_def m member_name_def)
  moreover have "\<not> has_prefix (name_of es) '':''" using n by (simp add: has_prefix_def)
  ultimately have to: "map_member_to_principal (member_name m) = Inr (ty @ colons @ quoted_name es)"
    using add_quotes_name [OF es] by (simp add: map_member_to_principal_def)
  have "split_n2 (ty @ colons @ quoted_name es) colons = [ty, quoted_name es]"
    using index_colons [OF ty] by (simp add: split_n2_def)
  then have "map_principal_to_member (ty @ colons @ quoted_name es) = Inr (member_name m)"
    using remove_quotes_name [OF es] by (simp add: map_principal_to_member_def m member_name_def)
  with to show ?thesis by blast
qed

lemma plain_member_principal:
  assumes "plain_member m"
  shows "\<exists>e. principal_of (member_name m) = Inr (Some e, []) \<and> map_principal_to_member (ee_entity e) = Inr (member_name m)"
proof -
  obtain p where p: "map_member_to_principal (member_name m) = Inr p" "map_principal_to_member p = Inr (member_name m)"
    using member_roundtrip [OF assms] by blast
  have colon: "CHR '':'' \<in> set (member_name m)" by (cases m) (simp add: member_name_def)
  then have "member_name m \<notin> {''any'', [], ''anyAuthenticated'', ''jwt'', ''saml'', ''basic''}" by auto
  moreover have "4 \<le> length (to_lower (member_name m))"
    using assms by (cases m) (auto simp: member_name_def plain_member_def to_lower_def)
  ultimately show ?thesis using p by (auto simp: principal_of_def go_slice_def)
qed

lemma actions_roundtrip:
  assumes "list_all (\<lambda>es. plain_parts es \<and> 2 \<le> length es) as"
  shows "\<exists>ae. map_actions (map (\<lambda>es. ''cedar:'' @ name_of es) as) = Inr ae \<and>
    head_actions \<lparr>head_principal = pr, head_action = ae, head_resource = re\<rparr> = Inr (map (\<lambda>es. ''cedar:'' @ name_of es) as)"
proof -
  have all: "mapM map_action_uri (map (\<lambda>es. ''cedar:'' @ name_of es) as) = Inr (map quoted_name as)"
    "mapM map_action_item (map quoted_name as) = Inr (map (\<lambda>es. ''cedar:'' @ name_of es) as)"
    using assms by (induction as) (simp_all add: action_roundtrip [simplified])
  show ?thesis
  proof (cases as)
    case (Cons a as')
    with assms have a: "plain_parts a" "2 \<le> length a" by auto
    show ?thesis
    proof (cases as')
      case Nil
      with Cons a action_roundtrip [OF a] quoted_name_long [OF a] show ?thesis
        by (simp add: map_actions_def head_actions_def)
    next
      case (Cons b bs)
      with \<open>as = a # as'\<close> all show ?thesis by (simp add: map_actions_def head_actions_def)
    qed
  qed (simp add: map_actions_def head_actions_def)
qed

lemma object_roundtrip:
  assumes "plain_parts os"
  shows "\<exists>r. map_object_to_resource (''cedar:'' @ name_of os) = Inr (Some r) \<and> map_resource_to_object r = Inr (''cedar:'' @ name_of os)"
  using add_quotes_name [OF assms] remove_quotes_name [OF assms] without_cedar [of "name_of os"]
  by (simp add: map_object_to_resource_def map_resource_to_object_def)


definition photo_policy :: policy_info where
  "photo_policy =
     \<lparr>meta = version_meta, subjects = Some [''User:alice'', ''Group:staff''],
      actions = Some [''cedar:Action::view'', ''cedar:Action::edit''], object_info = ''cedar:Photo::vacation.jpg'',
      condition = None, scope = None\<rparr>"


section \<open>What is lost\<close>

text \<open>A policy that forbids is read as one that permits.\<close>

lemma aws_effect_ignored: "map_aws_policy cp nm (c\<lparr>aws_kind := k\<rparr>) = map_aws_policy cp nm c"
  by (simp add: map_aws_policy_def)

text \<open>No four bytes are one of the words of five, so that every principal is compared for equality.\<close>

lemma principal_always_equal: "principal_of m = Inr (Some e, cs) \<Longrightarrow> ee_operator e = ''==''"
proof -
  have "take 4 x \<noteq> ''group''" "take 4 x \<noteq> ''domai''" for x :: string
    by (auto dest: arg_cong [where f = length])
  then show "principal_of m = Inr (Some e, cs) \<Longrightarrow> ee_operator e = ''==''"
    by (auto simp: principal_of_def rbind_Inr_iff go_slice_def split: if_split_asm)
qed

text \<open>A name of fewer than four bytes panics, and so does one that ends with colons.\<close>

lemma short_member_panics: "\<exists>e. principal_of ''bob'' = Inl (Panic e)"
  by (simp add: principal_of_def map_member_to_principal_def split_n2_def index_str_char go_slice_def to_lower_def)

lemma empty_name_panics: "\<exists>e. add_last_quotes ''Photo::'' = Inl (Panic e)"
proof -
  have "split_str ''Photo::'' colons = [''Photo'', []]" by code_simp
  then show ?thesis by (simp add: add_last_quotes_def change_last_def put_quotes_def go_slice_def)
qed

text \<open>An action without a type is quoted on the way to Cedar, and keeps its quotes on the way back.\<close>

lemma untyped_action_quoted:
  "map_action_uri ''read'' = Inr ([dq] @ ''read'' @ [dq])" "map_action_item ([dq] @ ''read'' @ [dq]) = Inr ([dq] @ ''read'' @ [dq])"
  by code_simp+

text \<open>Several clauses are joined with the operator of CEL, which IDQL does not have.\<close>

lemma merged_with_cel_operator:
  "merge_rules [''a eq 1'', ''b eq 2''] = Some \<lparr>rule = ''(a eq 1) && (b eq 2)'', action = ''permit''\<rparr>"
  by (simp add: merge_rules_def has_prefix_def)

text \<open>Whatever becomes of an input of a known kind, no error is returned.\<close>

lemma input_errors_lost:
  assumes "map_to_hexa_policy read parse cp nm is = Inr (ps, Some e)"
  shows "\<exists>t. OtherInput t \<in> set is"
  using assms
proof (induction "is" arbitrary: ps e)
  case (Cons i "is")
  then show ?case
    by (cases i) (auto simp: rbind_Inr_iff split: sum.split_asm fault.split_asm option.split_asm)
qed simp

text \<open>An inequality is taken apart, and the words of Cedar's other operators lose their blanks.\<close>

lemma inequality_taken_apart: "condition_tokens True [''{'', ''a'', ''!'', ''='', ''b'', ''}'', '';''] = (''a! = b'', ['';''])"
  and word_operators_joined: "condition_tokens True [''{'', ''a'', ''has'', ''b'', ''}'', '';''] = (''ahasb'', ['';''])"
  and equality_kept: "condition_tokens True [''{'', ''a'', ''='', ''='', ''b'', ''}'', '';''] = (''a == b'', ['';''])"
  by code_simp+

end
