(* ===== verification/Cedar_Json.thy ===== *)
theory Cedar_Json
  imports Cedar_Mapper
begin

text \<open>
  The JSON form of Cedar policies, \<^verbatim>\<open>models/formats/cedar/json/json_marshal.go\<close>: from the syntax trees of
  \<^verbatim>\<open>cedar-go\<close> to the structures of \<open>json.go\<close>, and what decoding their JSON keeps.

  The constructors of a tree are the cases of the type switches; a value comes with the text its \<open>String\<close> method
  prints.  A structure \<open>NodeJSON\<close> made from a tree has exactly one of its fields.
\<close>

section \<open>Syntax trees\<close>

datatype ast_value = ADecimal string | AIPAddr string | APlain cedar_value

datatype ast_node =
    AValue ast_value
  | AVariable string
  | ANot ast_node
  | ANegate ast_node
  | ABinary binary_kind ast_node ast_node
  | AAccess ast_node string
  | AHas ast_node string
  | AIs ast_node string
  | AIsIn ast_node string ast_node
  | ALike ast_node string
  | AIfThenElse ast_node ast_node ast_node
  | ASet "ast_node list"
  | ARecord "(string \<times> ast_node) list"
  | AExtensionCall string "ast_node list"

datatype ast_scope =
    ScopeAll
  | ScopeEq uid
  | ScopeIn uid
  | ScopeInSet "uid list"
  | ScopeIs string
  | ScopeIsIn string uid

record ast_condition =
  is_unless :: bool
  condition_body :: ast_node

record ast_policy =
  is_permit :: bool
  ast_annotations :: "(string \<times> string) list"
  ast_principal :: ast_scope
  ast_action :: ast_scope
  ast_resource :: ast_scope
  ast_conditions :: "ast_condition list"

section \<open>JSON structures\<close>

datatype node_json =
    JValue cedar_value
  | JVar string
  | JNot node_json
  | JNegate node_json
  | JBinary binary_kind node_json node_json
  | JAccess node_json string
  | JHas node_json string
  | JIs node_json string "node_json option"
  | JLike node_json string
  | JIfThenElse node_json node_json node_json
  | JSet "node_json list"
  | JRecord "(string \<times> node_json) list"
  | JExtensionCall "(string \<times> node_json list) list"

text \<open>A map keeps the last of the values given for a key.\<close>

definition record_map :: "(string \<times> 'a) list \<Rightarrow> 'a go_map" where
  "record_map es = fold (\<lambda>(k, v) m. AList.update k v m) es []"

definition from_scope :: "ast_scope \<Rightarrow> scope_json" where
  "from_scope s =
     (let empty = \<lparr>scope_op = [], scope_entity = None, scope_entities = [], scope_entity_type = [], scope_in = None\<rparr> in
      case s of
        ScopeAll \<Rightarrow> empty\<lparr>scope_op := ''All''\<rparr>
      | ScopeEq e \<Rightarrow> empty\<lparr>scope_op := ''=='', scope_entity := Some e\<rparr>
      | ScopeIn e \<Rightarrow> empty\<lparr>scope_op := ''in'', scope_entity := Some e\<rparr>
      | ScopeInSet es \<Rightarrow> empty\<lparr>scope_op := ''in'', scope_entities := es\<rparr>
      | ScopeIs t \<Rightarrow> empty\<lparr>scope_op := ''is'', scope_entity_type := t\<rparr>
      | ScopeIsIn t e \<Rightarrow> empty\<lparr>scope_op := ''is'', scope_entity_type := t, scope_in := Some e\<rparr>)"

text \<open>A decimal or an address becomes the call of its constructor with its text.\<close>

fun value_to_json :: "ast_value \<Rightarrow> node_json" where
  "value_to_json (ADecimal s) = JExtensionCall [(''decimal'', [JValue (CedarString s)])]"
| "value_to_json (AIPAddr s) = JExtensionCall [(''ip'', [JValue (CedarString s)])]"
| "value_to_json (APlain v) = JValue v"

primrec from_node :: "ast_node \<Rightarrow> node_json" where
  "from_node (AValue v) = value_to_json v"
| "from_node (AVariable n) = JVar n"
| "from_node (ANot a) = JNot (from_node a)"
| "from_node (ANegate a) = JNegate (from_node a)"
| "from_node (ABinary k l r) = JBinary k (from_node l) (from_node r)"
| "from_node (AAccess a s) = JAccess (from_node a) s"
| "from_node (AHas a s) = JHas (from_node a) s"
| "from_node (AIs l t) = JIs (from_node l) t None"
| "from_node (AIsIn l t e) = JIs (from_node l) t (Some (from_node e))"
| "from_node (ALike a p) = JLike (from_node a) p"
| "from_node (AIfThenElse i t e) = JIfThenElse (from_node i) (from_node t) (from_node e)"
| "from_node (ASet es) = JSet (map from_node es)"
| "from_node (ARecord es) = JRecord (record_map (map (map_prod id from_node) es))"
| "from_node (AExtensionCall n as) = JExtensionCall [(n, map from_node as)]"

record json_condition =
  json_kind :: string
  json_body :: node_json

record json_policy =
  json_annotations :: "string go_map"
  json_effect :: string
  json_principal :: scope_json
  json_action :: scope_json
  json_resource :: scope_json
  json_conditions :: "json_condition list"

definition marshal_policy :: "ast_policy \<Rightarrow> json_policy" where
  "marshal_policy p =
     \<lparr>json_annotations = record_map (ast_annotations p),
      json_effect = (if is_permit p then ''permit'' else ''forbid''),
      json_principal = from_scope (ast_principal p),
      json_action = from_scope (ast_action p),
      json_resource = from_scope (ast_resource p),
      json_conditions =
        map (\<lambda>c. \<lparr>json_kind = (if is_unless c then ''unless'' else ''when''), json_body = from_node (condition_body c)\<rparr>)
          (ast_conditions p)\<rparr>"

section \<open>Decoding\<close>

text \<open>
  The fields the decoder of \<open>NodeJSON\<close> looks for.  An empty set and an empty record are omitted by the tags; an
  extension call is no field, unless it is one of the four comparisons.  What has no field left is like a call.
\<close>

definition func_field :: "string \<Rightarrow> func_kind option" where
  "func_field n =
     map_of [(''lessThan'', FLess), (''lessThanOrEqual'', FLessEq), (''greaterThan'', FGreater), (''greaterThanOrEqual'', FGreaterEq)] n"

fun decoded_node :: "node_json \<Rightarrow> cedar_node" where
  "decoded_node (JValue v) = NValue v"
| "decoded_node (JVar n) = NVar n"
| "decoded_node (JNot a) = NNot (decoded_node a)"
| "decoded_node (JNegate a) = NNegate (decoded_node a)"
| "decoded_node (JBinary k l r) = NBinary k (decoded_node l) (decoded_node r)"
| "decoded_node (JAccess a s) = NAccess (decoded_node a) s"
| "decoded_node (JHas a s) = NHas (decoded_node a) s"
| "decoded_node (JIs l t e) = NIs (decoded_node l) t (map_option decoded_node e)"
| "decoded_node (JLike a p) = NLike (decoded_node a) p"
| "decoded_node (JIfThenElse i t e) = NIfThenElse (decoded_node i) (decoded_node t) (decoded_node e)"
| "decoded_node (JSet es) = (if es = [] then NExtensionCall else NSet (map decoded_node es))"
| "decoded_node (JRecord es) = (if es = [] then NExtensionCall else NRecord)"
| "decoded_node (JExtensionCall [(n, as)]) =
     (case func_field n of Some k \<Rightarrow> if as = [] then NExtensionCall else NFunc k (map decoded_node as) | None \<Rightarrow> NExtensionCall)"
| "decoded_node (JExtensionCall m) = NExtensionCall"

definition decoded_policy :: "json_policy \<Rightarrow> policy_json" where
  "decoded_policy p =
     \<lparr>annotations = json_annotations p, effect = json_effect p, principal_scope = json_principal p,
      action_scope = json_action p, resource_scope = json_resource p,
      cedar_conditions =
        (if json_conditions p = [] then None
         else Some (map (\<lambda>c. \<lparr>clause_kind = json_kind c, clause_body = decoded_node (json_body c)\<rparr>) (json_conditions p)))\<rparr>"

definition from_cedar_ast :: "ast_policy \<Rightarrow> policy_info res" where
  "from_cedar_ast p = map_cedar_policy (decoded_policy (marshal_policy p))"

section \<open>Lemmas\<close>

text \<open>A scope made from a tree has the entity its operator needs: mapping it neither fails nor panics.\<close>

lemma ast_scope_maps: "\<exists>vs. map_cedar_scope verb (from_scope s) = Inr vs"
  by (cases s) (auto simp: from_scope_def map_cedar_scope_def go_deref_def Let_def split: option.split)

lemma ast_scope_error [simp]: "map_cedar_scope verb (from_scope s) \<noteq> Inl e"
  using ast_scope_maps [of verb s] by auto

text \<open>So the only source of an error is a condition.\<close>

lemma from_cedar_ast_unconditional:
  assumes "ast_conditions p = []"
  shows "\<exists>q. from_cedar_ast p = Inr q \<and> condition q = None"
proof -
  obtain ss where ss: "map_cedar_scope ''principal'' (from_scope (ast_principal p)) = Inr ss" using ast_scope_maps by blast
  obtain as where as: "map_cedar_scope ''action'' (from_scope (ast_action p)) = Inr as" using ast_scope_maps by blast
  obtain rs where rs: "map_cedar_scope ''resource'' (from_scope (ast_resource p)) = Inr rs" using ast_scope_maps by blast
  show ?thesis
    using assms ss as rs
    by (simp add: from_cedar_ast_def map_cedar_policy_def decoded_policy_def marshal_policy_def map_cedar_subject_def
        map_cedar_resource_def map_cedar_condition_def Let_def)
qed

text \<open>A comparison called as a method is kept; other calls and the values of extensions are lost with their contents.\<close>

lemma extension_values_lost:
  "decoded_node (from_node (AValue (ADecimal d))) = NExtensionCall" "decoded_node (from_node (AValue (AIPAddr a))) = NExtensionCall"
  by (simp_all add: func_field_def)

lemma method_comparison_kept:
  "decoded_node (from_node (AExtensionCall ''lessThan'' [AVariable x, AVariable y])) = NFunc FLess [NVar x, NVar y]"
  by (simp add: func_field_def)

lemma empty_set_lost: "decoded_node (from_node (ASet [])) = NExtensionCall"
  by simp

text \<open>The binary operators, access and sets keep their operands.\<close>

lemma binary_kept: "decoded_node (from_node (ABinary k a b)) = NBinary k (decoded_node (from_node a)) (decoded_node (from_node b))"
  by simp

lemma set_kept: "es \<noteq> [] \<Longrightarrow> decoded_node (from_node (ASet es)) = NSet (map (\<lambda>e. decoded_node (from_node e)) es)"
  by simp

end
