(* ===== verification/Work_Scheduler.thy ===== *)
theory Work_Scheduler
  imports Go_Prelude "HOL-Library.Multiset"
begin

text \<open>
  The scheduler of \<^verbatim>\<open>pkg/workflowsupport/workflow_support.go\<close>: loops of workers that wait for a tick of a shared
  ticker or for the channel \<open>done\<close>, and the goroutines of the tasks they find, as a step relation.

  The finder and the workers are the program's callers: what \<open>FindRequested\<close> returns is any list, and \<open>run\<close> is the
  error, if any, of a worker with a task.
\<close>

section \<open>The scheduler\<close>

text \<open>
  The channel of the ticker holds one tick at most, and later ticks are dropped while it is full.  \<open>stopping\<close> holds
  while a call of \<open>Stop\<close> waits for a loop to receive; \<open>stops\<close> counts the calls that have returned.
\<close>

record 't scheduler =
  active :: "nat list"
  tick_ready :: bool
  found :: "(nat \<times> 't) list"
  started :: "(nat \<times> 't) list"
  completed :: "(nat \<times> 't) list"
  erroneous :: "(nat \<times> 't) list"
  stopping :: bool
  stops :: nat

text \<open>One loop for each worker.  A ticker needs a positive delay.\<close>

definition start_scheduler :: "int \<Rightarrow> nat \<Rightarrow> 't scheduler res" where
  "start_scheduler delay n =
     (if delay \<le> 0 then Inl (Panic ''non-positive interval for NewTicker'')
      else Inr \<lparr>active = [0..<n], tick_ready = False, found = [], started = [], completed = [], erroneous = [],
                stopping = False, stops = 0\<rparr>)"

definition check_for_work :: "nat \<Rightarrow> 't list \<Rightarrow> 't scheduler \<Rightarrow> 't scheduler" where
  "check_for_work i ts s =
     s\<lparr>found := found s @ map (Pair i) ts, started := started s @ map (Pair i) ts\<rparr>"

definition finish_task :: "(nat \<Rightarrow> 't \<Rightarrow> string option) \<Rightarrow> nat \<Rightarrow> 't \<Rightarrow> 't scheduler \<Rightarrow> 't scheduler" where
  "finish_task run i t s =
     (case run i t of
        None \<Rightarrow> s\<lparr>started := remove1 (i, t) (started s), completed := (i, t) # completed s\<rparr>
      | Some _ \<Rightarrow> s\<lparr>started := remove1 (i, t) (started s), erroneous := (i, t) # erroneous s\<rparr>)"

inductive scheduler_step :: "(nat \<Rightarrow> 't \<Rightarrow> string option) \<Rightarrow> 't scheduler \<Rightarrow> 't scheduler \<Rightarrow> bool"
  for run :: "nat \<Rightarrow> 't \<Rightarrow> string option" where
  tick: "scheduler_step run s (s\<lparr>tick_ready := True\<rparr>)"
| poll: "i \<in> set (active s) \<Longrightarrow> tick_ready s \<Longrightarrow>
    scheduler_step run s (check_for_work i ts (s\<lparr>tick_ready := False\<rparr>))"
| finish: "(i, t) \<in> set (started s) \<Longrightarrow> scheduler_step run s (finish_task run i t s)"
| call_stop: "\<not> stopping s \<Longrightarrow> scheduler_step run s (s\<lparr>stopping := True\<rparr>)"
| leave: "i \<in> set (active s) \<Longrightarrow> stopping s \<Longrightarrow>
    scheduler_step run s (s\<lparr>active := remove1 i (active s), stopping := False, stops := Suc (stops s)\<rparr>)"

inductive_cases scheduler_stepE: "scheduler_step run s t"

definition scheduler_reaches :: "(nat \<Rightarrow> 't \<Rightarrow> string option) \<Rightarrow> 't scheduler \<Rightarrow> 't scheduler \<Rightarrow> bool" where
  "scheduler_reaches run = (scheduler_step run)\<^sup>*\<^sup>*"

section \<open>Invariants\<close>

text \<open>Every task found is running, completed or erroneous, once; and every loop runs or was stopped by a call of its own.\<close>

definition work_accounted :: "(nat \<Rightarrow> 't \<Rightarrow> string option) \<Rightarrow> 't scheduler \<Rightarrow> bool" where
  "work_accounted run s \<longleftrightarrow>
     mset (found s) = mset (started s) + mset (completed s) + mset (erroneous s) \<and>
     list_all (\<lambda>(i, t). run i t = None) (completed s) \<and> list_all (\<lambda>(i, t). run i t \<noteq> None) (erroneous s)"

definition loops_accounted :: "nat \<Rightarrow> 't scheduler \<Rightarrow> bool" where
  "loops_accounted n s \<longleftrightarrow> distinct (active s) \<and> set (active s) \<subseteq> {..<n} \<and> length (active s) + stops s = n"

lemma step_keeps_work:
  assumes "scheduler_step run s t" and "work_accounted run s"
  shows "work_accounted run t"
  using assms(1)
proof (cases rule: scheduler_step.cases)
  case (finish i x)
  then obtain M where "mset (started s) = add_mset (i, x) M" by (metis multi_member_split set_mset_mset)
  with finish assms(2) show ?thesis by (auto simp: work_accounted_def finish_task_def split: option.split)
qed (use assms(2) in \<open>auto simp: work_accounted_def check_for_work_def\<close>)

lemma step_keeps_loops:
  assumes "scheduler_step run s t" and "loops_accounted n s"
  shows "loops_accounted n t"
  using assms(1)
proof (cases rule: scheduler_step.cases)
  case (leave i)
  then have "0 < length (active s)" by (cases "active s") auto
  with leave assms(2) show ?thesis by (auto simp: loops_accounted_def length_remove1 dest: notin_set_remove1)
qed (use assms(2) in \<open>auto simp: loops_accounted_def check_for_work_def finish_task_def split: option.split\<close>)

lemma reaches_invariant:
  assumes "scheduler_reaches run s t" and "P s" and "\<And>u v. scheduler_step run u v \<Longrightarrow> P u \<Longrightarrow> P v"
  shows "P t"
  using assms(1) unfolding scheduler_reaches_def by (induction rule: rtranclp_induct) (use assms(2,3) in auto)

lemma started_accounted:
  assumes "start_scheduler delay n = Inr s"
  shows "work_accounted run s" and "loops_accounted n s"
  using assms by (auto simp: start_scheduler_def work_accounted_def loops_accounted_def split: if_splits)

text \<open>The running tasks can finish.\<close>

lemma tasks_can_finish:
  "\<exists>t. scheduler_reaches run s t \<and> started t = [] \<and> found t = found s \<and> active t = active s"
proof (induction "length (started s)" arbitrary: s)
  case 0
  then show ?case by (intro exI [of _ s]) (simp add: scheduler_reaches_def)
next
  case (Suc n)
  then obtain i x xs where x: "started s = (i, x) # xs" by (cases "started s") auto
  let ?u = "finish_task run i x s"
  have step: "scheduler_step run s ?u" by (rule scheduler_step.finish) (simp add: x)
  have u: "started ?u = xs" "found ?u = found s" "active ?u = active s"
    by (simp_all add: finish_task_def x split: option.split)
  then have "n = length (started ?u)" using Suc.hyps(2) x by simp
  from Suc.hyps(1) [OF this] obtain t where "scheduler_reaches run ?u t" "started t = []" "found t = found s" "active t = active s"
    unfolding u by blast
  with step show ?case unfolding scheduler_reaches_def by (meson converse_rtranclp_into_rtranclp)
qed

section \<open>Properties\<close>

text \<open>Property C25.  However the ticks, polls, tasks and stops of a scheduler interleave, every task found is running, completed
  or erroneous, exactly once and as its worker says; and the running ones can finish.\<close>

theorem scheduler_accounts_for_work:
  assumes "start_scheduler delay n = Inr s" and "scheduler_reaches run s t"
  shows "mset (found t) = mset (started t) + mset (completed t) + mset (erroneous t) \<and>
    list_all (\<lambda>(i, x). run i x = None) (completed t) \<and> list_all (\<lambda>(i, x). run i x \<noteq> None) (erroneous t) \<and>
    (\<exists>u. scheduler_reaches run t u \<and> mset (found t) = mset (completed u) + mset (erroneous u))"
proof -
  have keeps: "work_accounted run v" if "work_accounted run u" "scheduler_reaches run u v" for u v
    using that(2,1) by (rule reaches_invariant) (rule step_keeps_work)
  have t: "work_accounted run t" by (rule keeps [OF started_accounted(1) [OF assms(1)] assms(2)])
  obtain u where u: "scheduler_reaches run t u" "started u = []" "found u = found t"
    using tasks_can_finish by blast
  from keeps [OF t u(1)] u have "mset (found t) = mset (completed u) + mset (erroneous u)"
    by (simp add: work_accounted_def)
  with t u(1) show ?thesis by (auto simp: work_accounted_def)
qed

definition two_tasks :: "nat scheduler" where
  "two_tasks = \<lparr>active = [0, 1], tick_ready = False, found = [(1, 5), (1, 6)], started = [(1, 5)], completed = [],
     erroneous = [(1, 6)], stopping = True, stops = 0\<rparr>"

text \<open>Two workers, the second of which finds two tasks and has failed with one of them, while \<open>Stop\<close> waits.\<close>

theorem scheduler_accounts_for_work_witness:
  "let run = (\<lambda>i t. if t = 6 then Some ''failed'' else None) in
   mset (found two_tasks) = mset (started two_tasks) + mset (completed two_tasks) + mset (erroneous two_tasks) \<and>
    list_all (\<lambda>(i, x). run i x = None) (completed two_tasks) \<and> list_all (\<lambda>(i, x). run i x \<noteq> None) (erroneous two_tasks) \<and>
    (\<exists>u. scheduler_reaches run two_tasks u \<and> mset (found two_tasks) = mset (completed u) + mset (erroneous u))"
proof -
  let ?run = "\<lambda>i t. if t = (6 :: nat) then Some ''failed'' else None"
  obtain s :: "nat scheduler" where s: "start_scheduler 100 2 = Inr s" by (auto simp: start_scheduler_def)
  let ?a = "s\<lparr>tick_ready := True\<rparr>" and ?b = "check_for_work 1 [5, 6] (s\<lparr>tick_ready := False\<rparr>)"
  have "scheduler_step ?run s ?a" by (rule scheduler_step.tick)
  moreover have "scheduler_step ?run ?a ?b"
    using scheduler_step.poll [of 1 ?a ?run "[5, 6]"] s by (auto simp: start_scheduler_def check_for_work_def)
  moreover have "scheduler_step ?run ?b (finish_task ?run 1 6 ?b)"
    by (rule scheduler_step.finish) (simp add: check_for_work_def)
  moreover have "scheduler_step ?run (finish_task ?run 1 6 ?b) two_tasks"
    using scheduler_step.call_stop [of "finish_task ?run 1 6 ?b" ?run] s
    by (auto simp: start_scheduler_def check_for_work_def finish_task_def two_tasks_def upt_rec)
  ultimately have "scheduler_reaches ?run s two_tasks"
    unfolding scheduler_reaches_def by (meson converse_rtranclp_into_rtranclp rtranclp.rtrancl_refl)
  then show ?thesis unfolding Let_def by (rule scheduler_accounts_for_work [OF s])
qed

text \<open>A call of \<open>Stop\<close> ends one loop: with several workers the others go on polling, and without a worker it never returns.\<close>

lemma stop_ends_one_loop:
  assumes "start_scheduler delay n = Inr s" and "scheduler_reaches run s t"
  shows "length (active t) + stops t = n"
proof -
  have "loops_accounted n t"
    using reaches_invariant [OF assms(2), where P = "loops_accounted n"] started_accounted(2) [OF assms(1)] step_keeps_loops
    by blast
  then show ?thesis by (simp add: loops_accounted_def)
qed

lemma others_still_poll:
  assumes "start_scheduler delay n = Inr s" and "scheduler_reaches run s t" and "stops t < n"
  shows "\<exists>i u. i < n \<and> scheduler_reaches run t u \<and> found u = found t @ map (Pair i) ts"
proof -
  have "loops_accounted n t"
    using reaches_invariant [OF assms(2), where P = "loops_accounted n"] started_accounted(2) [OF assms(1)] step_keeps_loops
    by blast
  with assms(3) obtain i where i: "i \<in> set (active t)" "i < n"
    by (cases "active t") (auto simp: loops_accounted_def)
  let ?t = "t\<lparr>tick_ready := True\<rparr>"
  have "scheduler_step run t ?t" by (rule scheduler_step.tick)
  moreover have "scheduler_step run ?t (check_for_work i ts (?t\<lparr>tick_ready := False\<rparr>))"
    by (rule scheduler_step.poll) (simp_all add: i)
  ultimately have "scheduler_reaches run t (check_for_work i ts (?t\<lparr>tick_ready := False\<rparr>))"
    unfolding scheduler_reaches_def by (meson converse_rtranclp_into_rtranclp rtranclp.rtrancl_refl)
  with i show ?thesis by (intro exI [of _ i] exI [of _ "check_for_work i ts (?t\<lparr>tick_ready := False\<rparr>)"]) (simp add: check_for_work_def)
qed

lemma no_worker_no_return:
  assumes "start_scheduler delay 0 = Inr s" and "scheduler_reaches run s t"
  shows "stops t = 0"
  using stop_ends_one_loop [OF assms] by simp

end
