(* ===== verification/Opa_Bundle.thy ===== *)
theory Opa_Bundle
  imports Go_Json "HOL-Library.Word"
begin

text \<open>
  What the provider for Open Policy Agent is built from: random names
  (\<^verbatim>\<open>providers/openpolicyagent/alias.go\<close>), archives of files
  (\<^verbatim>\<open>compressionsupport/compress.go\<close>) and the bundle that is made of the policies
  (\<^verbatim>\<open>MakeHexaBundle\<close> in \<^verbatim>\<open>opa_provider.go\<close>).

  The formats tar and gzip are parameters.  A path below a directory is the list of its components, and
  the files of a directory are a map from such paths; a random source is a function from the number of
  a draw to 63 random bits.
\<close>

unbundle bit_operations_syntax

section \<open>Names of random letters\<close>

definition letter_bytes :: string where
  "letter_bytes = ''abcdefghijklmnopqrstuvwxyzABCDEFGHIJKLMNOPQRSTUVWXYZ''"

definition letter_index :: "64 word \<Rightarrow> nat" where
  "letter_index cache = unat (cache AND 63)"

text \<open>
  The loop: the next draw, the bits in hand, how many indices are left in them and how many letters are
  still to come.  An index beyond the letters is thrown away, so the loop ends only if the draws let it.
\<close>

partial_function (option) alias_loop ::
  "(nat \<Rightarrow> 64 word) \<Rightarrow> nat \<Rightarrow> 64 word \<Rightarrow> nat \<Rightarrow> nat \<Rightarrow> string \<Rightarrow> string option" where
  "alias_loop src k cache remain left acc =
     (if left = 0 then Some acc
      else if remain = 0 then
        (if letter_index (src k) < length letter_bytes
         then alias_loop src (Suc k) (drop_bit 6 (src k)) 9 (left - 1) (acc @ [letter_bytes ! letter_index (src k)])
         else alias_loop src (Suc k) (drop_bit 6 (src k)) 9 left acc)
      else if letter_index cache < length letter_bytes
        then alias_loop src k (drop_bit 6 cache) (remain - 1) (left - 1) (acc @ [letter_bytes ! letter_index cache])
        else alias_loop src k (drop_bit 6 cache) (remain - 1) left acc)"

definition generate_alias :: "(nat \<Rightarrow> 64 word) \<Rightarrow> nat \<Rightarrow> string option" where
  "generate_alias src n = alias_loop src 1 (src 0) 10 n []"

section \<open>Archives\<close>

type_synonym path = "string list"

datatype entry_type = RegularEntry | DirectoryEntry | OtherEntry

record tar_entry =
  entry_name :: string
  entry_type :: entry_type
  entry_data :: string

record archive_formats =
  tar_write :: "tar_entry list \<Rightarrow> string"
  tar_read :: "string \<Rightarrow> tar_entry list res"
  gzip :: "string \<Rightarrow> string"
  ungzip :: "string \<Rightarrow> string res"

text \<open>The directories and the files below the target of an extraction.\<close>

record file_tree =
  directories :: "path list"
  file_contents :: "(path \<times> string) list"

definition empty_tree :: file_tree where
  "empty_tree = \<lparr>directories = [[]], file_contents = []\<rparr>"

text \<open>\<open>filepath.Join\<close> of the target and a name without \<open>..\<close>: its components.\<close>

definition path_components :: "string \<Rightarrow> path" where
  "path_components name = filter (\<lambda>c. c \<noteq> [] \<and> c \<noteq> ''.'') (split_str name ''/'')"

text \<open>\<open>MkdirAll\<close> makes the missing directories above a path as well; it fails where a file is in the way.\<close>

definition path_prefixes :: "path \<Rightarrow> path list" where
  "path_prefixes p = map (\<lambda>n. take n p) [0..<Suc (length p)]"

definition make_directories :: "path \<Rightarrow> file_tree \<Rightarrow> file_tree res" where
  "make_directories p t =
     (if \<exists>q \<in> set (path_prefixes p). q \<in> fst ` set (file_contents t) then Inl (Error ''not a directory'')
      else Inr (t\<lparr>directories := remdups (directories t @ path_prefixes p)\<rparr>))"

text \<open>An existing file is opened without truncation: what is longer than the new contents stays.\<close>

definition write_file :: "path \<Rightarrow> string \<Rightarrow> file_tree \<Rightarrow> file_tree res" where
  "write_file p d t =
     (if p \<in> set (directories t) then Inl (Error ''is a directory'')
      else if butlast p \<notin> set (directories t) then Inl (Error ''no such file or directory'')
      else
        (let old = (case map_of (file_contents t) p of None \<Rightarrow> [] | Some c \<Rightarrow> c)
         in Inr (t\<lparr>file_contents := AList.update p (d @ drop (length d) old) (file_contents t)\<rparr>)))"

definition extract_entry :: "file_tree \<Rightarrow> tar_entry \<Rightarrow> file_tree res" where
  "extract_entry t e =
     (if contains_str (entry_name e) ''..'' then Inl (Error ''zip slip fix'')
      else
        (let p = path_components (entry_name e) in
         case entry_type e of
           DirectoryEntry \<Rightarrow>
             if p \<in> set (directories t) \<or> p \<in> fst ` set (file_contents t) then Inr t else make_directories p t
         | RegularEntry \<Rightarrow> write_file p (entry_data e) t
         | OtherEntry \<Rightarrow> Inr t))"

definition untar_to_path :: "archive_formats \<Rightarrow> string \<Rightarrow> file_tree \<Rightarrow> file_tree res" where
  "untar_to_path fmt tar t = rbind (tar_read fmt tar) (foldM extract_entry t)"

text \<open>The entries of a directory tree in the order of \<open>filepath.Walk\<close>, by name.\<close>

datatype node = Leaf string | Folder "(string \<times> node) list"

fun walk :: "string \<Rightarrow> node \<Rightarrow> tar_entry list" where
  "walk name (Leaf d) = [\<lparr>entry_name = name, entry_type = RegularEntry, entry_data = d\<rparr>]"
| "walk name (Folder ns) =
     \<lparr>entry_name = name, entry_type = DirectoryEntry, entry_data = []\<rparr> #
     concat (map (\<lambda>(n, c). walk (if name = ''.'' then n else name @ ''/'' @ n) c) ns)"

definition tar_from_path :: "archive_formats \<Rightarrow> node \<Rightarrow> string" where
  "tar_from_path fmt n = tar_write fmt (walk ''.'' n)"

section \<open>Bundles\<close>

text \<open>The three files, in the order of their names; the rules and the manifest are embedded in the program.\<close>

definition bundle_tree :: "string \<Rightarrow> string \<Rightarrow> string \<Rightarrow> node" where
  "bundle_tree manifest rego data =
     Folder [(''bundle'', Folder [(''.manifest'', Leaf manifest), (''data.json'', Leaf data),
                                  (''hexaPolicy.rego'', Leaf rego)])]"

definition make_hexa_bundle :: "archive_formats \<Rightarrow> string \<Rightarrow> string \<Rightarrow> string \<Rightarrow> string" where
  "make_hexa_bundle fmt manifest rego data = gzip fmt (tar_from_path fmt (bundle_tree manifest rego data))"

definition read_data_file :: "file_tree \<Rightarrow> string res" where
  "read_data_file t =
     (case map_of (file_contents t) [''bundle'', ''data.json''] of
        None \<Rightarrow> Inl (Error ''no such file or directory'') | Some d \<Rightarrow> Inr d)"

text \<open>What every client does with the bundle it gets, into a fresh directory.\<close>

definition data_of_bundle :: "archive_formats \<Rightarrow> string \<Rightarrow> string res" where
  "data_of_bundle fmt bundle =
     rbind (ungzip fmt bundle) (\<lambda>tar.
     rbind (untar_to_path fmt tar empty_tree) read_data_file)"

section \<open>Lemmas on names\<close>

lemma letter_index_bound: "letter_index cache < 64"
proof -
  have "cache AND 63 \<le> 63" by (rule word_and_le1)
  then have "unat (cache AND 63) \<le> unat (63 :: 64 word)" by (simp add: word_le_nat_alt)
  then show ?thesis by (simp add: letter_index_def)
qed

lemma alias_loop_shape:
  assumes "alias_loop src k cache remain left acc = Some a"
  shows "length a = length acc + left \<and> set a \<subseteq> set acc \<union> set letter_bytes"
proof (rule alias_loop.raw_induct [where P = "\<lambda>src k cache remain left acc a.
    length a = length acc + left \<and> set a \<subseteq> set acc \<union> set letter_bytes", OF _ assms])
  fix f :: "(nat \<Rightarrow> 64 word) \<Rightarrow> nat \<Rightarrow> 64 word \<Rightarrow> nat \<Rightarrow> nat \<Rightarrow> string \<Rightarrow> string option"
  fix src k cache remain left acc a
  assume IH: "\<And>src k cache remain left acc a. f src k cache remain left acc = Some a \<Longrightarrow>
      length a = length acc + left \<and> set a \<subseteq> set acc \<union> set letter_bytes"
  have letter: "insert (letter_bytes ! i) (A \<union> set letter_bytes) = A \<union> set letter_bytes" if "i < length letter_bytes" for i A
    using that by (simp add: insert_absorb)
  assume "(if left = 0 then Some acc
      else if remain = 0 then
        (if letter_index (src k) < length letter_bytes
         then f src (Suc k) (drop_bit 6 (src k)) 9 (left - 1) (acc @ [letter_bytes ! letter_index (src k)])
         else f src (Suc k) (drop_bit 6 (src k)) 9 left acc)
      else if letter_index cache < length letter_bytes
        then f src k (drop_bit 6 cache) (remain - 1) (left - 1) (acc @ [letter_bytes ! letter_index cache])
        else f src k (drop_bit 6 cache) (remain - 1) left acc) = Some a"
  then show "length a = length acc + left \<and> set a \<subseteq> set acc \<union> set letter_bytes"
    by (auto split: if_splits dest!: IH simp: letter)
qed

text \<open>The bits have an index of a letter among the first ones.\<close>

definition usable :: "64 word \<Rightarrow> nat \<Rightarrow> bool" where
  "usable cache n \<longleftrightarrow> (\<exists>j < n. letter_index (drop_bit (6 * j) cache) < length letter_bytes)"

lemma usable_next: "usable cache n \<Longrightarrow> \<not> letter_index cache < length letter_bytes \<Longrightarrow> usable (drop_bit 6 cache) (n - 1)"
proof -
  assume "usable cache n" and no: "\<not> letter_index cache < length letter_bytes"
  then obtain j where j: "j < n" "letter_index (drop_bit (6 * j) cache) < length letter_bytes" by (auto simp: usable_def)
  with no obtain i where i: "j = Suc i" by (cases j) auto
  with j show ?thesis
    by (auto simp: usable_def intro!: exI [of _ i] simp del: drop_bit_drop_bit simp add: drop_bit_drop_bit ac_simps)
qed

text \<open>From any point with usable bits the next letter is found, and from there the rest.\<close>

lemma alias_next:
  assumes "usable cache n" and "n \<le> remain"
  shows "\<exists>k' cache' remain' acc'. alias_loop src k cache remain (Suc left) acc = alias_loop src k' cache' remain' left acc'"
  using assms
proof (induction n arbitrary: cache remain)
  case 0
  then show ?case by (simp add: usable_def)
next
  case (Suc n)
  show ?case
  proof (cases "letter_index cache < length letter_bytes")
    case True
    with Suc.prems have "alias_loop src k cache remain (Suc left) acc =
        alias_loop src k (drop_bit 6 cache) (remain - 1) left (acc @ [letter_bytes ! letter_index cache])"
      by (subst alias_loop.simps) simp
    then show ?thesis by blast
  next
    case False
    with Suc.prems have "alias_loop src k cache remain (Suc left) acc = alias_loop src k (drop_bit 6 cache) (remain - 1) (Suc left) acc"
      by (subst alias_loop.simps) simp
    moreover have "usable (drop_bit 6 cache) n" using usable_next [OF Suc.prems(1) False] by simp
    ultimately show ?thesis using Suc.IH [of "drop_bit 6 cache" "remain - 1"] Suc.prems(2) by simp
  qed
qed

lemma alias_next_draw:
  assumes "\<forall>i. usable (src i) 10"
  shows "\<exists>k' cache' remain' acc'. alias_loop src k cache remain (Suc left) acc = alias_loop src k' cache' remain' left acc'"
proof (induction remain arbitrary: cache)
  case 0
  from alias_next [of "src k" 10 10 src "Suc k" left acc] assms obtain k' cache' remain' acc' where
    n: "alias_loop src (Suc k) (src k) 10 (Suc left) acc = alias_loop src k' cache' remain' left acc'" by auto
  have "alias_loop src k cache 0 (Suc left) acc = alias_loop src (Suc k) (src k) 10 (Suc left) acc"
    by (subst alias_loop.simps, subst (2) alias_loop.simps) simp
  with n show ?case by auto
next
  case (Suc r)
  show ?case
  proof (cases "letter_index cache < length letter_bytes")
    case True
    then have "alias_loop src k cache (Suc r) (Suc left) acc =
        alias_loop src k (drop_bit 6 cache) r left (acc @ [letter_bytes ! letter_index cache])"
      by (subst alias_loop.simps) simp
    then show ?thesis by blast
  next
    case False
    then have "alias_loop src k cache (Suc r) (Suc left) acc = alias_loop src k (drop_bit 6 cache) r (Suc left) acc"
      by (subst alias_loop.simps) simp
    with Suc.IH show ?thesis by simp
  qed
qed

lemma alias_loop_returns:
  assumes "\<forall>i. usable (src i) 10"
  shows "\<exists>a. alias_loop src k cache remain left acc = Some a"
proof (induction left arbitrary: k cache remain acc)
  case 0
  show ?case by (subst alias_loop.simps) simp
next
  case (Suc left)
  from alias_next_draw [OF assms, of k cache remain left acc] Suc show ?case by metis
qed

section \<open>Lemmas on archives\<close>

lemma extract_entry_bundle:
  "foldM extract_entry empty_tree (walk ''.'' (bundle_tree manifest rego data)) =
   Inr \<lparr>directories = [[], [''bundle'']],
        file_contents = [([''bundle'', ''.manifest''], manifest), ([''bundle'', ''data.json''], data),
                         ([''bundle'', ''hexaPolicy.rego''], rego)]\<rparr>"
proof -
  have names: "\<not> contains_str ''.'' ''..'' \<and> \<not> contains_str ''bundle'' ''..'' \<and> \<not> contains_str ''bundle/.manifest'' ''..'' \<and>
      \<not> contains_str ''bundle/data.json'' ''..'' \<and> \<not> contains_str ''bundle/hexaPolicy.rego'' ''..''"
    by code_simp
  have paths: "path_components ''.'' = []" "path_components ''bundle'' = [''bundle'']"
    "path_components ''bundle/.manifest'' = [''bundle'', ''.manifest'']"
    "path_components ''bundle/data.json'' = [''bundle'', ''data.json'']"
    "path_components ''bundle/hexaPolicy.rego'' = [''bundle'', ''hexaPolicy.rego'']"
    by code_simp+
  show ?thesis
    using names
    by (simp add: bundle_tree_def extract_entry_def paths empty_tree_def make_directories_def path_prefixes_def
        write_file_def Let_def)
qed

text \<open>No step of an extraction leaves the target: nothing with two dots in its name gets that far.\<close>

lemma extract_entry_safe:
  "extract_entry t e = Inr u \<Longrightarrow> \<not> contains_str (entry_name e) ''..''"
  by (auto simp: extract_entry_def split: if_splits)

text \<open>Archives are read as they were written; then the data a bundle is made of is what a client finds in it.\<close>

definition formats_ok :: "archive_formats \<Rightarrow> bool" where
  "formats_ok fmt \<longleftrightarrow> (\<forall>es. tar_read fmt (tar_write fmt es) = Inr es) \<and> (\<forall>s. ungzip fmt (gzip fmt s) = Inr s)"

lemma bundle_data:
  "formats_ok fmt \<Longrightarrow> data_of_bundle fmt (make_hexa_bundle fmt manifest rego data) = Inr data"
  by (simp add: formats_ok_def data_of_bundle_def make_hexa_bundle_def untar_to_path_def tar_from_path_def
      extract_entry_bundle read_data_file_def)

text \<open>A simple format: every entry as two quoted texts with a letter for its type between them.\<close>

fun type_letter :: "entry_type \<Rightarrow> char" where
  "type_letter RegularEntry = CHR ''f''"
| "type_letter DirectoryEntry = CHR ''d''"
| "type_letter OtherEntry = CHR ''o''"

definition letter_type :: "char \<Rightarrow> entry_type" where
  "letter_type c = (if c = CHR ''f'' then RegularEntry else if c = CHR ''d'' then DirectoryEntry else OtherEntry)"

fun quoted_entries :: "tar_entry list \<Rightarrow> string" where
  "quoted_entries [] = []"
| "quoted_entries (e # es) =
     marshal_string (entry_name e) @ type_letter (entry_type e) # marshal_string (entry_data e) @ quoted_entries es"

function read_quoted :: "string \<Rightarrow> tar_entry list res" where
  "read_quoted s =
     (if s = [] then Inr []
      else
        (case scan_string (drop 1 s) of
           Some (n, k # r) \<Rightarrow>
             (case scan_string (drop 1 r) of
                Some (d, r') \<Rightarrow>
                  if length r' < length s
                  then rbind (read_quoted r') (\<lambda>es. Inr (\<lparr>entry_name = n, entry_type = letter_type k, entry_data = d\<rparr> # es))
                  else Inl (Error ''bad entry'')
              | None \<Rightarrow> Inl (Error ''bad entry''))
         | _ \<Rightarrow> Inl (Error ''bad entry'')))"
  by pat_completeness auto
termination
  by (relation "measure length") auto

declare read_quoted.simps [simp del]

definition quoted_formats :: archive_formats where
  "quoted_formats = \<lparr>tar_write = quoted_entries, tar_read = read_quoted, gzip = (\<lambda>s. s), ungzip = Inr\<rparr>"

lemma read_quoted_entries: "read_quoted (quoted_entries es) = Inr es"
proof (induction es)
  case Nil
  show ?case by (subst read_quoted.simps) simp
next
  case (Cons e es)
  have "quoted_entries (e # es) \<noteq> []" by (simp add: marshal_string_def)
  moreover have "letter_type (type_letter (entry_type e)) = entry_type e" by (cases "entry_type e") (simp_all add: letter_type_def)
  ultimately show ?case
    using Cons scan_string_marshal [of "entry_name e" "type_letter (entry_type e) # marshal_string (entry_data e) @ quoted_entries es"]
      scan_string_marshal [of "entry_data e" "quoted_entries es"]
    by (subst read_quoted.simps) simp
qed

lemma quoted_formats_ok: "formats_ok quoted_formats"
  by (simp add: formats_ok_def quoted_formats_def read_quoted_entries)

section \<open>Properties\<close>

text \<open>Property C39.  An alias has the length that was asked for and consists of letters; it is found whenever
  every draw of random bits has the index of a letter among its ten.\<close>

theorem alias_has_size:
  "(generate_alias src n = Some a \<longrightarrow> length a = n \<and> set a \<subseteq> set letter_bytes) \<and>
   ((\<forall>i. usable (src i) 10) \<longrightarrow> (\<exists>a. generate_alias src n = Some a))"
  using alias_loop_shape [of src 1 "src 0" 10 n "[]" a] alias_loop_returns [of src 1 "src 0" 10 n "[]"]
  by (auto simp: generate_alias_def)

lemma alias_has_size_witness:
  "\<exists>a. generate_alias (\<lambda>_. 1) 3 = Some a \<and> length a = 3 \<and> set a \<subseteq> set letter_bytes"
proof -
  have "letter_index (drop_bit 0 1) < length letter_bytes" by (simp add: letter_index_def letter_bytes_def)
  then have "usable 1 10" unfolding usable_def by (intro exI [of _ 0]) simp
  with alias_has_size [of "\<lambda>_. 1" 3] obtain a where "generate_alias (\<lambda>_. 1) 3 = Some a" by blast
  with alias_has_size [of "\<lambda>_. 1" 3 a] show ?thesis by blast
qed

end
