(* ===== verification/Opa_Provider.thy ===== *)
theory Opa_Provider
  imports Provider_Runs Opa_Bundle
begin

text \<open>
  The provider for Open Policy Agent (\<^verbatim>\<open>providers/openpolicyagent/opa_provider.go\<close>) and its bundle
  clients for HTTP, Google storage, Amazon S3 and GitHub (\<^verbatim>\<open>http_bundle_client.go\<close>,
  \<^verbatim>\<open>gcp_bundle_client.go\<close>, \<^verbatim>\<open>aws_bundle_client.go\<close>, \<^verbatim>\<open>github_bundle_client.go\<close>).

  Parameters: the HTTP exchange and the S3 service, in a state \<open>'s\<close>; addresses as \<^verbatim>\<open>net/url\<close> parses
  and prints them; the JSON structures, as they decode and encode; the formats of the archives.
  Random names and times are given by \<open>alias\<close> and \<open>now\<close>.
\<close>

section \<open>Credentials\<close>

record bucket_credentials =
  bucket_name :: string
  object_name :: string
  bucket_key :: string

record github_credentials =
  gh_account :: string
  gh_repo :: string
  gh_bundle_path :: string
  gh_key :: string

text \<open>The client of an OAuth client credentials grant.\<close>

record client_config =
  cc_client_id :: string
  cc_secret :: string
  cc_token_url :: string
  cc_scopes :: "string list"

record opa_credentials =
  bundle_url :: string
  ca_cert :: string
  opa_authorization :: string
  gcp :: "bucket_credentials option"
  aws :: "bucket_credentials option"
  github :: "github_credentials option"
  oauth_client :: "client_config option"

definition bundle_type_gcp :: string where "bundle_type_gcp = ''GCP_Storage''"
definition bundle_type_aws :: string where "bundle_type_aws = ''aws-s3''"
definition bundle_type_github :: string where "bundle_type_github = ''Github''"
definition bundle_type_http :: string where "bundle_type_http = ''HTTP''"

record url =
  url_scheme :: string
  url_host :: string
  url_path :: string
  url_query :: string

record urls =
  parse_url :: "string \<Rightarrow> url res"
  url_text :: "url \<Rightarrow> string"
  query_escape :: "string \<Rightarrow> string"

definition opa_type :: "opa_credentials \<Rightarrow> string" where
  "opa_type c =
     (if gcp c \<noteq> None then bundle_type_gcp
      else if aws c \<noteq> None then bundle_type_aws
      else if github c \<noteq> None then bundle_type_github
      else bundle_type_http)"

text \<open>The error of parsing the address is ignored, and then the missing result is read.\<close>

definition credentials_object_id :: "urls \<Rightarrow> opa_credentials \<Rightarrow> string res" where
  "credentials_object_id u c =
     (case (gcp c, aws c, github c) of
        (Some g, _, _) \<Rightarrow> Inr (bucket_name g)
      | (None, Some a, _) \<Rightarrow> Inr (bucket_name a)
      | (None, None, Some h) \<Rightarrow> Inr (gh_repo h)
      | (None, None, None) \<Rightarrow>
          (case parse_url u (bundle_url c) of
             Inl _ \<Rightarrow> Inl (Panic ''nil pointer dereference'')
           | Inr p \<Rightarrow> Inr (url_host p @ ''/'' @ url_path p)))"

definition opa_application_info :: "urls \<Rightarrow> opa_credentials \<Rightarrow> application_info res" where
  "opa_application_info u c =
     rbind (credentials_object_id u c) (\<lambda>i.
       Inr (if opa_type c = bundle_type_http then
              \<lparr>object_id = i, app_name = ''OPA '' @ bundle_type_http @ '' '' @ bundle_url c,
               app_description = ''OPA HTTP Bundle Service'', app_service = ''OPA '' @ bundle_type_http\<rparr>
            else
              \<lparr>object_id = i, app_name = ''OPA '' @ opa_type c @ '' Bucket '' @ i,
               app_description = ''OPA '' @ opa_type c @ '' Bundle Service'', app_service = ''OPA '' @ opa_type c\<rparr>))"

section \<open>Services\<close>

text \<open>An HTTP client: given from outside, made with a certificate, or one that adds a token to another.\<close>

datatype http_client = GivenClient nat | DefaultClient string | OAuthClient client_config http_client

record http_request =
  request_method :: string
  request_url :: string
  request_authorization :: "string option"
  request_content_type :: "string option"
  request_body :: string

record http_reply =
  reply_status :: nat
  reply_body :: string

record github_contents =
  contents_data :: string
  contents_sha :: string

record 's opa_services =
  http_do :: "http_client \<Rightarrow> http_request \<Rightarrow> 's \<Rightarrow> 's \<times> http_reply res"
  s3_get :: "string \<Rightarrow> string \<Rightarrow> string \<Rightarrow> 's \<Rightarrow> string res"
  s3_put :: "string \<Rightarrow> string \<Rightarrow> string \<Rightarrow> string \<Rightarrow> 's \<Rightarrow> 's \<times> unit res"
  opa_urls :: urls
  formats :: archive_formats
  multipart_form :: "string \<Rightarrow> string"
  detect_content_type :: "string \<Rightarrow> string"
  base64_encode :: "string \<Rightarrow> string"
  base64_decode :: "string \<Rightarrow> string"
  gcs_generation :: "string \<Rightarrow> string res"
  gcs_errors :: "string \<Rightarrow> (string \<times> string) list option"
  github_reply :: "string \<Rightarrow> github_contents res"
  github_message :: "string \<Rightarrow> string res"
  github_publish :: "string \<Rightarrow> string \<Rightarrow> string \<Rightarrow> string"
  decode_credentials :: "string \<Rightarrow> opa_credentials res"
  gcp_connect :: "string \<Rightarrow> http_client res"
  aws_connect :: "string \<Rightarrow> unit res"
  github_token :: "string \<Rightarrow> string res"
  decode_policies :: "string \<Rightarrow> policies res"
  encode_policies :: "policies \<Rightarrow> string res"
  rego_text :: string
  manifest_text :: string

section \<open>The bundle clients\<close>

datatype bundle_client =
  HttpBundle string "string option" http_client
| GcpBundle string string http_client
| AwsBundle string string string
| GithubBundle string string string string

definition bundle_path :: string where "bundle_path = ''/bundles/bundle.tar.gz''"

definition check_bundle_url :: "urls \<Rightarrow> string \<Rightarrow> string res" where
  "check_bundle_url u url =
     (case parse_url u url of
        Inl _ \<Rightarrow> Inl (Panic ''nil pointer dereference'')
      | Inr p \<Rightarrow> Inr (if url_path p = [] \<or> url_path p = ''/'' then url_text u (p\<lparr>url_path := bundle_path\<rparr>) else url))"

definition http_new_request ::
  "'s opa_services \<Rightarrow> http_client \<Rightarrow> string option \<Rightarrow> string \<Rightarrow> string \<Rightarrow> string option \<Rightarrow> string \<Rightarrow> 's \<Rightarrow> 's \<times> http_reply res" where
  "http_new_request sv client auth verb url content_type body =
     http_do sv client \<lparr>request_method = verb, request_url = url,
       request_authorization = map_option trim_space auth, request_content_type = content_type, request_body = body\<rparr>"

definition http_get_data :: "'s opa_services \<Rightarrow> string \<Rightarrow> string option \<Rightarrow> http_client \<Rightarrow> ('s, string) run" where
  "http_get_data sv url auth client =
     run_bind (pure_run 0 (check_bundle_url (opa_urls sv) url)) (\<lambda>url.
     run_bind (request 0 (http_new_request sv client auth ''GET'' url None [])) (\<lambda>reply.
       pure_run 0 (data_of_bundle (formats sv) (reply_body reply))))"

text \<open>A status is returned as it is, without an error.\<close>

definition http_post_bundle :: "'s opa_services \<Rightarrow> string \<Rightarrow> string option \<Rightarrow> http_client \<Rightarrow> string \<Rightarrow> ('s, nat) run" where
  "http_post_bundle sv url auth client bundle =
     run_bind (pure_run 500 (check_bundle_url (opa_urls sv) url)) (\<lambda>url.
     run_bind (request 500 (http_new_request sv client auth ''POST'' url (Some ''multipart/form-data'') (multipart_form sv bundle))) (\<lambda>reply.
       pure_run 500 (Inr (reply_status reply))))"

definition plain_get :: "string \<Rightarrow> http_request" where
  "plain_get url = \<lparr>request_method = ''GET'', request_url = url, request_authorization = None,
     request_content_type = None, request_body = []\<rparr>"

definition gcs_object_url :: "string \<Rightarrow> string \<Rightarrow> string" where
  "gcs_object_url bucket object = ''https://storage.googleapis.com/storage/v1/b/'' @ bucket @ ''/o/'' @ object"

definition gcp_get_data :: "'s opa_services \<Rightarrow> string \<Rightarrow> string \<Rightarrow> http_client \<Rightarrow> ('s, string) run" where
  "gcp_get_data sv bucket object client =
     run_bind (request 0 (http_do sv client (plain_get (gcs_object_url bucket object @ ''?alt=media'')))) (\<lambda>reply.
       pure_run 0 (data_of_bundle (formats sv) (reply_body reply)))"

text \<open>The error of the first request is raised as a panic.\<close>

definition raise_error :: "('s \<Rightarrow> 's \<times> 'a res) \<Rightarrow> 's \<Rightarrow> 's \<times> 'a res" where
  "raise_error f s = (case f s of (t, Inl (Error e)) \<Rightarrow> (t, Inl (Panic e)) | r \<Rightarrow> r)"

definition gcs_upload_url :: "urls \<Rightarrow> string \<Rightarrow> string \<Rightarrow> string \<Rightarrow> url" where
  "gcs_upload_url u bucket object generation =
     \<lparr>url_scheme = ''https'', url_host = ''storage.googleapis.com'', url_path = ''/upload/storage/v1/b/'' @ bucket @ ''/o'',
      url_query = ''ifGenerationMatch='' @ query_escape u generation @ ''&name='' @ query_escape u object @ ''&uploadType=media''\<rparr>"

definition gcp_post_bundle :: "'s opa_services \<Rightarrow> string \<Rightarrow> string \<Rightarrow> http_client \<Rightarrow> string \<Rightarrow> ('s, nat) run" where
  "gcp_post_bundle sv bucket object client bundle =
     run_bind (request 500 (raise_error (http_do sv client (plain_get (gcs_object_url bucket object))))) (\<lambda>reply.
     run_bind (pure_run 500 (gcs_generation sv (reply_body reply))) (\<lambda>generation.
     run_bind (request 500 (http_do sv client
       \<lparr>request_method = ''POST'', request_url = url_text (opa_urls sv) (gcs_upload_url (opa_urls sv) bucket object generation),
        request_authorization = None, request_content_type = Some (detect_content_type sv bundle),
        request_body = bundle\<rparr>)) (\<lambda>answer.
       case gcs_errors sv (reply_body answer) of
         None \<Rightarrow> pure_run 500 (Inr 201)
       | Some errs \<Rightarrow>
           run_bind (pure_run 500 (go_index errs 0)) (\<lambda>(location, message).
             pure_run 500 (Inl (Error (''error response from GCS: '' @ location @ '': '' @ message)))))))"

definition aws_get_data :: "'s opa_services \<Rightarrow> string \<Rightarrow> string \<Rightarrow> string \<Rightarrow> ('s, string) run" where
  "aws_get_data sv key bucket object =
     run_bind (read_run 0 (s3_get sv key bucket object)) (\<lambda>bundle. pure_run 0 (data_of_bundle (formats sv) bundle))"

definition aws_post_bundle :: "'s opa_services \<Rightarrow> string \<Rightarrow> string \<Rightarrow> string \<Rightarrow> string \<Rightarrow> ('s, nat) run" where
  "aws_post_bundle sv key bucket object bundle =
     run_bind (request 500 (s3_put sv key bucket object bundle)) (\<lambda>_. pure_run 500 (Inr 201))"

text \<open>GitHub: a missing bundle is told from other errors.\<close>

definition github_url :: "string \<Rightarrow> string \<Rightarrow> string \<Rightarrow> string" where
  "github_url account repo path = ''https://api.github.com/repos/'' @ account @ ''/'' @ repo @ ''/contents/'' @ path"

definition github_request :: "string \<Rightarrow> string \<Rightarrow> string \<Rightarrow> string \<Rightarrow> http_request" where
  "github_request verb token url body =
     \<lparr>request_method = verb, request_url = url, request_authorization = Some (''Bearer '' @ token),
      request_content_type = None, request_body = body\<rparr>"

definition github_client :: http_client where
  "github_client = DefaultClient []"

definition github_error :: "'s opa_services \<Rightarrow> string \<Rightarrow> string" where
  "github_error sv body =
     (case github_message sv body of Inl (Error e) \<Rightarrow> e | Inl (Panic e) \<Rightarrow> e | Inr m \<Rightarrow> m)"

text \<open>No contents stand for the error \<open>errNotFound\<close>.\<close>

definition fetch_bundle :: "'s opa_services \<Rightarrow> string \<Rightarrow> string \<Rightarrow> ('s, github_contents option) run" where
  "fetch_bundle sv token url =
     run_bind (request 0 (http_do sv github_client (github_request ''GET'' token url []))) (\<lambda>reply.
       if reply_status reply = 404 then pure_run 0 (Inr None)
       else if reply_status reply \<noteq> 200 then
         pure_run 0 (Inl (Error (''unable to read bundle from Github: '' @ github_error sv (reply_body reply))))
       else pure_run 0 (rbind (github_reply sv (reply_body reply)) (\<lambda>c. Inr (Some c))))"

definition github_get_data :: "'s opa_services \<Rightarrow> string \<Rightarrow> string \<Rightarrow> string \<Rightarrow> string \<Rightarrow> ('s, string) run" where
  "github_get_data sv token account repo path =
     run_bind (fetch_bundle sv token (github_url account repo path)) (\<lambda>found.
       case found of
         None \<Rightarrow> pure_run 0 (Inl (Error ''unable to read bundle from Github: NOT FOUND''))
       | Some c \<Rightarrow> pure_run 0 (data_of_bundle (formats sv) (base64_decode sv (contents_data c))))"

text \<open>The body of the response is closed before the error of the request is looked at.\<close>

definition github_post_bundle :: "'s opa_services \<Rightarrow> string \<Rightarrow> string \<Rightarrow> string \<Rightarrow> string \<Rightarrow> string \<Rightarrow> ('s, nat) run" where
  "github_post_bundle sv token account repo path bundle =
     run_bind (fetch_bundle sv token (github_url account repo path)) (\<lambda>found.
       let sha = (case found of None \<Rightarrow> [] | Some c \<Rightarrow> contents_sha c);
           body = github_publish sv ''Update opa bundle'' (base64_encode sv bundle) sha in
       run_bind (request 0 (raise_error (http_do sv github_client
         (github_request ''PUT'' token (github_url account repo path) body)))) (\<lambda>reply.
           if reply_status reply \<noteq> 201 \<and> reply_status reply \<noteq> 200 then
             pure_run (reply_status reply)
               (Inl (Error (''unable to write bundle to Github: '' @ github_error sv (reply_body reply))))
           else pure_run 0 (Inr 201)))"

fun get_data_from_bundle :: "'s opa_services \<Rightarrow> bundle_client \<Rightarrow> ('s, string) run" where
  "get_data_from_bundle sv (HttpBundle url auth client) = http_get_data sv url auth client"
| "get_data_from_bundle sv (GcpBundle bucket object client) = gcp_get_data sv bucket object client"
| "get_data_from_bundle sv (AwsBundle key bucket object) = aws_get_data sv key bucket object"
| "get_data_from_bundle sv (GithubBundle token account repo path) = github_get_data sv token account repo path"

fun post_bundle :: "'s opa_services \<Rightarrow> bundle_client \<Rightarrow> string \<Rightarrow> ('s, nat) run" where
  "post_bundle sv (HttpBundle url auth client) b = http_post_bundle sv url auth client b"
| "post_bundle sv (GcpBundle bucket object client) b = gcp_post_bundle sv bucket object client b"
| "post_bundle sv (AwsBundle key bucket object) b = aws_post_bundle sv key bucket object b"
| "post_bundle sv (GithubBundle token account repo path) b = github_post_bundle sv token account repo path b"

section \<open>The provider\<close>

text \<open>The provider keeps the HTTP client it made for the first integration.\<close>

record opa_provider =
  client_override :: "bundle_client option"
  opa_http_client :: "http_client option"
  jwt_handler :: "client_config option"

definition new_gcp_client :: "'s opa_services \<Rightarrow> bucket_credentials \<Rightarrow> bundle_client res" where
  "new_gcp_client sv g =
     rbind (gcp_connect sv (bucket_key g)) (\<lambda>client.
       if bucket_name g = [] \<or> object_name g = [] then
         Inl (Error ''required config: bundle_url, bucket_name, object_name'')
       else Inr (GcpBundle (bucket_name g) (object_name g) client))"

definition new_aws_client :: "'s opa_services \<Rightarrow> bucket_credentials \<Rightarrow> bundle_client res" where
  "new_aws_client sv a =
     (if bucket_name a = [] \<or> object_name a = [] then Inl (Error ''required config: bucket_name, object_name'')
      else rbind (aws_connect sv (bucket_key a)) (\<lambda>_. Inr (AwsBundle (bucket_key a) (bucket_name a) (object_name a))))"

definition new_github_client :: "'s opa_services \<Rightarrow> github_credentials \<Rightarrow> bundle_client res" where
  "new_github_client sv g =
     (if gh_account g = [] \<or> gh_repo g = [] \<or> gh_bundle_path g = [] then
        Inl (Error ''required config: account, repo, branch, bundle'')
      else
        rbind (github_token sv (gh_key g)) (\<lambda>token.
          if token = [] then Inl (Error ''AccessToken is required'')
          else Inr (GithubBundle token (gh_account g) (gh_repo g) (gh_bundle_path g))))"

definition bearer_authorization :: "string \<Rightarrow> string option" where
  "bearer_authorization a =
     (if a = [] then None else if contains_str a '' '' then Some a else Some (''Bearer '' @ a))"

definition http_bundle_client :: "'s opa_services \<Rightarrow> opa_credentials \<Rightarrow> http_client \<Rightarrow> bundle_client res" where
  "http_bundle_client sv c client =
     (case parse_url (opa_urls sv) (bundle_url c) of
        Inl (Error e) \<Rightarrow> Inl (Error (''error parsing bundleUrl: '' @ e))
      | Inl (Panic e) \<Rightarrow> Inl (Panic e)
      | Inr p \<Rightarrow>
          (let p' = (if url_path p = [] \<or> url_path p = ''/'' then p\<lparr>url_path := bundle_path\<rparr> else p)
           in Inr (HttpBundle (url_text (opa_urls sv) p') (bearer_authorization (opa_authorization c)) client)))"

text \<open>The provider afterwards, and the client.\<close>

definition configure_client :: "'s opa_services \<Rightarrow> opa_provider \<Rightarrow> string \<Rightarrow> opa_provider \<times> bundle_client res" where
  "configure_client sv prov key =
     (case decode_credentials sv key of
        Inl (Panic e) \<Rightarrow> (prov, Inl (Panic e))
      | Inl (Error e) \<Rightarrow> (prov, Inl (Error (''invalid integration key: '' @ e)))
      | Inr c \<Rightarrow>
          (case (gcp c, aws c, github c, client_override prov) of
             (Some g, _) \<Rightarrow> (prov, new_gcp_client sv g)
           | (None, Some a, _) \<Rightarrow> (prov, new_aws_client sv a)
           | (None, None, Some h, _) \<Rightarrow> (prov, new_github_client sv h)
           | (None, None, None, Some b) \<Rightarrow> (prov, Inr b)
           | (None, None, None, None) \<Rightarrow>
               (let base = (case opa_http_client prov of Some h \<Rightarrow> h | None \<Rightarrow> DefaultClient (ca_cert c));
                    client = (case oauth_client c of None \<Rightarrow> base | Some oc \<Rightarrow> OAuthClient oc base);
                    jwt = (case oauth_client c of None \<Rightarrow> jwt_handler prov | Some oc \<Rightarrow> Some oc) in
                (prov\<lparr>opa_http_client := Some client, jwt_handler := jwt\<rparr>, http_bundle_client sv c client))))"

definition discover_opa :: "'s opa_services \<Rightarrow> integration_info \<Rightarrow> application_info list res" where
  "discover_opa sv info =
     (case decode_credentials sv (integration_key info) of
        Inl (Panic e) \<Rightarrow> Inl (Panic e)
      | Inl (Error e) \<Rightarrow> Inl (Error (''invalid integration key: '' @ e))
      | Inr c \<Rightarrow>
          if equal_fold (integration_name info) ''opa''
          then rbind (opa_application_info (opa_urls sv) c) (\<lambda>a. Inr [a]) else Inr [])"

definition wrap_error :: "string \<Rightarrow> 'a res \<Rightarrow> 'a res" where
  "wrap_error m r = (case r of Inl (Error e) \<Rightarrow> Inl (Error (m @ e)) | _ \<Rightarrow> r)"

definition opa_get_policy_info ::
  "'s opa_services \<Rightarrow> opa_provider \<Rightarrow> integration_info \<Rightarrow> opa_provider \<times> ('s, policy_info slice) run" where
  "opa_get_policy_info sv prov info =
     (let (prov', client) = configure_client sv prov (integration_key info) in
      (prov', run_bind (pure_run 0 (wrap_error ''invalid client: '' client)) (\<lambda>client.
           run_bind (get_data_from_bundle sv client) (\<lambda>data.
           run_bind (pure_run 0 (decode_policies sv data)) (\<lambda>ps. pure_run 0 (Inr (policy_list ps)))))))"

text \<open>The metadata of the policy with index \<open>i\<close>, whose alias and time are given.\<close>

definition opa_metadata :: "(nat \<Rightarrow> string) \<Rightarrow> (nat \<Rightarrow> string) \<Rightarrow> string \<Rightarrow> nat \<Rightarrow> policy_info \<Rightarrow> policy_info" where
  "opa_metadata now alias pap i p =
     p\<lparr>meta := (meta p)\<lparr>
         created := (if created (meta p) = None then Some (now i) else created (meta p)),
         modified := Some (now i), pap_id := Some pap, provider_type := ''opa'',
         policy_id := (if policy_id (meta p) = None
                       then Some ((if object_info p \<noteq> [] then object_info p else pap) @ ''_'' @ alias i)
                       else policy_id (meta p))\<rparr>\<rparr>"

definition opa_policies :: "(nat \<Rightarrow> string) \<Rightarrow> (nat \<Rightarrow> string) \<Rightarrow> string \<Rightarrow> policy_info list \<Rightarrow> policies" where
  "opa_policies now alias pap ps =
     \<lparr>policy_list = (if ps = [] then None else Some (map (\<lambda>(i, p). opa_metadata now alias pap i p) (enumerate 0 ps))),
      app = None\<rparr>"

text \<open>The deferred \<open>recover\<close>: a panic of the upload ends in the zero values, status 0 and no error.\<close>

definition recover_run :: "('s, nat) run \<Rightarrow> ('s, nat) run" where
  "recover_run f s = (case f s of (t, Inl (Crashed m)) \<Rightarrow> (t, Inr 0) | r \<Rightarrow> r)"

definition opa_set_policy_info ::
  "'s opa_services \<Rightarrow> arg_validator \<Rightarrow> (nat \<Rightarrow> string) \<Rightarrow> (nat \<Rightarrow> string) \<Rightarrow> opa_provider \<Rightarrow> integration_info \<Rightarrow>
   application_info \<Rightarrow> policy_info list \<Rightarrow> opa_provider \<times> ('s, nat) run" where
  "opa_set_policy_info sv v now alias prov info appl ps =
     (case rbind (wrap_error ''invalid app info: '' (go_error (valid_application v appl)))
             (\<lambda>_. wrap_error ''invalid policy info: '' (go_error (valid_policies v ps))) of
        Inl e \<Rightarrow> (prov, pure_run 500 (Inl e))
      | Inr _ \<Rightarrow>
          (let (prov', client) = configure_client sv prov (integration_key info) in
           (prov', run_bind (pure_run 500 (wrap_error ''invalid client: '' client)) (\<lambda>client.
                run_bind (pure_run 500 (encode_policies sv (opa_policies now alias (object_id appl) ps))) (\<lambda>data.
                  recover_run (post_bundle sv client
                    (make_hexa_bundle (formats sv) (manifest_text sv) (rego_text sv) data)))))))"

end
