(* ===== verification/Web_Support.thy ===== *)
theory Web_Support
  imports Opa_Provider Key_Config
begin

text \<open>
  Small services around the HTTP library: the health and metrics handlers
  (\<^verbatim>\<open>pkg/healthsupport/health_support.go\<close>, \<^verbatim>\<open>pkg/metricssupport/metrics_support.go\<close>), waiting for a server,
  the handler for the client credentials flow (\<^verbatim>\<open>pkg/oauth2support/jwt_token_support.go\<close>) and the client of a
  bundle server (\<^verbatim>\<open>providers/openpolicyagent/opaserver_bundle_client.go\<close>).
\<close>

section \<open>Health and metrics\<close>

record http_answer =
  answer_status :: nat
  answer_type :: string
  answer_body :: string

definition json_answer :: "string \<Rightarrow> http_answer" where
  "json_answer body = \<lparr>answer_status = 200, answer_type = ''application/json'', answer_body = body\<rparr>"

definition health_handler :: http_answer where
  "health_handler = json_answer (''{'' @ marshal_string ''status'' @ '':'' @ marshal_string ''pass'' @ ''}'')"

text \<open>A check is its name and its outcome.\<close>

definition check_response :: "string \<times> bool \<Rightarrow> string" where
  "check_response = (\<lambda>(name, ok).
     ''{'' @ marshal_string ''name'' @ '':'' @ marshal_string name @ '','' @
     marshal_string ''pass'' @ '':'' @ marshal_string (if ok then ''true'' else ''false'') @ ''}'')"

definition health_handler_with_checks :: "(string \<times> bool) list \<Rightarrow> http_answer" where
  "health_handler_with_checks checks = json_answer (''['' @ join_str (map check_response checks) '','' @ '']'')"

definition noop_check :: "string \<times> bool" where
  "noop_check = (''noop'', True)"

definition server_checks :: "(string \<times> bool) slice \<Rightarrow> (string \<times> bool) list" where
  "server_checks checks = (if elems checks = [] then [noop_check] else elems checks)"

definition metrics_handler :: http_answer where
  "metrics_handler = json_answer ''{}''"

definition metrics_middleware :: "(string \<Rightarrow> 'a) \<Rightarrow> string \<Rightarrow> 'a" where
  "metrics_middleware serve path =
     (if list_ex (has_prefix path) [''/styles'', ''/images''] then serve path else serve path)"

text \<open>
  Polling a server until it is healthy, which may never end.  A request has a status or fails; the result is the error
  the loop returns with, if any.
\<close>

partial_function (option) wait_for_healthy ::
  "('s \<Rightarrow> 's \<times> nat res) \<Rightarrow> 's \<Rightarrow> ('s \<times> fault option) option" where
  "wait_for_healthy get s =
     (case get s of (t, r) \<Rightarrow>
        (case r of
           Inl e \<Rightarrow> Some (t, Some e)
         | Inr n \<Rightarrow> if n = 200 then Some (t, None) else wait_for_healthy get t))"

section \<open>Client credentials\<close>

text \<open>A client with the pool of root certificates it was given, if it has one of its own.\<close>

record 'c jwt_client =
  jwt_config :: client_config
  jwt_roots :: "'c list option"

definition new_jwt_client_with_config ::
  "'k key_host \<Rightarrow> (string \<Rightarrow> 'c list) \<Rightarrow> file_system \<Rightarrow> client_config \<Rightarrow> 'c list option option \<Rightarrow> 'c jwt_client" where
  "new_jwt_client_with_config h certs_of fs config override =
     \<lparr>jwt_config = config,
      jwt_roots = (case check_ca_installed h certs_of fs (Some (case override of None \<Rightarrow> None | Some roots \<Rightarrow> roots)) of
                     None \<Rightarrow> None | Some roots \<Rightarrow> roots)\<rparr>"

definition new_jwt_client :: "'k key_host \<Rightarrow> (string \<Rightarrow> 'c list) \<Rightarrow> file_system \<Rightarrow> 'c jwt_client" where
  "new_jwt_client h certs_of fs =
     new_jwt_client_with_config h certs_of fs
       \<lparr>cc_client_id = key_env h ''HEXA_OAUTH_CLIENT_ID'', cc_secret = key_env h ''HEXA_OAUTH_CLIENT_SECRET'',
        cc_token_url = key_env h ''HEXA_OAUTH_TOKEN_ENDPOINT'', cc_scopes = []\<rparr> None"

section \<open>A bundle server\<close>

text \<open>A reply with its content type; \<open>JoinPath\<close> drops the slash at the front when there was none.\<close>

record 's opa_server =
  server_get :: "string \<Rightarrow> 's \<Rightarrow> 's \<times> (string \<times> string) res"
  server_post :: "string \<Rightarrow> string \<Rightarrow> 's \<Rightarrow> 's \<times> nat res"

definition policy_data_path :: string where "policy_data_path = ''/v1/data/policies''"

definition join_url_path :: "url \<Rightarrow> string \<Rightarrow> url" where
  "join_url_path u p =
     u\<lparr>url_path := (if has_prefix (url_path u) ''/'' then path_join (url_path u) p else drop 1 (path_join (''/'' @ url_path u) p))\<rparr>"

definition opa_server_get_data :: "'s opa_services \<Rightarrow> 's opa_server \<Rightarrow> string \<Rightarrow> ('s, string) run" where
  "opa_server_get_data sv srv url =
     run_bind (pure_run 0 (parse_url (opa_urls sv) url)) (\<lambda>u.
       run_bind (request 0 (server_get srv (url_text (opa_urls sv) (join_url_path u policy_data_path)))) (\<lambda>(kind, body).
         if equal_fold ''application/json'' kind then pure_run 0 (Inr body)
         else
           pure_run 0 (case ungzip (formats sv) body of
             Inl (Error e) \<Rightarrow> Inl (Error (''unable to ungzip: '' @ e))
           | Inl (Panic e) \<Rightarrow> Inl (Panic e)
           | Inr x \<Rightarrow> Inr x)))"

text \<open>The errors are ignored: an address that does not parse and a request that fails are nil pointers that are followed.\<close>

definition opa_server_post_bundle :: "'s opa_services \<Rightarrow> 's opa_server \<Rightarrow> string \<Rightarrow> string \<Rightarrow> ('s, nat) run" where
  "opa_server_post_bundle sv srv url bundle =
     run_bind (pure_run 0 (case parse_url (opa_urls sv) url of
         Inl _ \<Rightarrow> Inl (Panic ''nil pointer dereference'') | Inr u \<Rightarrow> Inr u)) (\<lambda>u s.
       case server_post srv (url_scheme u @ ''://'' @ url_host u @ ''/bundles'') (multipart_form sv bundle) s of
         (t, Inl _) \<Rightarrow> (t, Inl (Crashed ''nil pointer dereference''))
       | (t, Inr status) \<Rightarrow> (t, Inr status))"

section \<open>Properties\<close>

text \<open>The state after some polls, and the reply of the next one.\<close>

fun polled :: "('s \<Rightarrow> 's \<times> nat res) \<Rightarrow> nat \<Rightarrow> 's \<Rightarrow> 's" where
  "polled get 0 s = s"
| "polled get (Suc k) s = polled get k (fst (get s))"

definition poll_ends :: "('s \<Rightarrow> 's \<times> nat res) \<Rightarrow> 's \<Rightarrow> bool" where
  "poll_ends get s \<longleftrightarrow> (case snd (get s) of Inl _ \<Rightarrow> True | Inr n \<Rightarrow> n = 200)"

lemma wait_returns:
  assumes "poll_ends get (polled get k s)"
  shows "\<exists>r. wait_for_healthy get s = Some r"
  using assms
proof (induction k arbitrary: s)
  case 0
  then show ?case by (subst wait_for_healthy.simps) (auto simp: poll_ends_def split: prod.splits sum.splits)
next
  case (Suc k)
  from Suc.IH [of "fst (get s)"] Suc.prems obtain r where "wait_for_healthy get (fst (get s)) = Some r" by auto
  then show ?case by (subst wait_for_healthy.simps) (auto split: prod.splits sum.splits)
qed

lemmas wait_induct = wait_for_healthy.raw_induct [rotated 1, consumes 1, case_names poll]

lemma wait_ended:
  assumes "wait_for_healthy get s = Some r"
  shows "\<exists>k. poll_ends get (polled get k s) \<and> fst r = fst (get (polled get k s)) \<and>
    (snd r = None \<longleftrightarrow> snd (get (polled get k s)) = Inr 200)"
  using assms
proof (induction rule: wait_induct)
  case (poll f get s r)
  obtain t q where g: "get s = (t, q)" by (cases "get s")
  show ?case
  proof (cases "poll_ends get s")
    case True
    with poll(2) g have "fst r = t \<and> (snd r = None \<longleftrightarrow> q = Inr 200)"
      by (cases q) (auto simp: poll_ends_def)
    with True g show ?thesis by (intro exI [of _ 0]) simp
  next
    case False
    with poll(2) g have "f get t = Some r" by (cases q) (auto simp: poll_ends_def)
    from poll(1) [OF this] obtain k where "poll_ends get (polled get k t) \<and> fst r = fst (get (polled get k t)) \<and>
      (snd r = None \<longleftrightarrow> snd (get (polled get k t)) = Inr 200)" ..
    moreover have "polled get (Suc k) s = polled get k t" by (simp add: g)
    ultimately show ?thesis by (intro exI [of _ "Suc k"]) (simp only:)
  qed
qed

text \<open>Waiting ends exactly when some poll fails or finds the server healthy.\<close>

lemma wait_terminates_iff: "(\<exists>r. wait_for_healthy get s = Some r) \<longleftrightarrow> (\<exists>k. poll_ends get (polled get k s))"
  using wait_returns wait_ended by metis

text \<open>A failed check is reported with the status of success; the middleware changes nothing.\<close>

lemma health_always_ok: "answer_status (health_handler_with_checks checks) = 200"
  by (simp add: health_handler_with_checks_def json_answer_def)

lemma middleware_transparent: "metrics_middleware serve = serve"
  by (rule ext) (simp add: metrics_middleware_def)

lemma health_example:
  "answer_body (health_handler_with_checks (server_checks None)) =
     ''[{'' @ [dq] @ ''name'' @ [dq] @ '':'' @ [dq] @ ''noop'' @ [dq] @ '','' @ [dq] @ ''pass'' @ [dq] @ '':'' @ [dq] @ ''true'' @ [dq] @ ''}]''"
  by code_simp

text \<open>A bundle that was posted and whose request failed stops the program.\<close>

lemma failed_post_panics:
  assumes "parse_url (opa_urls sv) url = Inr u"
    and "server_post srv (url_scheme u @ ''://'' @ url_host u @ ''/bundles'') (multipart_form sv bundle) s = (t, Inl e)"
  shows "opa_server_post_bundle sv srv url bundle s = (t, Inl (Crashed ''nil pointer dereference''))"
  using assms by (simp add: opa_server_post_bundle_def run_bind_def pure_run_def)

end
