(* ===== verification/Oidc_Session.thy ===== *)
theory Oidc_Session
  imports Go_Prelude
begin

text \<open>
  The session manager of \<^verbatim>\<open>pkg/sessionSupport/session.go\<close>: what a login leaves in the session of a browser.

  The sessions themselves are kept by the library \<^verbatim>\<open>scs\<close>, which is a parameter: its operations on
  the session of one request, in the state \<open>'s\<close>.  They panic when the middleware put no session into the
  context of the request.
\<close>

section \<open>The manager\<close>

record 's scs_manager =
  get_string :: "'s \<Rightarrow> string \<Rightarrow> string res"
  put_value :: "string \<Rightarrow> string \<Rightarrow> 's \<Rightarrow> 's res"
  remove_value :: "string \<Rightarrow> 's \<Rightarrow> 's res"
  destroy_session :: "'s \<Rightarrow> ('s \<times> string option) res"

record session_info =
  session_email :: string
  session_sub :: string
  session_name :: string
  session_token :: string

record 's session_manager =
  scs :: "'s scs_manager"
  login_enabled :: bool

definition key_state :: string where "key_state = ''hexa-state''"
definition key_nonce :: string where "key_nonce = ''hexa-nonce''"
definition key_email :: string where "key_email = ''email''"
definition key_subject :: string where "key_subject = ''sub''"
definition key_id_token :: string where "key_id_token = ''idtoken''"
definition key_session_id :: string where "key_session_id = ''session-id''"

lemmas session_keys = key_state_def key_nonce_def key_email_def key_subject_def key_id_token_def key_session_id_def

definition oidc_switched_on :: "(string \<Rightarrow> string) \<Rightarrow> bool" where
  "oidc_switched_on env \<longleftrightarrow> env ''HEXA_OIDC_ENABLED'' \<noteq> [] \<and> equal_fold (take 1 (env ''HEXA_OIDC_ENABLED'')) ''t''"

definition new_session_manager :: "(string \<Rightarrow> string) \<Rightarrow> 's scs_manager \<Rightarrow> 's session_manager" where
  "new_session_manager env lib = \<lparr>scs = lib, login_enabled = oidc_switched_on env\<rparr>"

definition validate_session :: "'s session_manager \<Rightarrow> 's \<Rightarrow> bool res" where
  "validate_session m s =
     (if login_enabled m then rbind (get_string (scs m) s key_subject) (\<lambda>sub. Inr (sub \<noteq> []))
      else Inr True)"

text \<open>The identifier is the random UUID the method draws; it is returned too.\<close>

definition start_login :: "'s session_manager \<Rightarrow> string \<Rightarrow> string \<Rightarrow> string \<Rightarrow> 's \<Rightarrow> 's res" where
  "start_login m sid state nonce s =
     rbind (put_value (scs m) key_session_id sid s) (\<lambda>s1.
     rbind (put_value (scs m) key_state state s1) (\<lambda>s2. put_value (scs m) key_nonce nonce s2))"

definition session_id_safe :: "'s session_manager \<Rightarrow> 's \<Rightarrow> string" where
  "session_id_safe m s = (case get_string (scs m) s key_session_id of Inl _ \<Rightarrow> [] | Inr v \<Rightarrow> v)"

definition current_session :: "'s session_manager \<Rightarrow> 's \<Rightarrow> session_info res" where
  "current_session m s =
     (let sid = session_id_safe m s in
      if sid = [] then Inl (Error ''session id session-id not found'')
      else
        rbind (get_string (scs m) s key_email) (\<lambda>email.
        rbind (get_string (scs m) s key_subject) (\<lambda>sub.
        rbind (get_string (scs m) s key_id_token) (\<lambda>raw.
          Inr \<lparr>session_email = email, session_sub = sub, session_name = sid, session_token = raw\<rparr>))))"

definition login_state :: "'s session_manager \<Rightarrow> 's \<Rightarrow> (string \<times> string \<times> string) res" where
  "login_state m s =
     rbind (get_string (scs m) s key_session_id) (\<lambda>sid.
     rbind (get_string (scs m) s key_state) (\<lambda>state.
     rbind (get_string (scs m) s key_nonce) (\<lambda>nonce. Inr (sid, state, nonce))))"

definition store_login_session :: "'s session_manager \<Rightarrow> string \<Rightarrow> string \<Rightarrow> string \<Rightarrow> 's \<Rightarrow> 's res" where
  "store_login_session m raw email sub s =
     rbind (remove_value (scs m) key_state s) (\<lambda>s1.
     rbind (put_value (scs m) key_email email s1) (\<lambda>s2.
     rbind (put_value (scs m) key_subject sub s2) (\<lambda>s3. put_value (scs m) key_id_token raw s3)))"

definition logout_session :: "'s session_manager \<Rightarrow> 's \<Rightarrow> ('s \<times> string option) res" where
  "logout_session m s = destroy_session (scs m) s"

section \<open>What the documentation of the library says\<close>

text \<open>
  The values of a session, as a function from keys to texts: an absent key reads as the empty text,
  writing a key changes no other one, and a destroyed session is empty.  Destroying fails for no session
  of the in-memory store the manager is created with.
\<close>

definition scs_sessions :: "'s scs_manager \<Rightarrow> ('s \<Rightarrow> string \<Rightarrow> string) \<Rightarrow> bool" where
  "scs_sessions lib values \<longleftrightarrow>
     (\<forall>s k. get_string lib s k = Inr (values s k)) \<and>
     (\<forall>s k v. \<exists>t. put_value lib k v s = Inr t \<and> values t = (values s)(k := v)) \<and>
     (\<forall>s k. \<exists>t. remove_value lib k s = Inr t \<and> values t = (values s)(k := [])) \<and>
     (\<forall>s. \<exists>t. destroy_session lib s = Inr (t, None) \<and> values t = (\<lambda>_. []))"

text \<open>Sessions as maps, for the witnesses.\<close>

definition map_sessions :: "string go_map scs_manager" where
  "map_sessions =
     \<lparr>get_string = (\<lambda>s k. Inr (case map_of s k of None \<Rightarrow> [] | Some v \<Rightarrow> v)),
      put_value = (\<lambda>k v s. Inr (AList.update k v s)),
      remove_value = (\<lambda>k s. Inr (AList.delete k s)),
      destroy_session = (\<lambda>s. Inr ([], None))\<rparr>"

lemma map_sessions_ok: "scs_sessions map_sessions (\<lambda>s k. case map_of s k of None \<Rightarrow> [] | Some v \<Rightarrow> v)"
  by (auto simp: scs_sessions_def map_sessions_def update_conv' delete_conv' fun_eq_iff)

section \<open>The operations on the values\<close>

lemma session_keys_distinct [simp]:
  "key_state \<noteq> key_nonce" "key_state \<noteq> key_email" "key_state \<noteq> key_subject" "key_state \<noteq> key_id_token"
  "key_state \<noteq> key_session_id" "key_nonce \<noteq> key_state" "key_nonce \<noteq> key_email" "key_nonce \<noteq> key_subject"
  "key_nonce \<noteq> key_id_token" "key_nonce \<noteq> key_session_id" "key_email \<noteq> key_state" "key_email \<noteq> key_nonce"
  "key_email \<noteq> key_subject" "key_email \<noteq> key_id_token" "key_email \<noteq> key_session_id" "key_subject \<noteq> key_state"
  "key_subject \<noteq> key_nonce" "key_subject \<noteq> key_email" "key_subject \<noteq> key_id_token" "key_subject \<noteq> key_session_id"
  "key_id_token \<noteq> key_state" "key_id_token \<noteq> key_nonce" "key_id_token \<noteq> key_email" "key_id_token \<noteq> key_subject"
  "key_id_token \<noteq> key_session_id" "key_session_id \<noteq> key_state" "key_session_id \<noteq> key_nonce"
  "key_session_id \<noteq> key_email" "key_session_id \<noteq> key_subject" "key_session_id \<noteq> key_id_token"
  by (simp_all add: session_keys)

lemma validate_session_values:
  "scs_sessions (scs m) vals \<Longrightarrow> validate_session m s = Inr (\<not> login_enabled m \<or> vals s key_subject \<noteq> [])"
  by (auto simp: scs_sessions_def validate_session_def)

lemma start_login_values:
  assumes "scs_sessions (scs m) vals"
  shows "\<exists>t. start_login m sid state nonce s = Inr t \<and>
    vals t = (vals s)(key_session_id := sid, key_state := state, key_nonce := nonce)"
proof -
  from assms obtain s1 where 1: "put_value (scs m) key_session_id sid s = Inr s1"
    "vals s1 = (vals s)(key_session_id := sid)" unfolding scs_sessions_def by blast
  from assms obtain s2 where 2: "put_value (scs m) key_state state s1 = Inr s2"
    "vals s2 = (vals s1)(key_state := state)" unfolding scs_sessions_def by blast
  from assms obtain s3 where 3: "put_value (scs m) key_nonce nonce s2 = Inr s3"
    "vals s3 = (vals s2)(key_nonce := nonce)" unfolding scs_sessions_def by blast
  from 1 2 3 show ?thesis by (simp add: start_login_def)
qed

lemma store_login_values:
  assumes "scs_sessions (scs m) vals"
  shows "\<exists>t. store_login_session m raw email sub s = Inr t \<and>
    vals t = (vals s)(key_state := [], key_email := email, key_subject := sub, key_id_token := raw)"
proof -
  from assms obtain s1 where 1: "remove_value (scs m) key_state s = Inr s1"
    "vals s1 = (vals s)(key_state := [])" unfolding scs_sessions_def by blast
  from assms obtain s2 where 2: "put_value (scs m) key_email email s1 = Inr s2"
    "vals s2 = (vals s1)(key_email := email)" unfolding scs_sessions_def by blast
  from assms obtain s3 where 3: "put_value (scs m) key_subject sub s2 = Inr s3"
    "vals s3 = (vals s2)(key_subject := sub)" unfolding scs_sessions_def by blast
  from assms obtain s4 where 4: "put_value (scs m) key_id_token raw s3 = Inr s4"
    "vals s4 = (vals s3)(key_id_token := raw)" unfolding scs_sessions_def by blast
  from 1 2 3 4 show ?thesis by (simp add: store_login_session_def)
qed

lemma login_state_values:
  "scs_sessions (scs m) vals \<Longrightarrow> login_state m s = Inr (vals s key_session_id, vals s key_state, vals s key_nonce)"
  by (simp add: scs_sessions_def login_state_def)

lemma current_session_values:
  "scs_sessions (scs m) vals \<Longrightarrow>
   current_session m s =
     (if vals s key_session_id = [] then Inl (Error ''session id session-id not found'')
      else Inr \<lparr>session_email = vals s key_email, session_sub = vals s key_subject,
                session_name = vals s key_session_id, session_token = vals s key_id_token\<rparr>)"
  by (simp add: scs_sessions_def current_session_def session_id_safe_def)

lemma logout_values:
  "scs_sessions (scs m) vals \<Longrightarrow> \<exists>t. logout_session m s = Inr (t, None) \<and> vals t = (\<lambda>_. [])"
  by (simp add: scs_sessions_def logout_session_def)

end
