(* ===== verification/Oidc_Login.thy ===== *)
theory Oidc_Login
  imports Oidc_Session
begin

text \<open>
  The OpenID Connect client of \<^verbatim>\<open>pkg/oidcSupport/client.go\<close>: the four handlers of a login, on the
  session of one browser.

  The provider is a parameter: the address it is asked for a login at, the exchange of a code for the ID
  token of the response, if it has one, and the verification of an ID token.  The claims of a verified
  token are a decoded JSON object.  A response is what the handlers write; only the first status counts.
\<close>

section \<open>Data\<close>

datatype json_value =
  JNull
| JBool bool
| JInteger int
| JFraction string
| JString string
| JArray "json_value list"
| JObject "(string \<times> json_value) list"

record id_token =
  token_nonce :: string
  token_payload :: "json_value go_map"

record oauth_config =
  client_id :: string
  client_secret :: string
  redirect_url :: string
  oauth_scopes :: "string list"

record oidc_provider =
  auth_code_url :: "oauth_config \<Rightarrow> string \<Rightarrow> string \<Rightarrow> string"
  exchange_code :: "oauth_config \<Rightarrow> string \<Rightarrow> string option res"
  verify_token :: "string \<Rightarrow> string \<Rightarrow> id_token res"

record 's oidc_client =
  client_config :: "oauth_config option"
  oidc_service :: "oidc_provider option"
  login_path :: string
  auth_path :: string
  logout_path :: string
  oidc_enabled :: bool
  session_handler :: "'s session_manager option"
  main_page :: string
  oidc_name :: string

record web_response =
  web_status :: "nat option"
  web_location :: "string option"
  web_error :: "(string \<times> string) option"

definition no_response :: web_response where
  "no_response = \<lparr>web_status = None, web_location = None, web_error = None\<rparr>"

definition write_header :: "nat \<Rightarrow> web_response \<Rightarrow> web_response" where
  "write_header n w = (if web_status w = None then w\<lparr>web_status := Some n\<rparr> else w)"

definition http_redirect :: "string \<Rightarrow> nat \<Rightarrow> web_response \<Rightarrow> web_response" where
  "http_redirect url n w = (if web_status w = None then write_header n (w\<lparr>web_location := Some url\<rparr>) else w)"

section \<open>Claims of an ID token\<close>

text \<open>
  The fields of the local structure \<open>claims\<close> as \<^verbatim>\<open>encoding/json\<close> fills them: an absent or null claim
  leaves the zero value, a claim of another type is an error.
\<close>

record login_claims =
  claims_iss :: string
  claims_sub :: string
  claims_aud :: "string slice"
  claims_exp :: int
  claims_iat :: int
  claims_nonce :: string
  claims_email :: string

definition claim_mismatch :: "string \<Rightarrow> 'a res" where
  "claim_mismatch name = Inl (Error (''json: cannot unmarshal value into Go struct field .'' @ name))"

definition text_claim :: "json_value go_map \<Rightarrow> string \<Rightarrow> string res" where
  "text_claim m name =
     (case map_of m name of
        None \<Rightarrow> Inr [] | Some JNull \<Rightarrow> Inr [] | Some (JString t) \<Rightarrow> Inr t | Some _ \<Rightarrow> claim_mismatch name)"

definition text_item :: "string \<Rightarrow> json_value \<Rightarrow> string res" where
  "text_item name v = (case v of JString t \<Rightarrow> Inr t | JNull \<Rightarrow> Inr [] | _ \<Rightarrow> claim_mismatch name)"

definition texts_claim :: "json_value go_map \<Rightarrow> string \<Rightarrow> string slice res" where
  "texts_claim m name =
     (case map_of m name of
        None \<Rightarrow> Inr None | Some JNull \<Rightarrow> Inr None
      | Some (JArray vs) \<Rightarrow> rbind (mapM (text_item name) vs) (\<lambda>ts. Inr (Some ts))
      | Some _ \<Rightarrow> claim_mismatch name)"

definition int32_claim :: "json_value go_map \<Rightarrow> string \<Rightarrow> int res" where
  "int32_claim m name =
     (case map_of m name of
        None \<Rightarrow> Inr 0 | Some JNull \<Rightarrow> Inr 0
      | Some (JInteger n) \<Rightarrow> if - (2 ^ 31) \<le> n \<and> n < 2 ^ 31 then Inr n else claim_mismatch name
      | Some _ \<Rightarrow> claim_mismatch name)"

definition decode_claims :: "json_value go_map \<Rightarrow> login_claims res" where
  "decode_claims m =
     rbind (text_claim m ''iss'') (\<lambda>iss.
     rbind (text_claim m ''sub'') (\<lambda>sub.
     rbind (texts_claim m ''aud'') (\<lambda>aud.
     rbind (int32_claim m ''exp'') (\<lambda>exp.
     rbind (int32_claim m ''iat'') (\<lambda>iat.
     rbind (text_claim m ''cookieOauthNonce'') (\<lambda>nonce.
     rbind (text_claim m ''email'') (\<lambda>email.
       Inr \<lparr>claims_iss = iss, claims_sub = sub, claims_aud = aud, claims_exp = exp, claims_iat = iat,
            claims_nonce = nonce, claims_email = email\<rparr>)))))))"

section \<open>Handlers\<close>

text \<open>An error, with the text for a human when \<open>AnnotateError\<close> gave it one.\<close>

record handler_error =
  error_text :: string
  human_text :: "string option"

type_synonym 's handler = "'s \<Rightarrow> ('s \<times> web_response \<times> handler_error option) res"

definition annotate_error :: "string \<Rightarrow> string \<Rightarrow> handler_error" where
  "annotate_error err annotation = \<lparr>error_text = err, human_text = Some annotation\<rparr>"

definition error_handling :: "'s handler \<Rightarrow> 's \<Rightarrow> ('s \<times> web_response) res" where
  "error_handling h s =
     rbind (h s) (\<lambda>(t, w, e).
       case e of
         None \<Rightarrow> Inr (t, w)
       | Some e \<Rightarrow> Inr (t, (write_header 400 w)\<lparr>web_error := Some (error_text e,
           (case human_text e of None \<Rightarrow> ''Something went wrong! Please try again.'' | Some x \<Rightarrow> x))\<rparr>))"

definition handle_session_scope :: "'s oidc_client \<Rightarrow> web_response \<Rightarrow> 's \<Rightarrow> web_response res" where
  "handle_session_scope c next_page s =
     (if oidc_enabled c then
        rbind (go_deref (session_handler c)) (\<lambda>m.
        rbind (validate_session m s) (\<lambda>ok.
          Inr (if ok then next_page else http_redirect ''/'' 307 no_response)))
      else Inr next_page)"

definition handle_login :: "'s handler" where
  "handle_login s = Inr (s, write_header 200 no_response, None)"

text \<open>The error of a missing session is returned after the redirection is written.\<close>

definition handle_logout :: "'s oidc_client \<Rightarrow> 's handler" where
  "handle_logout c s =
     rbind (go_deref (session_handler c)) (\<lambda>m.
       case current_session m s of
         Inl (Panic e) \<Rightarrow> Inl (Panic e)
       | Inl (Error e) \<Rightarrow> Inr (s, http_redirect ''/'' 307 no_response, Some \<lparr>error_text = e, human_text = None\<rparr>)
       | Inr info \<Rightarrow>
           rbind (logout_session m s) (\<lambda>(t, _). Inr (t, http_redirect ''/'' 307 no_response, None)))"

text \<open>State, nonce and session identifier are random texts.\<close>

definition handle_authorize :: "'s oidc_client \<Rightarrow> string \<Rightarrow> string \<Rightarrow> string \<Rightarrow> 's handler" where
  "handle_authorize c sid state nonce s =
     rbind (go_deref (session_handler c)) (\<lambda>m.
     rbind (start_login m sid state nonce s) (\<lambda>t.
     rbind (go_deref (client_config c)) (\<lambda>conf.
     rbind (go_deref (oidc_service c)) (\<lambda>prov.
       Inr (t, http_redirect (auth_code_url prov conf state nonce) 302 no_response, None)))))"

definition refuse :: "'s \<Rightarrow> string \<Rightarrow> string \<Rightarrow> ('s \<times> web_response \<times> handler_error option) res" where
  "refuse s err human = Inr (s, no_response, Some (annotate_error err human))"

definition finish_login ::
  "'s oidc_client \<Rightarrow> 's session_manager \<Rightarrow> string \<Rightarrow> json_value go_map \<Rightarrow> 's handler" where
  "finish_login c m raw payload s =
     (case decode_claims payload of
        Inl (Panic e) \<Rightarrow> Inl (Panic e)
      | Inl (Error e) \<Rightarrow> refuse s e ''Could not parse ID token claims, please try again.''
      | Inr claims \<Rightarrow>
          rbind (store_login_session m raw (claims_email claims) (claims_sub claims) s) (\<lambda>t.
            Inr (t, http_redirect (if main_page c = [] then ''/integrations'' else main_page c) 307 no_response, None)))"

definition check_id_token ::
  "'s oidc_client \<Rightarrow> 's session_manager \<Rightarrow> oauth_config \<Rightarrow> oidc_provider \<Rightarrow> string \<Rightarrow> string \<Rightarrow> 's handler" where
  "check_id_token c m conf prov raw nonce s =
     (case verify_token prov (client_id conf) raw of
        Inl (Panic e) \<Rightarrow> Inl (Panic e)
      | Inl (Error e) \<Rightarrow> refuse s e ''Could not validate OIDC ID Token, please try again.''
      | Inr tok \<Rightarrow>
          if token_nonce tok \<noteq> nonce then
            refuse s ''nonce was not matched'' ''An error validating authorization, please try again''
          else finish_login c m raw (token_payload tok) s)"

definition handle_oauth2_callback :: "'s oidc_client \<Rightarrow> string \<Rightarrow> string \<Rightarrow> 's handler" where
  "handle_oauth2_callback c query_state code s =
     rbind (go_deref (session_handler c)) (\<lambda>m.
     rbind (login_state m s) (\<lambda>(sid, state, nonce).
       if sid = [] \<or> state = [] \<or> nonce = [] then
         refuse s ''session state missing on redirect''
           ''Invalid session state/nonce detected, check cookie settings and try again.''
       else if query_state \<noteq> state then
         refuse s ''session state and request state mismatch on redirect''
           ''Invalid session state detected, please try again.''
       else
         rbind (go_deref (client_config c)) (\<lambda>conf.
         rbind (go_deref (oidc_service c)) (\<lambda>prov.
           case exchange_code prov conf code of
             Inl (Panic e) \<Rightarrow> Inl (Panic e)
           | Inl (Error e) \<Rightarrow> refuse s e ''OIDC Provider returned error on token exchange, please try again.''
           | Inr None \<Rightarrow>
               refuse s ''OIDC Provider response missing ID Token''
                 ''Missing ID token in provider response, please try again.''
           | Inr (Some raw) \<Rightarrow> check_id_token c m conf prov raw nonce s))))"

definition parse_id_token_claims :: "'s oidc_client \<Rightarrow> (json_value go_map \<Rightarrow> 'a res) \<Rightarrow> string \<Rightarrow> 'a res" where
  "parse_id_token_claims c decode raw =
     rbind (go_deref (client_config c)) (\<lambda>conf.
     rbind (go_deref (oidc_service c)) (\<lambda>prov.
     rbind (verify_token prov (client_id conf) raw) (\<lambda>tok. decode (token_payload tok))))"

section \<open>Setting up\<close>

text \<open>
  The package keeps one disabled handler; a call with the login switched off puts its session handler
  there.  The result is that handler afterwards, the handler returned, and the error, if any.
\<close>

definition or_default :: "string \<Rightarrow> string \<Rightarrow> string" where
  "or_default x d = (if x = [] then d else x)"

definition configured_client ::
  "(string \<Rightarrow> string) \<Rightarrow> 's session_manager option \<Rightarrow> string \<Rightarrow> string \<Rightarrow> oidc_provider \<Rightarrow> 's oidc_client" where
  "configured_client env sessions cid secret prov =
     \<lparr>client_config = Some \<lparr>client_id = cid, client_secret = secret,
        redirect_url = or_default (env ''HEXA_OIDC_REDIRECT_URL'') ''/redirect'',
        oauth_scopes = [''openid'', ''profile'', ''email'']\<rparr>,
      oidc_service = Some prov,
      login_path = or_default (env ''HEXA_OIDC_LOGIN_PATH'') ''/'',
      auth_path = ''/authorize'',
      logout_path = or_default (env ''HEXA_OIDC_LOGOUT_PATH'') ''/logout'',
      oidc_enabled = True, session_handler = sessions, main_page = [],
      oidc_name = or_default (env ''HEXA_OIDC_PROVIDER_NAME'') ''OpenID Login''\<rparr>"

definition new_oidc_client ::
  "(string \<Rightarrow> string) \<Rightarrow> (string \<Rightarrow> oidc_provider res) \<Rightarrow> 's oidc_client \<Rightarrow> 's session_manager option \<Rightarrow>
   ('s oidc_client \<times> 's oidc_client \<times> string option) res" where
  "new_oidc_client env new_provider disabled sessions =
     (let cid = or_default (env ''HEXA_OIDC_CLIENT_ID'') (env ''HEXA_OAUTH_CLIENT_ID'');
          secret = or_default (env ''HEXA_OIDC_CLIENT_SECRET'') (env ''HEXA_OAUTH_CLIENT_SECRET'');
          url = env ''HEXA_OIDC_PROVIDER_URL'' in
      if \<not> oidc_switched_on env then
        (let d = (if sessions = None then disabled else disabled\<lparr>session_handler := sessions\<rparr>) in Inr (d, d, None))
      else if cid = [] then Inr (disabled, disabled, Some ''missing HEXA_OIDC_CLIENT_ID environment variable'')
      else if secret = [] then Inr (disabled, disabled, Some ''missing HEXA_OIDC_CLIENT_SECRET environment variable'')
      else if url = [] then Inr (disabled, disabled, Some ''missing OIDC provider URL (HEXA_OIDC_PROVIDER_URL)'')
      else
        (case new_provider url of
           Inl (Panic e) \<Rightarrow> Inl (Panic e)
         | Inl (Error e) \<Rightarrow> Inr (disabled, disabled, Some e)
         | Inr prov \<Rightarrow> Inr (disabled, configured_client env sessions cid secret prov, None)))"

text \<open>The handlers a router gets, in this order; \<open>url_path\<close> is the path of a parsed address.\<close>

datatype oidc_route = LoginRoute | AuthorizeRoute | LogoutRoute | CallbackRoute

definition init_handlers :: "(string \<Rightarrow> string res) \<Rightarrow> 's oidc_client \<Rightarrow> (string \<times> oidc_route) list res" where
  "init_handlers url_path c =
     rbind (go_deref (session_handler c)) (\<lambda>_.
       if oidc_enabled c then
         rbind (go_deref (client_config c)) (\<lambda>conf.
           case url_path (redirect_url conf) of
             Inl (Error e) \<Rightarrow> Inl (Panic e)
           | Inl (Panic e) \<Rightarrow> Inl (Panic e)
           | Inr path \<Rightarrow>
               Inr [(login_path c, LoginRoute), (auth_path c, AuthorizeRoute), (logout_path c, LogoutRoute),
                    (path, CallbackRoute)])
       else Inr [])"

section \<open>What happens in a session\<close>

text \<open>The requests of a browser, with what is drawn at random for them.\<close>

datatype oidc_event =
  Visit
| Authorize string string string
| Callback string string
| SignOut

fun handle_event :: "'s oidc_client \<Rightarrow> oidc_event \<Rightarrow> 's handler" where
  "handle_event c Visit s = handle_login s"
| "handle_event c (Authorize sid state nonce) s = handle_authorize c sid state nonce s"
| "handle_event c (Callback query_state code) s = handle_oauth2_callback c query_state code s"
| "handle_event c SignOut s = handle_logout c s"

inductive oidc_reaches :: "'s oidc_client \<Rightarrow> 's \<Rightarrow> oidc_event list \<Rightarrow> 's \<Rightarrow> bool" for c s where
  reach_start: "oidc_reaches c s [] s"
| reach_event: "oidc_reaches c s es t \<Longrightarrow> error_handling (handle_event c e) t = Inr (u, w) \<Longrightarrow>
    oidc_reaches c s (es @ [e]) u"

text \<open>The login that is under way after some requests: the last one that was started.\<close>

fun last_login :: "oidc_event list \<Rightarrow> (string \<times> string) option" where
  "last_login [] = None"
| "last_login (e # es) =
     (case last_login es of
        Some l \<Rightarrow> Some l
      | None \<Rightarrow> (case e of Authorize _ state nonce \<Rightarrow> Some (state, nonce) | _ \<Rightarrow> None))"

text \<open>
  A callback ends a login with a subject: its state is that of the last login started before it,
  and its code is exchanged for an ID token that is verified, has the nonce of that login and names the subject.
\<close>

definition proves_login :: "oauth_config \<Rightarrow> oidc_provider \<Rightarrow> oidc_event list \<Rightarrow> oidc_event \<Rightarrow> string \<Rightarrow> bool" where
  "proves_login conf prov before e sub \<longleftrightarrow>
     (\<exists>state nonce code raw tok claims. e = Callback state code \<and> last_login before = Some (state, nonce) \<and>
        exchange_code prov conf code = Inr (Some raw) \<and> verify_token prov (client_id conf) raw = Inr tok \<and>
        token_nonce tok = nonce \<and> decode_claims (token_payload tok) = Inr claims \<and> claims_sub claims = sub)"

definition logged_in :: "oauth_config \<Rightarrow> oidc_provider \<Rightarrow> oidc_event list \<Rightarrow> string \<Rightarrow> bool" where
  "logged_in conf prov es sub \<longleftrightarrow>
     (\<exists>before e after. es = before @ e # after \<and> proves_login conf prov before e sub \<and> SignOut \<notin> set after)"

text \<open>An identifier that is drawn is a UUID, so not empty.\<close>

definition drawn_names :: "oidc_event list \<Rightarrow> bool" where
  "drawn_names es \<longleftrightarrow> (\<forall>e \<in> set es. case e of Authorize sid _ _ \<Rightarrow> sid \<noteq> [] | _ \<Rightarrow> True)"

text \<open>A client whose login is switched on, and the values of the sessions of its manager.\<close>

definition login_client ::
  "'s oidc_client \<Rightarrow> oauth_config \<Rightarrow> oidc_provider \<Rightarrow> 's session_manager \<Rightarrow> ('s \<Rightarrow> string \<Rightarrow> string) \<Rightarrow> bool" where
  "login_client c conf prov m vals \<longleftrightarrow>
     oidc_enabled c \<and> client_config c = Some conf \<and> oidc_service c = Some prov \<and> session_handler c = Some m \<and>
     login_enabled m \<and> scs_sessions (scs m) vals"

section \<open>What the events do to a session\<close>

lemma error_handling_Inr [rbind_iff]:
  "error_handling h s = Inr (t, w) \<Longrightarrow> \<exists>w' e. h s = Inr (t, w', e)"
  by (auto simp: error_handling_def rbind_Inr_iff split: option.splits)

lemma authorize_values:
  assumes "login_client c conf prov m vals"
  shows "\<exists>u. handle_authorize c sid state nonce t =
      Inr (u, http_redirect (auth_code_url prov conf state nonce) 302 no_response, None) \<and>
    vals u = (vals t)(key_session_id := sid, key_state := state, key_nonce := nonce)"
  using start_login_values [of m vals sid state nonce t] assms
  by (auto simp: handle_authorize_def login_client_def go_deref_def)

lemma logout_event_values:
  assumes "login_client c conf prov m vals" and "handle_logout c t = Inr (u, w, e)"
  shows "if vals t key_session_id = [] then u = t else vals u = (\<lambda>_. [])"
  using logout_values [of m vals t] assms
  by (auto simp: handle_logout_def login_client_def go_deref_def current_session_values split: if_splits)

lemma callback_values:
  assumes "login_client c conf prov m vals" and "handle_oauth2_callback c q code t = Inr (u, w, e)"
  shows "u = t \<or>
    (\<exists>raw tok claims. vals t key_session_id \<noteq> [] \<and> q = vals t key_state \<and> q \<noteq> [] \<and>
       exchange_code prov conf code = Inr (Some raw) \<and> verify_token prov (client_id conf) raw = Inr tok \<and>
       token_nonce tok = vals t key_nonce \<and> decode_claims (token_payload tok) = Inr claims \<and>
       vals u = (vals t)(key_state := [], key_email := claims_email claims, key_subject := claims_sub claims,
                         key_id_token := raw))"
proof (cases "u = t")
  case False
  from assms(1) have m: "scs_sessions (scs m) vals" by (simp add: login_client_def)
  from assms False obtain raw where raw: "vals t key_session_id \<noteq> []" "q = vals t key_state" "q \<noteq> []"
    "exchange_code prov conf code = Inr (Some raw)"
    and "check_id_token c m conf prov raw (vals t key_nonce) t = Inr (u, w, e)"
    by (auto simp: handle_oauth2_callback_def login_client_def go_deref_def login_state_values refuse_def
        split: if_splits sum.splits fault.splits option.splits)
  moreover from this(5) False obtain tok where tok: "verify_token prov (client_id conf) raw = Inr tok"
    "token_nonce tok = vals t key_nonce" and "finish_login c m raw (token_payload tok) t = Inr (u, w, e)"
    by (auto simp: check_id_token_def refuse_def split: if_splits sum.splits fault.splits)
  moreover from this(3) False obtain claims where "decode_claims (token_payload tok) = Inr claims"
    "store_login_session m raw (claims_email claims) (claims_sub claims) t = Inr u"
    by (auto simp: finish_login_def refuse_def rbind_iff split: sum.splits fault.splits)
  ultimately show ?thesis using store_login_values [OF m, of raw "claims_email claims" "claims_sub claims" t] by auto
qed simp

lemma last_login_append:
  "last_login (es @ fs) = (case last_login fs of Some l \<Rightarrow> Some l | None \<Rightarrow> last_login es)"
  by (induction es) (auto split: option.splits)

lemma logged_in_snoc:
  assumes "logged_in conf prov es sub" and "e \<noteq> SignOut"
  shows "logged_in conf prov (es @ [e]) sub"
proof -
  from assms(1) obtain before f after where "es = before @ f # after" "proves_login conf prov before f sub"
    "SignOut \<notin> set after" by (auto simp: logged_in_def)
  then have "es @ [e] = before @ f # (after @ [e])" "SignOut \<notin> set (after @ [e])" using assms(2) by auto
  then show ?thesis using \<open>proves_login conf prov before f sub\<close> unfolding logged_in_def by blast
qed

definition session_explained ::
  "oauth_config \<Rightarrow> oidc_provider \<Rightarrow> ('s \<Rightarrow> string \<Rightarrow> string) \<Rightarrow> oidc_event list \<Rightarrow> 's \<Rightarrow> bool" where
  "session_explained conf prov vals es t \<longleftrightarrow>
     (vals t key_state \<noteq> [] \<longrightarrow> last_login es = Some (vals t key_state, vals t key_nonce)) \<and>
     (vals t key_subject \<noteq> [] \<longrightarrow> logged_in conf prov es (vals t key_subject) \<and> vals t key_session_id \<noteq> [])"

lemma session_explained_same:
  assumes "session_explained conf prov vals es t" and "e \<noteq> SignOut \<or> vals t key_session_id = []"
    and "last_login [e] = None"
  shows "session_explained conf prov vals (es @ [e]) t"
  using assms logged_in_snoc [of conf prov es "vals t key_subject" e]
  by (auto simp: session_explained_def last_login_append)

lemma event_keeps_explained:
  assumes c: "login_client c conf prov m vals" and ex: "session_explained conf prov vals es t"
    and h: "handle_event c e t = Inr (u, w, err)" and d: "drawn_names [e]"
  shows "session_explained conf prov vals (es @ [e]) u"
proof (cases e)
  case Visit
  with h session_explained_same [OF ex] show ?thesis by (simp add: handle_login_def)
next
  case (Authorize sid state nonce)
  from authorize_values [OF c, of sid state nonce t] h Authorize
  have "vals u = (vals t)(key_session_id := sid, key_state := state, key_nonce := nonce)" by auto
  with ex d Authorize logged_in_snoc [of conf prov es "vals t key_subject" e] show ?thesis
    by (auto simp: session_explained_def last_login_append drawn_names_def)
next
  case (Callback q code)
  with h have "handle_oauth2_callback c q code t = Inr (u, w, err)" by simp
  from callback_values [OF c this] consider "u = t"
    | raw tok claims where "vals t key_session_id \<noteq> []" "q = vals t key_state" "q \<noteq> []"
        "exchange_code prov conf code = Inr (Some raw)" "verify_token prov (client_id conf) raw = Inr tok"
        "token_nonce tok = vals t key_nonce" "decode_claims (token_payload tok) = Inr claims"
        "vals u = (vals t)(key_state := [], key_email := claims_email claims, key_subject := claims_sub claims,
                           key_id_token := raw)"
    by blast
  then show ?thesis
  proof cases
    case 1
    with session_explained_same [OF ex] Callback show ?thesis by simp
  next
    case 2
    with ex Callback have "proves_login conf prov es e (claims_sub claims)"
      by (auto simp: proves_login_def session_explained_def)
    then have "logged_in conf prov (es @ [e]) (claims_sub claims)" unfolding logged_in_def by fastforce
    with 2 show ?thesis by (simp add: session_explained_def)
  qed
next
  case SignOut
  with logout_event_values [OF c] h have "if vals t key_session_id = [] then u = t else vals u = (\<lambda>_. [])" by simp
  then show ?thesis
    using session_explained_same [OF ex, of SignOut] SignOut
    by (cases "vals t key_session_id = []") (auto simp: session_explained_def)
qed

lemma reached_explained:
  assumes "oidc_reaches c s es t" and "login_client c conf prov m vals"
    and "vals s key_subject = []" and "vals s key_state = []" and "drawn_names es"
  shows "session_explained conf prov vals es t"
  using assms(1,5)
proof (induction rule: oidc_reaches.induct)
  case reach_start
  with assms show ?case by (simp add: session_explained_def)
next
  case (reach_event es t e u w)
  then show ?case
    using event_keeps_explained [OF assms(2)] error_handling_Inr by (fastforce simp: drawn_names_def)
qed

lemma session_scope_values:
  "login_client c conf prov m vals \<Longrightarrow>
   handle_session_scope c page t =
     Inr (if vals t key_subject \<noteq> [] then page else http_redirect ''/'' 307 no_response)"
  by (auto simp: handle_session_scope_def login_client_def go_deref_def validate_session_values)

section \<open>Properties\<close>

text \<open>Property C15.  With the login switched on a protected page is served only to a session with a subject, and
  whatever requests the browser has sent, that subject was proved by one of them and no logout came after it: a
  callback with the state of the last login started before it, whose code gave a verified ID token with the nonce of
  that login and this subject.\<close>

theorem login_proves_identity:
  assumes "login_client c conf prov m vals" and "vals s key_subject = []" and "vals s key_state = []"
    and "oidc_reaches c s es t" and "drawn_names es"
  shows "handle_session_scope c page t =
      Inr (if vals t key_subject \<noteq> [] then page else http_redirect ''/'' 307 no_response) \<and>
    (vals t key_subject \<noteq> [] \<longrightarrow> logged_in conf prov es (vals t key_subject))"
  using session_scope_values [OF assms(1)] reached_explained [OF assms(4,1-3,5)]
  by (simp add: session_explained_def)

text \<open>A client over sessions as maps, with a provider that knows one code and one token.\<close>

definition sample_claims :: "json_value go_map" where
  "sample_claims = [(''sub'', JString ''alice''), (''email'', JString ''alice@example.com''),
     (''aud'', JArray [JString ''client'']), (''exp'', JInteger 1700000000)]"

definition sample_provider :: oidc_provider where
  "sample_provider =
     \<lparr>auth_code_url = (\<lambda>conf state nonce. ''https://op/auth?state='' @ state @ ''&nonce='' @ nonce),
      exchange_code = (\<lambda>conf code. if code = ''c0de'' then Inr (Some ''id.tok.en'') else Inl (Error ''invalid_grant'')),
      verify_token = (\<lambda>cid raw. Inr \<lparr>token_nonce = ''n1'', token_payload = sample_claims\<rparr>)\<rparr>"

definition sample_config :: oauth_config where
  "sample_config = \<lparr>client_id = ''client'', client_secret = ''secret'', redirect_url = ''/redirect'', oauth_scopes = [''openid'']\<rparr>"

definition sample_manager :: "string go_map session_manager" where
  "sample_manager = \<lparr>scs = map_sessions, login_enabled = True\<rparr>"

definition sample_client :: "string go_map oidc_client" where
  "sample_client =
     \<lparr>client_config = Some sample_config, oidc_service = Some sample_provider, login_path = ''/'',
      auth_path = ''/authorize'', logout_path = ''/logout'', oidc_enabled = True,
      session_handler = Some sample_manager, main_page = [], oidc_name = ''OpenID Login''\<rparr>"

lemma sample_login_client:
  "login_client sample_client sample_config sample_provider sample_manager
     (\<lambda>s k. case map_of s k of None \<Rightarrow> [] | Some v \<Rightarrow> v)"
  using map_sessions_ok by (simp add: login_client_def sample_client_def sample_manager_def)

lemma login_proves_identity_witness:
  "\<exists>t page. oidc_reaches sample_client [] [Authorize ''s1'' ''st1'' ''n1'', Callback ''st1'' ''c0de''] t \<and>
     handle_session_scope sample_client page t = Inr page \<and> page \<noteq> http_redirect ''/'' 307 no_response \<and>
     logged_in sample_config sample_provider [Authorize ''s1'' ''st1'' ''n1'', Callback ''st1'' ''c0de''] ''alice''"
proof -
  let ?es = "[Authorize ''s1'' ''st1'' ''n1'', Callback ''st1'' ''c0de'']"
  let ?vals = "\<lambda>s k. case map_of s k of None \<Rightarrow> [] | Some v \<Rightarrow> v"
  let ?page = "no_response\<lparr>web_status := Some 200\<rparr>"
  let ?s1 = "[(''session-id'', ''s1''), (''hexa-state'', ''st1''), (''hexa-nonce'', ''n1'')]"
  let ?s2 = "[(''session-id'', ''s1''), (''hexa-nonce'', ''n1''), (''email'', ''alice@example.com''),
    (''sub'', ''alice''), (''idtoken'', ''id.tok.en'')]"
  note defs = error_handling_def sample_client_def sample_manager_def map_sessions_def sample_config_def
    sample_provider_def go_deref_def session_keys
  have 1: "\<exists>w. error_handling (handle_event sample_client (Authorize ''s1'' ''st1'' ''n1'')) [] = Inr (?s1, w)"
    by (simp add: defs handle_authorize_def start_login_def)
  have "decode_claims sample_claims = Inr \<lparr>claims_iss = [], claims_sub = ''alice'', claims_aud = Some [''client''],
    claims_exp = 1700000000, claims_iat = 0, claims_nonce = [], claims_email = ''alice@example.com''\<rparr>"
    by (simp add: decode_claims_def text_claim_def texts_claim_def int32_claim_def sample_claims_def text_item_def)
  then have 2: "\<exists>w. error_handling (handle_event sample_client (Callback ''st1'' ''c0de'')) ?s1 = Inr (?s2, w)"
    by (simp add: defs handle_oauth2_callback_def login_state_def check_id_token_def finish_login_def
        store_login_session_def)
  from 1 2 have r: "oidc_reaches sample_client [] ?es ?s2"
    using reach_event [OF reach_event [OF reach_start], of sample_client _ "[]" _ _ "Callback ''st1'' ''c0de''" ?s2]
    by fastforce
  have "drawn_names ?es" by (simp add: drawn_names_def)
  from login_proves_identity [OF sample_login_client _ _ r this, of ?page]
  have "handle_session_scope sample_client ?page ?s2 = Inr ?page \<and> logged_in sample_config sample_provider ?es ''alice''"
    by (simp add: session_keys)
  moreover have "?page \<noteq> http_redirect ''/'' 307 no_response"
    by (simp add: http_redirect_def write_header_def no_response_def)
  ultimately show ?thesis using r by blast
qed

text \<open>Property C26.  A login that is started and called back with its state, a good code and a token with its nonce
  ends in a session with the claims of the token, and its state cannot be used again.\<close>

theorem login_flow_completes:
  assumes c: "login_client c conf prov m vals" and "sid \<noteq> []" and "state \<noteq> []" and "nonce \<noteq> []"
    and "exchange_code prov conf code = Inr (Some raw)" and "verify_token prov (client_id conf) raw = Inr tok"
    and "token_nonce tok = nonce" and "decode_claims (token_payload tok) = Inr claims"
  shows "\<exists>t u. error_handling (handle_authorize c sid state nonce) s =
      Inr (t, http_redirect (auth_code_url prov conf state nonce) 302 no_response) \<and>
    error_handling (handle_oauth2_callback c state code) t =
      Inr (u, http_redirect (or_default (main_page c) ''/integrations'') 307 no_response) \<and>
    current_session m u = Inr \<lparr>session_email = claims_email claims, session_sub = claims_sub claims,
      session_name = sid, session_token = raw\<rparr> \<and>
    error_handling (handle_oauth2_callback c state code') u =
      Inr (u, \<lparr>web_status = Some 400, web_location = None, web_error = Some (''session state missing on redirect'',
        ''Invalid session state/nonce detected, check cookie settings and try again.'')\<rparr>)"
proof -
  from c have m: "scs_sessions (scs m) vals" and sm: "session_handler c = Some m" "client_config c = Some conf"
    "oidc_service c = Some prov" by (simp_all add: login_client_def)
  from authorize_values [OF c, of sid state nonce s] obtain t where
    t: "handle_authorize c sid state nonce s =
      Inr (t, http_redirect (auth_code_url prov conf state nonce) 302 no_response, None)"
    and vt: "vals t = (vals s)(key_session_id := sid, key_state := state, key_nonce := nonce)" by blast
  from store_login_values [OF m, of raw "claims_email claims" "claims_sub claims" t] obtain u where
    u: "store_login_session m raw (claims_email claims) (claims_sub claims) t = Inr u"
    and vu: "vals u = (vals t)(key_state := [], key_email := claims_email claims, key_subject := claims_sub claims,
      key_id_token := raw)" by blast
  have "handle_oauth2_callback c state code t =
      Inr (u, http_redirect (or_default (main_page c) ''/integrations'') 307 no_response, None)"
    using assms u by (simp add: handle_oauth2_callback_def sm go_deref_def login_state_values [OF m] vt
        check_id_token_def finish_login_def or_default_def)
  moreover have "current_session m u = Inr \<lparr>session_email = claims_email claims, session_sub = claims_sub claims,
      session_name = sid, session_token = raw\<rparr>"
    using assms(2) by (simp add: current_session_values [OF m] vu vt)
  moreover have "error_handling (handle_oauth2_callback c state code') u =
      Inr (u, \<lparr>web_status = Some 400, web_location = None, web_error = Some (''session state missing on redirect'',
        ''Invalid session state/nonce detected, check cookie settings and try again.'')\<rparr>)"
    by (simp add: error_handling_def handle_oauth2_callback_def sm go_deref_def login_state_values [OF m] vu vt
        refuse_def annotate_error_def write_header_def no_response_def)
  ultimately show ?thesis using t by (auto simp: error_handling_def)
qed

lemma login_flow_completes_witness:
  "\<exists>t u. error_handling (handle_authorize sample_client ''s1'' ''st1'' ''n1'') [] = Inr (t,
      http_redirect ''https://op/auth?state=st1&nonce=n1'' 302 no_response) \<and>
    current_session sample_manager u = Inr \<lparr>session_email = ''alice@example.com'', session_sub = ''alice'',
      session_name = ''s1'', session_token = ''id.tok.en''\<rparr>"
proof -
  have "decode_claims sample_claims = Inr \<lparr>claims_iss = [], claims_sub = ''alice'', claims_aud = Some [''client''],
    claims_exp = 1700000000, claims_iat = 0, claims_nonce = [], claims_email = ''alice@example.com''\<rparr>"
    by (simp add: decode_claims_def text_claim_def texts_claim_def int32_claim_def sample_claims_def text_item_def)
  then show ?thesis
    using login_flow_completes [OF sample_login_client, of "''s1''" "''st1''" "''n1''" "''c0de''" "''id.tok.en''"
        "\<lparr>token_nonce = ''n1'', token_payload = sample_claims\<rparr>", where s = "[]"]
    by (fastforce simp: sample_provider_def)
qed

text \<open>A token whose audience is a single text, as RFC 7519 allows, is refused after it was verified.\<close>

lemma single_audience_refused:
  assumes "map_of payload ''aud'' = Some (JString a)"
  shows "\<exists>e. decode_claims payload = Inl (Error e) \<or> decode_claims payload = Inl (Panic e)"
  using assms
  by (auto simp: decode_claims_def texts_claim_def claim_mismatch_def text_claim_def rbind_def
      split: option.splits json_value.splits sum.splits)

text \<open>Without a session a logout is a redirection and an error at once.\<close>

lemma logout_without_session:
  assumes "login_client c conf prov m vals" and "vals s key_session_id = []"
  shows "error_handling (handle_logout c) s = Inr (s, \<lparr>web_status = Some 307, web_location = Some ''/'',
    web_error = Some (''session id session-id not found'', ''Something went wrong! Please try again.'')\<rparr>)"
  using assms
  by (auto simp: error_handling_def handle_logout_def login_client_def go_deref_def current_session_values
      http_redirect_def write_header_def no_response_def)

text \<open>A login that is switched on and not configured ends in the disabled client, which protects no page.\<close>

lemma misconfigured_login_protects_nothing:
  assumes "new_oidc_client env prov disabled sessions = Inr (d, c, Some e)" and "\<not> oidc_enabled disabled"
  shows "handle_session_scope c page s = Inr page"
proof -
  from assms(1) have "c = disabled" by (auto simp: new_oidc_client_def Let_def split: if_splits sum.splits fault.splits)
  with assms(2) show ?thesis by (simp add: handle_session_scope_def)
qed

end
