(* ===== verification/Cognito_Provider.thy ===== *)
theory Cognito_Provider
  imports Provider_Runs Async_Process
begin

text \<open>
  The provider for Amazon Cognito: the client (\<^verbatim>\<open>providers/aws/awscognito/cognito_client.go\<close>), whose
  groups of users stand for policies, and the provider (\<^verbatim>\<open>cognitoProvider/cognito_provider.go\<close>).

  The service is a parameter, in a state \<open>'s\<close>; a name it may leave out is an option.  The addresses of
  the users are looked up in goroutines: \<open>gather\<close> stands for the order in which they happen to be
  answered, one of those that \<open>process_async\<close> allows.  The listings are the first page of the service.
\<close>

section \<open>Data\<close>

record user_pool =
  pool_id :: "string option"
  pool_name :: "string option"

record resource_server =
  server_pool :: "string option"
  server_name :: "string option"
  server_identifier :: "string option"

type_synonym user_attributes = "(string option \<times> string option) list"

record 's cognito_service =
  cg_pools :: "'s \<Rightarrow> user_pool list res"
  cg_servers :: "'s \<Rightarrow> string \<Rightarrow> resource_server list res"
  cg_groups :: "'s \<Rightarrow> string \<Rightarrow> (string option \<times> string option) list res"
  cg_group_users :: "'s \<Rightarrow> string \<Rightarrow> string \<Rightarrow> string option list res"
  cg_user :: "'s \<Rightarrow> string \<Rightarrow> string option \<Rightarrow> user_attributes res"
  cg_list_users :: "'s \<Rightarrow> string \<Rightarrow> string \<Rightarrow> string option list res"
  cg_add :: "'s \<Rightarrow> string \<Rightarrow> string \<Rightarrow> string \<Rightarrow> 's \<times> unit res"
  cg_remove :: "'s \<Rightarrow> string \<Rightarrow> string \<Rightarrow> string \<Rightarrow> 's \<times> unit res"

type_synonym gathering = "string option list \<Rightarrow> (string option \<Rightarrow> string res) \<Rightarrow> string list"

definition aws_text :: "string option \<Rightarrow> string" where
  "aws_text s = (case s of None \<Rightarrow> [] | Some t \<Rightarrow> t)"

text \<open>\<open>strings.Cut\<close>.\<close>

definition cut_str :: "string \<Rightarrow> string \<Rightarrow> (string \<times> string) option" where
  "cut_str s sep =
     (case index_str s sep of None \<Rightarrow> None | Some i \<Rightarrow> Some (take i s, drop (i + length sep) s))"

section \<open>The client\<close>

text \<open>The resource servers of the pools, a server being an application.\<close>

definition pool_applications :: "user_pool \<Rightarrow> resource_server \<Rightarrow> application_info res" where
  "pool_applications p rs =
     rbind (go_deref (server_pool rs)) (\<lambda>pid.
     rbind (go_deref (server_name rs)) (\<lambda>name.
     rbind (go_deref (pool_name p)) (\<lambda>pname.
     rbind (go_deref (server_identifier rs)) (\<lambda>ident.
       Inr \<lparr>object_id = pid, app_name = name,
            app_description = ''Resource: '' @ name @ '', UserPool: '' @ pname, app_service = ident\<rparr>))))"

definition list_user_pools :: "'s cognito_service \<Rightarrow> 's \<Rightarrow> application_info list res" where
  "list_user_pools cg s =
     rbind (cg_pools cg s) (\<lambda>pools.
     rbind (mapM (\<lambda>p.
       rbind (go_deref (pool_id p)) (\<lambda>pid.
       rbind (cg_servers cg s pid) (\<lambda>servers. mapM (pool_applications p) servers))) pools) (\<lambda>apps.
         Inr (concat apps)))"

definition get_groups :: "'s cognito_service \<Rightarrow> 's \<Rightarrow> string \<Rightarrow> string go_map res" where
  "get_groups cg s pool =
     rbind (cg_groups cg s pool) (\<lambda>gs.
       Inr (foldl (\<lambda>m (n, d). AList.update (aws_text n) (aws_text d) m) [] gs))"

definition user_separator :: string where "user_separator = ''-:::-''"

text \<open>The function \<open>ProcessAsync\<close> applies to every user: its name and address in one text.\<close>

definition user_with_email :: "'s cognito_service \<Rightarrow> 's \<Rightarrow> string \<Rightarrow> string option \<Rightarrow> string res" where
  "user_with_email cg s pool user =
     rbind (cg_user cg s pool user) (\<lambda>attrs.
       case List.find (\<lambda>(n, v). aws_text n = ''email'') attrs of
         None \<Rightarrow> Inl (Error (''email attribute not found for username '' @ aws_text user))
       | Some (n, v) \<Rightarrow> Inr (aws_text user @ user_separator @ aws_text v))"

definition unpack_users :: "string list \<Rightarrow> string go_map" where
  "unpack_users us =
     foldl (\<lambda>m u. case cut_str u user_separator of None \<Rightarrow> m | Some (n, e) \<Rightarrow> AList.update n e m) [] us"

definition list_users_in_group ::
  "'s cognito_service \<Rightarrow> gathering \<Rightarrow> 's \<Rightarrow> string \<Rightarrow> string \<Rightarrow> string go_map res" where
  "list_users_in_group cg gather s grp pool =
     rbind (cg_group_users cg s pool grp) (\<lambda>us.
       Inr (unpack_users (gather us (user_with_email cg s pool))))"

definition get_members_assigned ::
  "'s cognito_service \<Rightarrow> gathering \<Rightarrow> 's \<Rightarrow> application_info \<Rightarrow> string \<Rightarrow> string list res" where
  "get_members_assigned cg gather s appl grp =
     rbind (list_users_in_group cg gather s grp (object_id appl)) (\<lambda>m.
       Inr (map (\<lambda>(n, e). ''user:'' @ e) m))"

definition principal_from_email :: "'s cognito_service \<Rightarrow> 's \<Rightarrow> string \<Rightarrow> string \<Rightarrow> string res" where
  "principal_from_email cg s pool email =
     rbind (cg_list_users cg s pool (''email='' @ [dq] @ email @ [dq])) (\<lambda>us.
       case us of
         [] \<Rightarrow> Inl (Error (''user not found for email='' @ email))
       | u # _ \<Rightarrow> go_deref u)"

text \<open>The users the subjects of a policy stand for; one whose lookup fails is left out.\<close>

definition wanted_user :: "'s cognito_service \<Rightarrow> 's \<Rightarrow> string \<Rightarrow> string go_map \<Rightarrow> string \<Rightarrow> string go_map res" where
  "wanted_user cg s pool m mem =
     rbind (go_index (split_str mem '':'') 1) (\<lambda>email.
       case principal_from_email cg s pool email of
         Inl (Panic e) \<Rightarrow> Inl (Panic e)
       | Inl (Error e) \<Rightarrow> Inr m
       | Inr user \<Rightarrow> Inr (AList.update user email m))"

definition wanted_users :: "'s cognito_service \<Rightarrow> 's \<Rightarrow> string \<Rightarrow> string list \<Rightarrow> string go_map res" where
  "wanted_users cg s pool members = foldM (wanted_user cg s pool) [] members"

definition elements_not_in :: "string go_map \<Rightarrow> string go_map \<Rightarrow> string list" where
  "elements_not_in els look_in =
     map fst (filter (\<lambda>(k, _). case map_of look_in k of None \<Rightarrow> True | Some v \<Rightarrow> v = []) els)"

definition set_groups_assigned ::
  "'s cognito_service \<Rightarrow> gathering \<Rightarrow> string \<Rightarrow> string list \<Rightarrow> application_info \<Rightarrow> ('s, unit) run" where
  "set_groups_assigned cg gather grp members appl =
     run_bind (read_run 500 (\<lambda>s. list_users_in_group cg gather s grp (object_id appl))) (\<lambda>existing.
     run_bind (read_run 500 (\<lambda>s. wanted_users cg s (object_id appl) members)) (\<lambda>wanted.
     run_bind (run_all (\<lambda>u. request 500 (\<lambda>s. cg_remove cg s (object_id appl) grp u))
       (elements_not_in existing wanted)) (\<lambda>_.
       run_all (\<lambda>u. request 500 (\<lambda>s. cg_add cg s (object_id appl) grp u)) (elements_not_in wanted existing))))"

section \<open>The provider\<close>

text \<open>The client, when the key of the integration is one, and why not otherwise.\<close>

type_synonym 's cognito_connect = "string \<Rightarrow> 's cognito_service res"

definition discover_cognito :: "'s cognito_connect \<Rightarrow> 's \<Rightarrow> integration_info \<Rightarrow> application_info list res" where
  "discover_cognito connect s info =
     (if \<not> equal_fold (integration_name info) ''cognito'' then Inr []
      else rbind (connect (integration_key info)) (\<lambda>cg. list_user_pools cg s))"

definition group_policy :: "application_info \<Rightarrow> string \<Rightarrow> string list \<Rightarrow> policy_info" where
  "group_policy appl grp members =
     \<lparr>meta = \<lparr>meta_version = ''0.7'', source_data = None, description = [], created = None, modified = None,
              etag = [], policy_id = None, pap_id = None, provider_type = ''cognito''\<rparr>,
      subjects = Some members, actions = Some [grp], object_info = app_name appl, condition = None, scope = None\<rparr>"

definition cognito_get_policy_info ::
  "'s cognito_connect \<Rightarrow> gathering \<Rightarrow> 's \<Rightarrow> integration_info \<Rightarrow> application_info \<Rightarrow> policy_info list res" where
  "cognito_get_policy_info connect gather s info appl =
     rbind (connect (integration_key info)) (\<lambda>cg.
     rbind (get_groups cg s (object_id appl)) (\<lambda>groups.
       mapM (\<lambda>(g, _). rbind (get_members_assigned cg gather s appl g) (\<lambda>ms. Inr (group_policy appl g ms))) groups))"

definition cognito_set_policy ::
  "'s cognito_service \<Rightarrow> gathering \<Rightarrow> application_info \<Rightarrow> string go_map \<Rightarrow> policy_info \<Rightarrow> ('s, unit) run" where
  "cognito_set_policy cg gather appl groups p =
     run_bind (pure_run 500 (go_index (elems (actions p)) 0)) (\<lambda>g.
       if map_of groups g = None then pure_run 500 (Inr ())
       else set_groups_assigned cg gather g (elems (subjects p)) appl)"

definition cognito_set_policy_info ::
  "'s cognito_connect \<Rightarrow> gathering \<Rightarrow> arg_validator \<Rightarrow> integration_info \<Rightarrow> application_info \<Rightarrow>
   policy_info list \<Rightarrow> ('s, nat) run" where
  "cognito_set_policy_info connect gather v info appl ps =
     run_bind (pure_run 500 (validate_arguments v appl ps)) (\<lambda>_.
     run_bind (pure_run 500 (connect (integration_key info))) (\<lambda>cg.
     run_bind (read_run 500 (\<lambda>s. get_groups cg s (object_id appl))) (\<lambda>groups.
     run_bind (run_all (cognito_set_policy cg gather appl groups) ps) (\<lambda>_. pure_run 201 (Inr 201)))))"

end
