(* ===== verification/Cognito_Sync.thy ===== *)
theory Cognito_Sync
  imports Cognito_Provider
begin

text \<open>
  What the Cognito provider does to the groups of a user pool.  The service is known by its
  documentation only, stated in \<open>cognito_groups\<close> for a view of its state as the members of every group.
\<close>

section \<open>What the documentation of the service says\<close>

text \<open>
  Listing gives the members of a group, as long as they fit on one page; adding and removing a user
  changes the members of one group.  The goroutines answer in one of the possible orders.
\<close>

definition cognito_groups :: "'s cognito_service \<Rightarrow> string \<Rightarrow> ('s \<Rightarrow> string \<Rightarrow> string set) \<Rightarrow> bool" where
  "cognito_groups cg pool members \<longleftrightarrow>
     (\<forall>s g us. cg_group_users cg s pool g = Inr us \<longrightarrow> set us = Some ` members s g) \<and>
     (\<forall>s t g u. cg_add cg s pool g u = (t, Inr ()) \<longrightarrow> members t = (members s)(g := insert u (members s g))) \<and>
     (\<forall>s t g u. cg_remove cg s pool g u = (t, Inr ()) \<longrightarrow> members t = (members s)(g := members s g - {u}))"

definition gathers :: "gathering \<Rightarrow> bool" where
  "gathers gather \<longleftrightarrow> (\<forall>us f. process_async us f (gather us f))"

text \<open>A user with an address, a name the separator is found behind, and the users the subjects stand for.\<close>

definition has_email :: "'s cognito_service \<Rightarrow> 's \<Rightarrow> string \<Rightarrow> string \<Rightarrow> bool" where
  "has_email cg s pool u \<longleftrightarrow> (\<exists>t. user_with_email cg s pool (Some u) = Inr t)"

definition separable :: "string \<Rightarrow> bool" where
  "separable u \<longleftrightarrow> index_str (u @ user_separator) user_separator = Some (length u)"

definition resolved :: "'s cognito_service \<Rightarrow> 's \<Rightarrow> string \<Rightarrow> string list \<Rightarrow> string set" where
  "resolved cg s pool mems =
     {u. \<exists>mem \<in> set mems. 1 < length (split_str mem '':'') \<and>
        principal_from_email cg s pool (split_str mem '':'' ! 1) = Inr u}"

section \<open>Reading the members\<close>

lemma has_prefix_extend: "length p \<le> length s \<Longrightarrow> has_prefix (s @ t) p = has_prefix s p"
  by (simp add: has_prefix_def)

lemma index_str_append: "index_str s p = Some i \<Longrightarrow> index_str (s @ t) p = Some i"
proof (induction s arbitrary: i)
  case Nil
  then show ?case by (cases t) (auto simp: has_prefix_def split: if_splits)
next
  case (Cons c cs)
  then have "length p \<le> length (c # cs)" using index_str_bound by fastforce
  with Cons has_prefix_extend [of p "c # cs" t] show ?case by (auto split: if_splits)
qed

lemma cut_packed: "separable u \<Longrightarrow> cut_str (u @ user_separator @ e) user_separator = Some (u, e)"
  using index_str_append [of "u @ user_separator" user_separator "length u" e]
  by (simp add: separable_def cut_str_def)

lemma unpack_names: "fst ` set (unpack_users us) = {n. \<exists>u \<in> set us. \<exists>e. cut_str u user_separator = Some (n, e)}"
proof (induction us rule: rev_induct)
  case (snoc u us)
  then show ?case by (auto simp: unpack_users_def dom_update split: option.splits)
qed (simp add: unpack_users_def)

lemma gathered:
  assumes "gathers gather"
  shows "set (gather us f) = {t. \<exists>u \<in> set us. f u = Inr t}"
  by (rule async_set) (use assms in \<open>simp add: gathers_def\<close>)

lemma packed_user: "user_with_email cg s pool (Some u) = Inr t \<Longrightarrow> \<exists>e. t = u @ user_separator @ e"
  by (fastforce simp: user_with_email_def rbind_iff aws_text_def split: option.splits prod.splits)

lemma listed_users:
  assumes "cognito_groups cg pool members" and "gathers gather" and "\<forall>u \<in> members s g. separable u"
    and "list_users_in_group cg gather s g pool = Inr m"
  shows "fst ` set m = {u \<in> members s g. has_email cg s pool u}"
proof -
  from assms(4) obtain us where us: "cg_group_users cg s pool g = Inr us"
    and m: "m = unpack_users (gather us (user_with_email cg s pool))"
    by (auto simp: list_users_in_group_def rbind_iff)
  from assms(1) us have all: "set us = Some ` members s g" unfolding cognito_groups_def by blast
  have cut: "(\<exists>e. cut_str t user_separator = Some (n, e)) \<longleftrightarrow> n = u"
    if "user_with_email cg s pool (Some u) = Inr t" "u \<in> members s g" for n u t
    using packed_user [OF that(1)] cut_packed [of u] assms(3) that(2) by force
  have "n \<in> fst ` set m \<longleftrightarrow>
      (\<exists>u \<in> members s g. \<exists>t. user_with_email cg s pool (Some u) = Inr t \<and> (\<exists>e. cut_str t user_separator = Some (n, e)))" for n
    unfolding m unpack_names gathered [OF assms(2)] all by blast
  then have "n \<in> fst ` set m \<longleftrightarrow> n \<in> {u \<in> members s g. has_email cg s pool u}" for n
    unfolding has_email_def mem_Collect_eq using cut by metis
  then show ?thesis by blast
qed

section \<open>The users that are wanted\<close>

lemma wanted_users_resolved:
  assumes "wanted_users cg s pool mems = Inr w" and "\<forall>mem \<in> set mems. split_str mem '':'' ! 1 \<noteq> []"
  shows "fst ` set w = resolved cg s pool mems \<and> [] \<notin> snd ` set w \<and> go_map_ok w"
proof (rule foldM_invariant [OF assms(1) [unfolded wanted_users_def],
      where P = "\<lambda>ys w. fst ` set w = resolved cg s pool ys \<and> [] \<notin> snd ` set w \<and> go_map_ok w"])
  fix ys y u v
  assume P: "fst ` set u = resolved cg s pool ys \<and> [] \<notin> snd ` set u \<and> go_map_ok u"
    and y: "y \<in> set mems" and step: "wanted_user cg s pool u y = Inr v"
  let ?e = "split_str y '':'' ! 1"
  from step have l: "1 < length (split_str y '':'')" by (auto simp: wanted_user_def rbind_iff go_index_def split: if_splits)
  have res: "resolved cg s pool (ys @ [y]) =
      resolved cg s pool ys \<union> {u. principal_from_email cg s pool ?e = Inr u}"
    using l by (auto simp: resolved_def)
  show "fst ` set v = resolved cg s pool (ys @ [y]) \<and> [] \<notin> snd ` set v \<and> go_map_ok v"
  proof (cases "principal_from_email cg s pool ?e")
    case (Inl f)
    with step l have "v = u" by (cases f) (auto simp: wanted_user_def go_index_def)
    with P res Inl show ?thesis by simp
  next
    case (Inr name)
    with step l have v: "v = AList.update name ?e u" by (auto simp: wanted_user_def go_index_def)
    have "set v \<subseteq> insert (name, ?e) (set u)"
      unfolding v by (induction u) (auto split: if_splits)
    moreover have "?e \<noteq> []" using y assms(2) by (rule bspec [rotated])
    ultimately have "[] \<notin> snd ` set v" using P by force
    moreover have "fst ` set v = resolved cg s pool (ys @ [y])" using P Inr by (auto simp: v res dom_update)
    moreover have "go_map_ok v" using P by (simp add: v go_map_ok_update)
    ultimately show ?thesis by blast
  qed
qed (simp add: resolved_def)

lemma elements_not_in_set:
  "set (elements_not_in els look) = {k \<in> fst ` set els. map_of look k = None \<or> map_of look k = Some []}"
  by (force simp: elements_not_in_def split: option.splits)

section \<open>The two runs\<close>

lemma group_remove_runs:
  assumes "cognito_groups cg pool members" and "run_all (\<lambda>u. request 500 (\<lambda>s. cg_remove cg s pool g u)) us s = (t, Inr ())"
  shows "members t = (members s)(g := members s g - set us)"
proof (rule run_all_invariant [where P = "\<lambda>ys u. members u = (members s)(g := members s g - set ys)", OF assms(2)])
  fix ys y u v
  assume P: "members u = (members s)(g := members s g - set ys)"
    and step: "request 500 (\<lambda>s. cg_remove cg s pool g y) u = (v, Inr ())"
  from step assms(1) have "members v = (members u)(g := members u g - {y})"
    unfolding request_Inr cognito_groups_def by blast
  with P show "members v = (members s)(g := members s g - set (ys @ [y]))" by (auto simp: fun_eq_iff)
qed simp

lemma group_add_runs:
  assumes "cognito_groups cg pool members" and "run_all (\<lambda>u. request 500 (\<lambda>s. cg_add cg s pool g u)) us s = (t, Inr ())"
  shows "members t = (members s)(g := members s g \<union> set us)"
proof (rule run_all_invariant [where P = "\<lambda>ys u. members u = (members s)(g := members s g \<union> set ys)", OF assms(2)])
  fix ys y u v
  assume P: "members u = (members s)(g := members s g \<union> set ys)"
    and step: "request 500 (\<lambda>s. cg_add cg s pool g y) u = (v, Inr ())"
  from step assms(1) have "members v = (members u)(g := insert y (members u g))"
    unfolding request_Inr cognito_groups_def by blast
  with P show "members v = (members s)(g := members s g \<union> set (ys @ [y]))" by (auto simp: fun_eq_iff)
qed simp

section \<open>Properties\<close>


text \<open>A pool with one group, kept as a list, whose users but one have an address.\<close>

definition list_cognito :: "string list cognito_service" where
  "list_cognito = \<lparr>
     cg_pools = (\<lambda>_. Inr []), cg_servers = (\<lambda>_ _. Inr []), cg_groups = (\<lambda>_ _. Inr [(Some ''admins'', None)]),
     cg_group_users = (\<lambda>us _ g. Inr (if g = ''admins'' then map Some us else [])),
     cg_user = (\<lambda>_ _ u. Inr (if u = Some ''robot'' then [] else [(Some ''email'', Some (aws_text u @ ''(at)example.org''))])),
     cg_list_users = (\<lambda>_ _ f. Inr (if f = ''email='' @ [dq] @ ''bob(at)example.org'' @ [dq] then [Some ''bob''] else [])),
     cg_add = (\<lambda>us _ g u. if g = ''admins'' then (us @ [u], Inr ()) else (us, Inl (Error ''not found''))),
     cg_remove = (\<lambda>us _ g u. if g = ''admins'' then (removeAll u us, Inr ()) else (us, Inl (Error ''not found'')))\<rparr>"

lemma list_cognito_groups: "cognito_groups list_cognito pool (\<lambda>us g. if g = ''admins'' then set us else {})"
  by (auto simp: cognito_groups_def list_cognito_def fun_eq_iff split: if_splits)

definition sample_pool :: application_info where
  "sample_pool = \<lparr>object_id = ''pool'', app_name = ''photos'', app_description = [], app_service = []\<rparr>"


section \<open>Errors\<close>

text \<open>A member of the group is removed when the lookup of its address fails.\<close>

lemma failed_lookup_removes:
  assumes "wanted_users cg s pool [mem] = Inr w" and "principal_from_email cg s pool (split_str mem '':'' ! 1) = Inl (Error e)"
  shows "elements_not_in existing w = map fst existing"
proof -
  from assms have "w = []" by (auto simp: wanted_users_def wanted_user_def rbind_iff go_index_def split: if_splits)
  then show ?thesis by (simp add: elements_not_in_def case_prod_unfold)
qed

lemma cognito_any_panics:
  assumes "list_users_in_group cg gather s grp (object_id appl) = Inr m"
  shows "set_groups_assigned cg gather grp [''any''] appl s = (s, Inl (Crashed ''index out of range''))"
proof -
  have "split_str ''any'' '':'' = [''any'']" by (simp add: split_str_char_absent)
  with assms show ?thesis
    by (simp add: set_groups_assigned_def run_bind_def read_run_def wanted_users_def wanted_user_def go_index_def)
qed

lemma cognito_no_action_panics:
  "elems (actions p) = [] \<Longrightarrow>
   cognito_set_policy cg gather appl groups p s = (s, Inl (Crashed ''index out of range''))"
  by (simp add: cognito_set_policy_def run_bind_def pure_run_def go_index_def)

end
