(* ===== verification/Apigw_Provider.thy ===== *)
theory Apigw_Provider
  imports Rar_Model Cognito_Provider
begin

text \<open>
  The provider for the Amazon API gateway: the table of resources, actions and members in DynamoDB
  (\<^verbatim>\<open>providers/aws/awsapigwProvider/dynamodbpolicy\<close>), the service around it
  (\<^verbatim>\<open>aws_apigw_provider_service.go\<close>) and the provider (\<^verbatim>\<open>aws_apigw_provider.go\<close>).

  The database is a parameter, in a state \<open>'s\<close>: a scan gives the items as they are unmarshalled, or no
  output; an update replaces the members of one key.  The members of an item are a JSON array in a text.
\<close>

section \<open>JSON arrays of texts\<close>

text \<open>\<open>json.Unmarshal\<close> into a slice of texts, where a null is an empty text.\<close>

definition scan_text :: "string \<Rightarrow> (string \<times> string) option" where
  "scan_text s =
     (if has_prefix s [dq] then scan_string (drop 1 s)
      else if has_prefix s ''null'' then Some ([], drop 4 s) else None)"

function scan_texts :: "string \<Rightarrow> (string list \<times> string) option" where
  "scan_texts s =
     (case scan_text s of
        None \<Rightarrow> None
      | Some (t, r) \<Rightarrow>
          (case skip_ws r of
             [] \<Rightarrow> None
           | c # r1 \<Rightarrow>
               if c = CHR '']'' then Some ([t], r1)
               else if c = CHR '','' \<and> length (skip_ws r1) < length s
               then map_option (apfst ((#) t)) (scan_texts (skip_ws r1)) else None))"
  by pat_completeness auto
termination
  by (relation "measure length") auto

declare scan_texts.simps [simp del]

definition json_texts :: "string \<Rightarrow> string list res" where
  "json_texts s =
     (let t = skip_ws s; bad = Inl (Error ''json: cannot unmarshal into []string'') in
      if has_prefix t ''null'' \<and> skip_ws (drop 4 t) = [] then Inr []
      else if \<not> has_prefix t ''['' then bad
      else if has_prefix (skip_ws (drop 1 t)) '']'' then
        (if skip_ws (drop 1 (skip_ws (drop 1 t))) = [] then Inr [] else bad)
      else
        (case scan_texts (skip_ws (drop 1 t)) of
           None \<Rightarrow> bad
         | Some (xs, r) \<Rightarrow> if skip_ws r = [] then Inr xs else bad))"

section \<open>The table\<close>

record policy_item =
  item_resource :: string
  item_action :: string
  item_members :: string

record item_update =
  update_resource :: string
  update_action :: string
  update_members :: string

record 's dynamo_client =
  db_scan :: "'s \<Rightarrow> policy_item list res option res"
  db_update :: "'s \<Rightarrow> item_update \<Rightarrow> 's \<times> unit res"

definition members_value :: "string list \<Rightarrow> string" where
  "members_value members = marshal_strings (Some (sanitize_members members))"

definition update_item_input :: "rar \<Rightarrow> item_update res" where
  "update_item_input r =
     (if blank (rar_resource r) \<or> blank (rar_action r) then
        Inl (Error (''empty resource='' @ [CHR 0x27] @ rar_resource r @ [CHR 0x27] @ '' or action='' @ [CHR 0x27] @ rar_action r @ [CHR 0x27]))
      else Inr \<lparr>update_resource = trim_space (rar_resource r), update_action = trim_space (rar_action r),
                update_members = members_value (elems (rar_roles r))\<rparr>)"

definition item_to_rar :: "policy_item \<Rightarrow> rar res" where
  "item_to_rar item =
     rbind (json_texts (item_members item)) (\<lambda>ms.
       Inr (new_resource_action_roles (item_resource item) (item_action item) ms))"

text \<open>An output may be missing, and its items may fail to be unmarshalled.\<close>

definition get_resource_roles :: "'s dynamo_client \<Rightarrow> 's \<Rightarrow> rar list res" where
  "get_resource_roles db s =
     rbind (db_scan db s) (\<lambda>output.
       case output of
         None \<Rightarrow> Inl (Error ''scan returned nil output or empty results'')
       | Some items \<Rightarrow>
           rbind items (\<lambda>items.
             if items = [] then Inl (Error ''scan returned nil output or empty results'')
             else mapM item_to_rar items))"

definition update_resource_role :: "'s dynamo_client \<Rightarrow> rar \<Rightarrow> ('s, unit) run" where
  "update_resource_role db r =
     run_bind (pure_run 502 (update_item_input r)) (\<lambda>input. request 502 (\<lambda>s. db_update db s input))"

section \<open>The service\<close>

definition apigw_get_policies :: "'s dynamo_client \<Rightarrow> 's \<Rightarrow> policy_info list res" where
  "apigw_get_policies db s = rbind (get_resource_roles db s) (\<lambda>rars. Inr (build_policies rars))"

definition apigw_set_policies :: "'s dynamo_client \<Rightarrow> policy_info list \<Rightarrow> ('s, nat) run" where
  "apigw_set_policies db ps =
     run_bind (read_run 502 (get_resource_roles db)) (\<lambda>rars.
     run_bind (run_all (update_resource_role db) (calc_updates rars ps)) (\<lambda>_. pure_run 201 (Inr 201)))"

text \<open>The earlier version, which is not called any more: policies as groups of users.\<close>

definition apigw_set_policies_old ::
  "'s cognito_service \<Rightarrow> gathering \<Rightarrow> application_info \<Rightarrow> policy_info list \<Rightarrow> ('s, nat) run" where
  "apigw_set_policies_old cg gather appl ps =
     run_bind (read_run 500 (\<lambda>s. get_groups cg s (object_id appl))) (\<lambda>groups.
     run_bind (run_all (cognito_set_policy cg gather appl groups) ps) (\<lambda>_. pure_run 201 (Inr 201)))"

section \<open>The provider\<close>

text \<open>The two clients, given or made from the key.\<close>

type_synonym 's apigw_service = "'s cognito_service \<times> 's dynamo_client"

record 's apigw_provider =
  apigw_override :: "'s apigw_service option"
  connect_cognito :: "string \<Rightarrow> 's cognito_service res"
  connect_dynamo :: "string \<Rightarrow> 's dynamo_client res"

definition provider_service :: "'s apigw_provider \<Rightarrow> string \<Rightarrow> 's apigw_service res" where
  "provider_service a key =
     (case apigw_override a of
        Some svc \<Rightarrow> Inr svc
      | None \<Rightarrow>
          rbind (connect_cognito a key) (\<lambda>cg. rbind (connect_dynamo a key) (\<lambda>db. Inr (cg, db))))"

definition discover_apigw :: "'s apigw_provider \<Rightarrow> 's \<Rightarrow> integration_info \<Rightarrow> application_info list res" where
  "discover_apigw a s info =
     (if \<not> equal_fold (integration_name info) ''awsapigw''
      then Inl (Error ''integration instance name and credential name do not match'')
      else rbind (provider_service a (integration_key info)) (\<lambda>(cg, db). list_user_pools cg s))"

definition apigw_get_policy_info :: "'s apigw_provider \<Rightarrow> 's \<Rightarrow> integration_info \<Rightarrow> policy_info list res" where
  "apigw_get_policy_info a s info =
     rbind (provider_service a (integration_key info)) (\<lambda>(cg, db). apigw_get_policies db s)"

text \<open>When the service cannot be made, its error is not returned.\<close>

definition apigw_set_policy_info ::
  "'s apigw_provider \<Rightarrow> arg_validator \<Rightarrow> integration_info \<Rightarrow> application_info \<Rightarrow> policy_info list \<Rightarrow> ('s, nat) run" where
  "apigw_set_policy_info a v info appl ps =
     run_bind (pure_run 500 (validate_arguments v appl ps)) (\<lambda>_.
       case provider_service a (integration_key info) of
         Inl (Panic e) \<Rightarrow> pure_run 502 (Inl (Panic e))
       | Inl (Error e) \<Rightarrow> pure_run 502 (Inr 502)
       | Inr (cg, db) \<Rightarrow> apigw_set_policies db ps)"

section \<open>Arrays that were written are read\<close>

lemma skip_ws_dq [simp]: "skip_ws (dq # s) = dq # s"
  by (simp add: skip_ws_def json_space_def)

lemma scan_texts_marshal:
  "xs \<noteq> [] \<Longrightarrow> scan_texts (join_str (map marshal_string xs) '','' @ CHR '']'' # r) = Some (xs, r)"
proof (induction xs rule: induct_list012)
  case (2 x)
  have "scan_text (marshal_string x @ CHR '']'' # r) = Some (x, CHR '']'' # r)"
    using scan_string_marshal [of x "CHR '']'' # r"] by (simp add: scan_text_def marshal_string_def has_prefix_def)
  then show ?case by (subst scan_texts.simps) (simp add: skip_ws_def json_space_def)
next
  case (3 x y xs)
  let ?rest = "join_str (map marshal_string (y # xs)) '','' @ CHR '']'' # r"
  have "scan_text (marshal_string x @ CHR '','' # ?rest) = Some (x, CHR '','' # ?rest)"
    using scan_string_marshal [of x "CHR '','' # ?rest"] by (simp add: scan_text_def marshal_string_def has_prefix_def)
  moreover have "skip_ws ?rest = ?rest" by (cases xs) (simp_all add: marshal_string_def)
  moreover have "skip_ws (CHR '','' # ?rest) = CHR '','' # ?rest" by (simp add: skip_ws_def json_space_def)
  moreover have "length ?rest < length (marshal_string x @ CHR '','' # ?rest)" by simp
  ultimately have "scan_texts (marshal_string x @ CHR '','' # ?rest) = map_option (apfst ((#) x)) (scan_texts ?rest)"
    by (subst scan_texts.simps) simp
  with 3 show ?case by simp
qed simp

lemma json_texts_marshal: "json_texts (marshal_strings (Some xs)) = Inr xs"
proof (cases "xs = []")
  case True
  then show ?thesis by (simp add: json_texts_def marshal_strings_def skip_ws_def json_space_def has_prefix_def Let_def)
next
  case False
  have "skip_ws (join_str (map marshal_string xs) '','' @ CHR '']'' # []) = join_str (map marshal_string xs) '','' @ CHR '']'' # []"
    using False by (cases xs rule: remdups_adj.cases) (simp_all add: marshal_string_def)
  moreover have "\<not> has_prefix (join_str (map marshal_string xs) '','' @ CHR '']'' # []) '']''"
    using False by (cases xs rule: remdups_adj.cases) (simp_all add: marshal_string_def has_prefix_def)
  moreover have "skip_ws (CHR ''['' # s) = CHR ''['' # s" for s by (simp add: skip_ws_def json_space_def)
  ultimately show ?thesis
    using scan_texts_marshal [OF False, of "[]"]
    by (simp add: json_texts_def marshal_strings_def Let_def has_prefix_def) (simp add: skip_ws_def)
qed

end
