(* ===== verification/Apigw_Sync.thy ===== *)
theory Apigw_Sync
  imports Apigw_Provider
begin

text \<open>
  What the API gateway provider does to its table.  The database is known by its documentation only,
  stated in \<open>dynamo_table\<close> for a view of its state as the members of every resource and action.
\<close>

section \<open>What the documentation of the database says\<close>

text \<open>A scan gives every item of the table, whose keys differ; an update sets the members of its key.\<close>

definition item_key :: "policy_item \<Rightarrow> string \<times> string" where
  "item_key i = (item_resource i, item_action i)"

definition dynamo_table :: "'s dynamo_client \<Rightarrow> ('s \<Rightarrow> string \<times> string \<rightharpoonup> string) \<Rightarrow> bool" where
  "dynamo_table db table \<longleftrightarrow>
     (\<forall>s items. db_scan db s = Inr (Some (Inr items)) \<longrightarrow>
        distinct (map item_key items) \<and> table s = map_of (map (\<lambda>i. (item_key i, item_members i)) items)) \<and>
     (\<forall>s t u. db_update db s u = (t, Inr ()) \<longrightarrow>
        table t = (table s)((update_resource u, update_action u) \<mapsto> update_members u))"

text \<open>A resource and an action as the model writes them, and the members stored for them.\<close>

definition stored_key :: "string \<times> string \<Rightarrow> bool" where
  "stored_key k \<longleftrightarrow> snd k \<in> set http_methods \<and> fst k \<noteq> [] \<and> hd (fst k) = CHR ''/'' \<and> plain_resource (tl (fst k))"

definition stored_roles :: "(string \<times> string \<rightharpoonup> string) \<Rightarrow> string \<times> string \<Rightarrow> string set" where
  "stored_roles T k =
     (case T k of
        None \<Rightarrow> {}
      | Some t \<Rightarrow> (case json_texts t of Inl _ \<Rightarrow> {} | Inr ms \<Rightarrow> set (sanitize_members ms)))"

definition stored_policies :: "policy_info list \<Rightarrow> bool" where
  "stored_policies ps \<longleftrightarrow>
     (\<forall>p \<in> set ps. (\<forall>a \<in> set (elems (actions p)). \<exists>m. a = action_uri_prefix @ m \<and> stored_key (object_info p, m)) \<and>
        (\<forall>x \<in> set (elems (subjects p)). trim_space x = x))"

section \<open>Names and keys\<close>

lemma trim_space_ends: "trim_space s = [] \<or> (\<not> is_space (hd (trim_space s)) \<and> \<not> is_space (last (trim_space s)))"
proof (cases "trim_space s = []")
  case False
  let ?d = "dropWhile is_space s"
  from False have r: "dropWhile is_space (rev ?d) \<noteq> []" by (simp add: trim_space_def)
  then have "last (trim_space s) = hd (dropWhile is_space (rev ?d))" by (simp add: trim_space_def last_rev)
  with hd_dropWhile [OF r] have l: "\<not> is_space (last (trim_space s))" by simp
  have "?d \<noteq> []"
  proof
    assume "?d = []"
    with r show False by simp
  qed
  then have h: "\<not> is_space (hd ?d)" by (rule hd_dropWhile)
  have "\<exists>xs. ?d = trim_space s @ xs"
    using takeWhile_dropWhile_id [of is_space "rev ?d"] by (metis rev_append rev_rev_ident trim_space_def)
  then have "hd (trim_space s) = hd ?d" using False by (metis hd_append)
  with h l show ?thesis by simp
qed simp

lemma trim_space_idem: "trim_space (trim_space s) = trim_space s"
  using trim_space_ends by (rule trim_space_id)

lemma sanitized: "x \<in> set (sanitize_members ms) \<Longrightarrow> \<not> blank x \<and> trim_space x = x"
  by (auto simp: sanitize_members_def blank_def trim_space_idem)

lemma sanitize_id: "\<forall>x \<in> set xs. \<not> blank x \<and> trim_space x = x \<Longrightarrow> sanitize_members xs = xs"
  by (induction xs) (auto simp: sanitize_members_def)

lemma named_sanitized: "named (sanitize_members ms) = set (sanitize_members ms)"
  using sanitized by (auto simp: named_def)

lemma stored_key_fields:
  assumes "stored_key (r, m)"
  shows "new_rar r m ms = \<lparr>rar_action = m, rar_resource = r, rar_roles = Some (sanitize_members ms)\<rparr>"
    and "trim_space r = r" and "trim_space m = m" and "\<not> blank r" and "\<not> blank m"
    and "get_http_method m [] = m" and "get_http_method (action_uri_prefix @ m) action_uri_prefix = m" and "m \<noteq> []"
proof -
  from assms obtain b where r: "r = CHR ''/'' # b" and b: "plain_resource b" and m: "m \<in> set http_methods"
    by (cases r) (auto simp: stored_key_def)
  have tb: "trim_space b = b" "b \<noteq> []" using b by (simp_all add: plain_resource_def)
  then have "\<not> is_space (last b)" using trim_space_ends [of b] by simp
  then show tr: "trim_space r = r" using tb(2) unfolding r by (intro trim_space_id) (simp add: is_space_def)
  show nr: "\<not> blank r" using r by (simp add: blank_iff is_space_def)
  have "\<forall>m \<in> set http_methods. trim_space m = m \<and> get_http_method (action_uri_prefix @ m) action_uri_prefix = m"
    by (simp add: http_methods_def get_http_method_def action_uri_prefix_def to_lower_def lower_others trim_space_def is_space_def)
  with m show tm: "trim_space m = m" "get_http_method (action_uri_prefix @ m) action_uri_prefix = m" by blast+
  show nm: "\<not> blank m" "get_http_method m [] = m" "m \<noteq> []" using method_text [OF m] by auto
  show "new_rar r m ms = \<lparr>rar_action = m, rar_resource = r, rar_roles = Some (sanitize_members ms)\<rparr>"
    using nr nm(1) tr tb(1) by (simp add: new_rar_def) (simp add: r trim_prefix_def has_prefix_def tb)
qed

lemma blank_prefixed: "\<not> blank (action_uri_prefix @ m)"
  by (simp add: action_uri_prefix_def blank_iff is_space_def)

lemma policy_key_rar_name:
  "stored_key (r, m) \<Longrightarrow> make_rar_key_for_policy (action_uri_prefix @ m) r = rar_name \<lparr>rar_action = m, rar_resource = r, rar_roles = x\<rparr>"
  using stored_key_fields [of r m] blank_prefixed [of m]
  by (simp add: make_rar_key_for_policy_def rar_name_def make_rar_key_def Let_def)

lemma rar_name_inj:
  assumes "stored_key (r, m)" and "stored_key (r', m')"
    and "rar_name \<lparr>rar_action = m, rar_resource = r, rar_roles = x\<rparr> = rar_name \<lparr>rar_action = m', rar_resource = r', rar_roles = y\<rparr>"
  shows "r = r' \<and> m = m'"
proof -
  have *: "rar_from_provider_value (rar_name \<lparr>rar_action = m, rar_resource = r, rar_roles = z\<rparr>) [] =
      \<lparr>rar_action = m, rar_resource = r, rar_roles = Some []\<rparr>" if "stored_key (r, m)" for r m z
  proof -
    from that obtain b where "r = CHR ''/'' # b" "plain_resource b" "m \<in> set http_methods"
      by (cases r) (auto simp: stored_key_def)
    from key_roundtrip [OF this(2,3) _ refl, of "[]"] this show ?thesis
      by (simp add: rar_name_def sanitize_members_def)
  qed
  from * [OF assms(1), of x] * [OF assms(2), of y] assms(3) show ?thesis by simp
qed

section \<open>The roles that are read\<close>

lemma map_rars_rev: "map_of (map_resource_action_roles rars) = map_of (rev (map (\<lambda>r. (rar_name r, r)) rars))"
  by (induction rars rule: rev_induct) (simp_all add: map_resource_action_roles_def update_conv')

lemma map_rars_lookup:
  shows "map_of (map_resource_action_roles rars) k = Some y \<Longrightarrow> y \<in> set rars \<and> rar_name y = k"
    and "y \<in> set rars \<Longrightarrow> \<exists>z. map_of (map_resource_action_roles rars) (rar_name y) = Some z"
proof -
  show "y \<in> set rars \<and> rar_name y = k" if "map_of (map_resource_action_roles rars) k = Some y"
    using map_of_SomeD [OF that [unfolded map_rars_rev]] by auto
  assume "y \<in> set rars"
  then have "rar_name y \<in> fst ` set (rev (map (\<lambda>r. (rar_name r, r)) rars))" by force
  then show "\<exists>z. map_of (map_resource_action_roles rars) (rar_name y) = Some z"
    unfolding map_rars_rev by (metis not_None_eq map_of_eq_None_iff)
qed

text \<open>The roles of the table, as the items are read.\<close>

definition rar_at :: "string \<times> string \<Rightarrow> string list \<Rightarrow> rar" where
  "rar_at k ms = \<lparr>rar_action = snd k, rar_resource = fst k, rar_roles = Some (sanitize_members ms)\<rparr>"

lemma read_roles:
  assumes "dynamo_table db table" and "\<forall>k \<in> dom (table s). stored_key k" and "get_resource_roles db s = Inr rars"
  shows "y \<in> set rars \<longleftrightarrow> (\<exists>k t ms. table s k = Some t \<and> json_texts t = Inr ms \<and> y = rar_at k ms)"
    and "table s k = Some t \<Longrightarrow> \<exists>ms. json_texts t = Inr ms"
proof -
  from assms(3) obtain items where items: "db_scan db s = Inr (Some (Inr items))" "mapM item_to_rar items = Inr rars"
    by (auto simp: get_resource_roles_def rbind_Inr_iff split: option.splits if_splits)
  with assms(1) have d: "distinct (map item_key items)"
    and T: "table s = map_of (map (\<lambda>i. (item_key i, item_members i)) items)"
    unfolding dynamo_table_def by blast+
  have in_table: "table s k = Some t \<longleftrightarrow> (\<exists>i \<in> set items. k = item_key i \<and> t = item_members i)" for k t
    using d by (subst T, subst map_of_eq_Some_iff) (auto simp: comp_def)
  have rar: "item_to_rar i = rbind (json_texts (item_members i)) (\<lambda>ms. Inr (rar_at (item_key i) ms))" if "i \<in> set items" for i
  proof -
    from that in_table [of "item_key i" "item_members i"] assms(2) have "stored_key (item_key i)" by blast
    then have k: "stored_key (item_resource i, item_action i)" by (simp add: item_key_def)
    then show ?thesis
      using stored_key_fields [OF k] by (simp add: item_to_rar_def new_resource_action_roles_def rar_at_def item_key_def)
  qed
  have all: "list_all2 (\<lambda>i y. item_to_rar i = Inr y) items rars" using items(2) by (simp add: mapM_Inr_iff)
  then have mem: "y \<in> set rars \<longleftrightarrow> (\<exists>i \<in> set items. item_to_rar i = Inr y)" for y
    by (induction rule: list_all2_induct) auto
  show "y \<in> set rars \<longleftrightarrow> (\<exists>k t ms. table s k = Some t \<and> json_texts t = Inr ms \<and> y = rar_at k ms)"
  proof
    assume "y \<in> set rars"
    then obtain i where i: "i \<in> set items" "item_to_rar i = Inr y" using mem by blast
    then obtain ms where "json_texts (item_members i) = Inr ms" "y = rar_at (item_key i) ms"
      unfolding rar [OF i(1)] by (auto simp: rbind_Inr_iff)
    moreover have "table s (item_key i) = Some (item_members i)" using i(1) in_table by blast
    ultimately show "\<exists>k t ms. table s k = Some t \<and> json_texts t = Inr ms \<and> y = rar_at k ms" by blast
  next
    assume "\<exists>k t ms. table s k = Some t \<and> json_texts t = Inr ms \<and> y = rar_at k ms"
    then obtain i ms where "i \<in> set items" "json_texts (item_members i) = Inr ms" "y = rar_at (item_key i) ms"
      using in_table by metis
    with rar show "y \<in> set rars" using mem by fastforce
  qed
  assume "table s k = Some t"
  then obtain i where i: "i \<in> set items" "t = item_members i" by (auto simp: in_table)
  from all i(1) have "\<exists>y. item_to_rar i = Inr y" by (induction rule: list_all2_induct) auto
  with rar [OF i(1)] i(2) show "\<exists>ms. json_texts t = Inr ms" by (auto simp: rbind_Inr_iff)
qed

lemma role_lookup:
  assumes "dynamo_table db table" and "\<forall>k \<in> dom (table s). stored_key k" and "get_resource_roles db s = Inr rars"
    and "stored_key (r, m)"
  shows "map_of (map_resource_action_roles rars) (make_rar_key_for_policy (action_uri_prefix @ m) r) =
    (case table s (r, m) of
       None \<Rightarrow> None
     | Some t \<Rightarrow> (case json_texts t of Inl _ \<Rightarrow> None | Inr ms \<Rightarrow> Some (rar_at (r, m) ms)))"
proof -
  let ?k = "make_rar_key_for_policy (action_uri_prefix @ m) r"
  note read = read_roles [OF assms(1-3)]
  have found: "\<exists>t ms. table s (r, m) = Some t \<and> json_texts t = Inr ms \<and> y = rar_at (r, m) ms"
    if "map_of (map_resource_action_roles rars) ?k = Some y" for y
  proof -
    from map_rars_lookup(1) [OF that] have y: "y \<in> set rars" "rar_name y = ?k" by blast+
    from y(1) read(1) obtain k t ms where t: "table s k = Some t" "json_texts t = Inr ms" "y = rar_at k ms" by blast
    obtain r' m' where k: "k = (r', m')" by (cases k)
    from t(1) assms(2) have "stored_key (r', m')" unfolding k by blast
    moreover have "rar_name \<lparr>rar_action = m, rar_resource = r, rar_roles = None\<rparr> =
        rar_name \<lparr>rar_action = m', rar_resource = r', rar_roles = Some (sanitize_members ms)\<rparr>"
      using y(2) t(3) by (simp add: k rar_at_def policy_key_rar_name [OF assms(4), of None])
    ultimately have "r = r'" "m = m'" using rar_name_inj [OF assms(4)] by blast+
    with t k show ?thesis by simp
  qed
  show ?thesis
  proof (cases "table s (r, m)")
    case None
    with found show ?thesis by (cases "map_of (map_resource_action_roles rars) ?k") auto
  next
    case (Some t)
    with read(2) obtain ms where ms: "json_texts t = Inr ms" by blast
    with Some read(1) have "rar_at (r, m) ms \<in> set rars" by blast
    from map_rars_lookup(2) [OF this] obtain z where "map_of (map_resource_action_roles rars) ?k = Some z"
      by (auto simp: rar_at_def policy_key_rar_name [OF assms(4), symmetric])
    with found [OF this] Some ms show ?thesis by simp
  qed
qed

section \<open>The updates\<close>

definition rar_fits :: "rar \<Rightarrow> bool" where
  "rar_fits y \<longleftrightarrow> stored_key (rar_resource y, rar_action y) \<and> sanitize_members (elems (rar_roles y)) = elems (rar_roles y)"

lemma policy_updates:
  assumes "dynamo_table db table" and "\<forall>k \<in> dom (table s). stored_key k" and "get_resource_roles db s = Inr rars"
    and "stored_key (r, m)" and "actions q = Some [action_uri_prefix @ m]" and "object_info q = r"
    and "\<forall>x \<in> named (elems (subjects q)). trim_space x = x"
  shows "y \<in> set (update_for_policy (map_resource_action_roles rars) q) \<Longrightarrow>
      (r, m) \<in> dom (table s) \<and> rar_resource y = r \<and> rar_action y = m \<and>
      set (elems (rar_roles y)) = named (elems (subjects q)) \<and> rar_fits y"
    and "update_for_policy (map_resource_action_roles rars) q = [] \<Longrightarrow> (r, m) \<in> dom (table s) \<Longrightarrow>
      stored_roles (table s) (r, m) = named (elems (subjects q))"
proof -
  have first: "first_action q = action_uri_prefix @ m" using assms(5) by (simp add: first_action_def)
  note lookup = role_lookup [OF assms(1-4)]
  note key = stored_key_fields [OF assms(4)]
  let ?us = "update_for_policy (map_resource_action_roles rars) q"
  show "(r, m) \<in> dom (table s) \<and> rar_resource y = r \<and> rar_action y = m \<and>
      set (elems (rar_roles y)) = named (elems (subjects q)) \<and> rar_fits y" if y: "y \<in> set ?us"
  proof -
    from y obtain t ms where t: "table s (r, m) = Some t" "json_texts t = Inr ms"
      by (auto simp: update_for_policy_def lookup first assms(6) split: option.splits sum.splits)
    obtain c roles where c: "find_roles_to_update (sanitize_members ms) (elems (subjects q)) = (c, roles)"
      by (cases "find_roles_to_update (sanitize_members ms) (elems (subjects q))")
    with y t have f: "find_roles_to_update (sanitize_members ms) (elems (subjects q)) = (True, roles)"
      and new: "y = new_resource_action_uri_roles r (action_uri_prefix @ m) roles"
      by (simp_all add: update_for_policy_def lookup first assms(6) rar_at_def split: if_splits)
    from roles_update [OF f] have roles: "set roles = named (elems (subjects q))" by simp
    then have "sanitize_members roles = roles" using assms(7) by (intro sanitize_id) (auto simp: named_def)
    moreover from new key have "y = \<lparr>rar_action = m, rar_resource = r, rar_roles = Some (sanitize_members roles)\<rparr>"
      by (simp add: new_resource_action_uri_roles_def)
    ultimately show ?thesis using t roles assms(4) by (auto simp: rar_fits_def)
  qed
  assume none: "?us = []" and "(r, m) \<in> dom (table s)"
  then obtain t ms where t: "table s (r, m) = Some t" "json_texts t = Inr ms"
    using read_roles(2) [OF assms(1-3)] by blast
  obtain c roles where f: "find_roles_to_update (sanitize_members ms) (elems (subjects q)) = (c, roles)"
    by (cases "find_roles_to_update (sanitize_members ms) (elems (subjects q))")
  have "?us = (if c then [new_resource_action_uri_roles r (action_uri_prefix @ m) roles] else [])"
    using f t by (simp add: update_for_policy_def lookup first assms(6) rar_at_def)
  with none have "\<not> c" by (simp split: if_splits)
  with roles_update(1) [OF f] t show "stored_roles (table s) (r, m) = named (elems (subjects q))"
    by (simp add: stored_roles_def named_sanitized)
qed

lemma calc_updates_all: "calc_updates rars ps = concat (map (update_for_policy (map_resource_action_roles rars)) (flatten_policy ps))"
proof -
  have "update_for_policy [] q = []" for q by (simp add: update_for_policy_def)
  then have "concat (map (update_for_policy []) qs) = []" for qs by simp
  then show ?thesis by (simp add: calc_updates_def Let_def)
qed

text \<open>A run of updates writes them one after the other.\<close>

lemma update_runs:
  assumes "dynamo_table db table" and "\<forall>y \<in> set ys. rar_fits y" and "run_all (update_resource_role db) ys s = (t, Inr ())"
  shows "table t = foldl (\<lambda>T y. T((rar_resource y, rar_action y) \<mapsto> members_value (elems (rar_roles y)))) (table s) ys"
proof (rule run_all_invariant [where P = "\<lambda>ys u. table u =
    foldl (\<lambda>T y. T((rar_resource y, rar_action y) \<mapsto> members_value (elems (rar_roles y)))) (table s) ys", OF assms(3)])
  fix zs y u v
  let ?f = "\<lambda>T (y :: rar). T((rar_resource y, rar_action y) \<mapsto> members_value (elems (rar_roles y)))"
  assume P: "table u = foldl ?f (table s) zs" and y: "y \<in> set ys" and step: "update_resource_role db y u = (v, Inr ())"
  from assms(2) y have k: "stored_key (rar_resource y, rar_action y)" by (auto simp: rar_fits_def)
  from step stored_key_fields [OF k] have "db_update db u \<lparr>update_resource = rar_resource y, update_action = rar_action y,
      update_members = members_value (elems (rar_roles y))\<rparr> = (v, Inr ())"
    by (auto simp: update_resource_role_def rbind_iff update_item_input_def)
  with assms(1) have "table v = (table u)((rar_resource y, rar_action y) \<mapsto> members_value (elems (rar_roles y)))"
    unfolding dynamo_table_def by (metis item_update.select_convs)
  with P show "table v = foldl ?f (table s) (zs @ [y])" by simp
qed simp

lemma foldl_updates:
  "k \<notin> f ` set ys \<Longrightarrow> foldl (\<lambda>T y. T(f y \<mapsto> g y)) T ys k = T k"
  "k \<in> f ` set ys \<Longrightarrow> \<exists>y \<in> set ys. f y = k \<and> foldl (\<lambda>T y. T(f y \<mapsto> g y)) T ys k = Some (g y)"
  by (induction ys rule: rev_induct) auto

lemma foldl_updates_dom: "dom (foldl (\<lambda>T y. T(f y \<mapsto> g y)) T ys) = dom T \<union> f ` set ys"
  by (induction ys arbitrary: T) auto

lemma fits_stored: "rar_fits y \<Longrightarrow> T k = Some (members_value (elems (rar_roles y))) \<Longrightarrow> stored_roles T k = set (elems (rar_roles y))"
  by (simp add: rar_fits_def stored_roles_def members_value_def json_texts_marshal)

section \<open>The wanted policies\<close>

lemma stored_unambiguous:
  assumes "stored_policies ps"
  shows "unambiguous ps"
proof -
  have key: "\<exists>m b. a = action_uri_prefix @ m \<and> m \<in> set http_methods \<and> object_info p = CHR ''/'' # b"
    if "p \<in> set ps" "a \<in> set (elems (actions p))" for p a
  proof -
    from assms that obtain m where m: "a = action_uri_prefix @ m" "stored_key (object_info p, m)"
      unfolding stored_policies_def by blast
    then have "object_info p = CHR ''/'' # tl (object_info p)" by (cases "object_info p") (auto simp: stored_key_def)
    with m show ?thesis by (auto simp: stored_key_def)
  qed
  have prefix: "\<forall>m \<in> set http_methods. takeWhile (\<lambda>c. c \<noteq> CHR ''/'') (action_uri_prefix @ m @ CHR ''/'' # b) = action_uri_prefix @ m" for b
    by (simp add: http_methods_def action_uri_prefix_def)
  have "a = a'" if "p \<in> set ps" "q \<in> set ps" "a \<in> set (elems (actions p))" "a' \<in> set (elems (actions q))"
      "a @ object_info p = a' @ object_info q" for p q a a'
  proof -
    from key [OF that(1,3)] obtain m b where m: "a = action_uri_prefix @ m" "m \<in> set http_methods" "object_info p = CHR ''/'' # b"
      by blast
    from key [OF that(2,4)] obtain m' b' where m': "a' = action_uri_prefix @ m'" "m' \<in> set http_methods" "object_info q = CHR ''/'' # b'"
      by blast
    from that(5) have "takeWhile (\<lambda>c. c \<noteq> CHR ''/'') (action_uri_prefix @ m @ CHR ''/'' # b) =
        takeWhile (\<lambda>c. c \<noteq> CHR ''/'') (action_uri_prefix @ m' @ CHR ''/'' # b')"
      by (simp add: m m')
    with prefix m m' show ?thesis by simp
  qed
  then show ?thesis unfolding unambiguous_def by blast
qed

lemma flat_policies:
  assumes "stored_policies ps" and "q \<in> set (flatten_policy ps)"
  obtains m where "actions q = Some [action_uri_prefix @ m]" and "stored_key (object_info q, m)"
    and "\<exists>p \<in> set ps. object_info p = object_info q \<and> action_uri_prefix @ m \<in> set (elems (actions p))"
    and "named (elems (subjects q)) = {x. \<not> blank x \<and> grants ps (action_uri_prefix @ m) (object_info q) x}"
proof -
  let ?m = "foldl flatten_one [] ps"
  have ok: "flat_map_ok (contributions ps) ?m" by (rule flat_map)
  then have d: "go_map_ok ?m" by (simp add: flat_map_ok_def)
  from assms(2) obtain k where "(k, q) \<in> set ?m" by (auto simp: flatten_policy_set)
  then have k: "map_of ?m k = Some q" using d by simp
  from flat_map_okD(1) [OF ok k] obtain a p where p: "(a, p) \<in> set (contributions ps)" "k = a @ object_info p"
    "actions q = Some [a]" "object_info q = object_info p" by blast
  from p(1) have pa: "p \<in> set ps" "a \<in> set (elems (actions p))" by (simp_all add: contributions_set)
  with assms(1) obtain m where m: "a = action_uri_prefix @ m" "stored_key (object_info p, m)"
    unfolding stored_policies_def by blast
  have "x \<in> set (elems (subjects q)) \<longleftrightarrow> grants ps a (object_info q) x" if x: "\<not> blank x" for x
  proof -
    have "b @ object_info p' = k \<longleftrightarrow> b = a \<and> object_info p' = object_info p"
      if "(b, p') \<in> set (contributions ps)" for b p'
    proof -
      from that have "p' \<in> set ps" "b \<in> set (elems (actions p'))" by (simp_all add: contributions_set)
      with pa stored_unambiguous [OF assms(1)] have "b @ object_info p' = a @ object_info p \<longrightarrow> b = a"
        unfolding unambiguous_def by blast
      with p(2) show ?thesis by auto
    qed
    then have "x \<in> set (elems (subjects q)) \<longleftrightarrow>
        (\<exists>p'. (a, p') \<in> set (contributions ps) \<and> object_info p' = object_info p \<and> x \<in> set (elems (subjects p')))"
      using flat_map_okD(2) [OF ok k x] by fastforce
    also have "\<dots> \<longleftrightarrow> grants ps a (object_info q) x"
      using p(1,4) by (auto simp: contributions_set grants_def)
    finally show ?thesis .
  qed
  then have "named (elems (subjects q)) = {x. \<not> blank x \<and> grants ps a (object_info q) x}"
    by (auto simp: named_def)
  with that [of m] m pa p(3,4) show thesis by auto
qed

lemma flat_policy_unique:
  assumes "q \<in> set (flatten_policy ps)" and "q' \<in> set (flatten_policy ps)"
    and "actions q = actions q'" and "object_info q = object_info q'"
  shows "q = q'"
proof -
  let ?m = "foldl flatten_one [] ps"
  have ok: "flat_map_ok (contributions ps) ?m" by (rule flat_map)
  then have d: "go_map_ok ?m" by (simp add: flat_map_ok_def)
  from assms(1,2) obtain k k' where k: "map_of ?m k = Some q" "map_of ?m k' = Some q'"
    using d by (auto simp: flatten_policy_set)
  from flat_map_okD(1) [OF ok k(1)] flat_map_okD(1) [OF ok k(2)] assms(3,4) have "k = k'" by fastforce
  with k show ?thesis by simp
qed

lemma flat_policy_exists:
  assumes "p \<in> set ps" and "a \<in> set (elems (actions p))" and "\<not> blank a" and "object_info p \<noteq> []"
    and "unambiguous ps"
  shows "\<exists>q \<in> set (flatten_policy ps). actions q = Some [a] \<and> object_info q = object_info p"
proof -
  let ?m = "foldl flatten_one [] ps"
  have ok: "flat_map_ok (contributions ps) ?m" by (rule flat_map)
  from assms(1-4) have "(a, p) \<in> set (contributions ps)" by (simp add: contributions_set)
  with ok have "a @ object_info p \<in> fst ` set ?m" unfolding flat_map_ok_def by blast
  then obtain q where q: "map_of ?m (a @ object_info p) = Some q"
    by (metis map_of_eq_None_iff option.exhaust)
  from flat_map_okD(1) [OF ok q] obtain b p' where b: "(b, p') \<in> set (contributions ps)"
    "a @ object_info p = b @ object_info p'" "actions q = Some [b]" "object_info q = object_info p'" by blast
  then have "p' \<in> set ps" "b \<in> set (elems (actions p'))" by (simp_all add: contributions_set)
  with assms(1,2,5) b(2) have "a = b" unfolding unambiguous_def by blast
  with b map_of_SomeD [OF q] show ?thesis by (force simp: flatten_policy_set)
qed

lemma flat_trimmed:
  assumes "stored_policies ps" and "q \<in> set (flatten_policy ps)" and "x \<in> named (elems (subjects q))"
  shows "trim_space x = x"
proof -
  from flat_policies [OF assms(1,2)] assms(3) obtain m where "grants ps (action_uri_prefix @ m) (object_info q) x" by auto
  then obtain p where "p \<in> set ps" "x \<in> set (elems (subjects p))" by (auto simp: grants_def)
  with assms(1) show ?thesis unfolding stored_policies_def by blast
qed

section \<open>The updates of a run\<close>

abbreviation rar_key :: "rar \<Rightarrow> string \<times> string" where
  "rar_key y \<equiv> (rar_resource y, rar_action y)"

text \<open>Every update is that of one flattened policy, on an item of the table.\<close>

lemma update_from_policy:
  assumes "dynamo_table db table" and "\<forall>k \<in> dom (table s). stored_key k" and "get_resource_roles db s = Inr rars"
    and "stored_policies ps" and "y \<in> set (calc_updates rars ps)"
  obtains q m where "q \<in> set (flatten_policy ps)" and "actions q = Some [action_uri_prefix @ m]"
    and "rar_key y = (object_info q, m)" and "rar_key y \<in> dom (table s)"
    and "set (elems (rar_roles y)) = named (elems (subjects q))" and "rar_fits y"
proof -
  from assms(5) obtain q where q: "q \<in> set (flatten_policy ps)"
    "y \<in> set (update_for_policy (map_resource_action_roles rars) q)" by (auto simp: calc_updates_all)
  from flat_policies [OF assms(4) q(1)] obtain m where m: "actions q = Some [action_uri_prefix @ m]"
    "stored_key (object_info q, m)" by blast
  have "\<forall>x \<in> named (elems (subjects q)). trim_space x = x" using flat_trimmed [OF assms(4) q(1)] by blast
  from policy_updates(1) [OF assms(1-3) m(2,1) refl this q(2)] q(1) m(1) that show thesis by simp
qed

lemma table_after_updates:
  assumes "dynamo_table db table" and "\<forall>k \<in> dom (table s). stored_key k" and "get_resource_roles db s = Inr rars"
    and "stored_policies ps" and "run_all (update_resource_role db) (calc_updates rars ps) s = (t, Inr ())"
  shows "table t = foldl (\<lambda>T y. T(rar_key y \<mapsto> members_value (elems (rar_roles y)))) (table s) (calc_updates rars ps)"
    and "dom (table t) = dom (table s)"
proof -
  have from_policy: "rar_fits y \<and> rar_key y \<in> dom (table s)" if "y \<in> set (calc_updates rars ps)" for y
    by (rule update_from_policy [OF assms(1-4) that]) simp
  then show t: "table t = foldl (\<lambda>T y. T(rar_key y \<mapsto> members_value (elems (rar_roles y)))) (table s) (calc_updates rars ps)"
    using update_runs [OF assms(1) _ assms(5)] by blast
  show "dom (table t) = dom (table s)" unfolding t foldl_updates_dom using from_policy by blast
qed

text \<open>An item that a policy names has the members it grants afterwards, whether it is updated or not.\<close>

lemma named_item_updated:
  assumes "dynamo_table db table" and "\<forall>k \<in> dom (table s). stored_key k" and "get_resource_roles db s = Inr rars"
    and "stored_policies ps" and "run_all (update_resource_role db) (calc_updates rars ps) s = (t, Inr ())"
    and "(r, m) \<in> dom (table s)" and "q \<in> set (flatten_policy ps)"
    and "actions q = Some [action_uri_prefix @ m]" and "object_info q = r"
  shows "stored_roles (table t) (r, m) = named (elems (subjects q))"
proof (cases "(r, m) \<in> rar_key ` set (calc_updates rars ps)")
  case True
  from foldl_updates(2) [OF True, of "\<lambda>y. members_value (elems (rar_roles y))" "table s"] obtain y where y: "y \<in> set (calc_updates rars ps)" "rar_key y = (r, m)"
    "table t (r, m) = Some (members_value (elems (rar_roles y)))"
    unfolding table_after_updates(1) [OF assms(1-5)] by blast
  show ?thesis
  proof (rule update_from_policy [OF assms(1-4) y(1)])
    fix q' m'
    assume q': "q' \<in> set (flatten_policy ps)" "actions q' = Some [action_uri_prefix @ m']"
      "rar_key y = (object_info q', m')" "set (elems (rar_roles y)) = named (elems (subjects q'))" "rar_fits y"
    with y(2) have "q' = q" using flat_policy_unique [OF q'(1) assms(7)] assms(8,9) by simp
    with q' fits_stored [of y "table t" "(r, m)"] y(3) show ?thesis by simp
  qed
next
  case False
  from assms(2,6) have k: "stored_key (r, m)" by blast
  have trimmed: "\<forall>x \<in> named (elems (subjects q)). trim_space x = x" using flat_trimmed [OF assms(4,7)] by blast
  note updates = policy_updates [OF assms(1-3) k assms(8,9) trimmed]
  have "update_for_policy (map_resource_action_roles rars) q = []"
  proof (rule ccontr)
    assume "update_for_policy (map_resource_action_roles rars) q \<noteq> []"
    then obtain y where y: "y \<in> set (update_for_policy (map_resource_action_roles rars) q)" by (meson last_in_set)
    from updates(1) [OF y] have "rar_key y = (r, m)" by simp
    with False y assms(7) show False by (force simp: calc_updates_all)
  qed
  have "table t (r, m) = table s (r, m)"
    unfolding table_after_updates(1) [OF assms(1-5)] by (rule foldl_updates(1) [OF False])
  with updates(2) [OF \<open>update_for_policy (map_resource_action_roles rars) q = []\<close> assms(6)] show ?thesis
    by (simp add: stored_roles_def)
qed

text \<open>An item that no policy names stays as it is.\<close>

lemma other_item_kept:
  assumes "dynamo_table db table" and "\<forall>k \<in> dom (table s). stored_key k" and "get_resource_roles db s = Inr rars"
    and "stored_policies ps" and "run_all (update_resource_role db) (calc_updates rars ps) s = (t, Inr ())"
    and "\<not> ((r, m) \<in> dom (table s) \<and> (\<exists>p \<in> set ps. object_info p = r \<and> action_uri_prefix @ m \<in> set (elems (actions p))))"
  shows "stored_roles (table t) (r, m) = stored_roles (table s) (r, m)"
proof -
  have "(r, m) \<notin> rar_key ` set (calc_updates rars ps)"
  proof
    assume "(r, m) \<in> rar_key ` set (calc_updates rars ps)"
    then obtain y where y: "y \<in> set (calc_updates rars ps)" "rar_key y = (r, m)" by force
    show False
    proof (rule update_from_policy [OF assms(1-4) y(1)])
      fix q m'
      assume q: "q \<in> set (flatten_policy ps)" "actions q = Some [action_uri_prefix @ m']"
        "rar_key y = (object_info q, m')" "rar_key y \<in> dom (table s)"
      from flat_policies [OF assms(4) q(1)] q(2,3) y(2)
      have "\<exists>p \<in> set ps. object_info p = r \<and> action_uri_prefix @ m \<in> set (elems (actions p))" by auto
      with assms(6) q(4) y(2) show False by simp
    qed
  qed
  then have "table t (r, m) = table s (r, m)"
    unfolding table_after_updates(1) [OF assms(1-5)] by (rule foldl_updates(1))
  then show ?thesis by (simp add: stored_roles_def)
qed

section \<open>Properties\<close>


text \<open>A table kept as a list of items, the first of a key being the current one.\<close>

definition list_dynamo :: "policy_item list dynamo_client" where
  "list_dynamo = \<lparr>
     db_scan = (\<lambda>s. if distinct (map item_key s) then Inr (Some (Inr s)) else Inl (Error ''corrupt'')),
     db_update = (\<lambda>s u. (\<lparr>item_resource = update_resource u, item_action = update_action u, item_members = update_members u\<rparr> #
       filter (\<lambda>i. item_key i \<noteq> (update_resource u, update_action u)) s, Inr ()))\<rparr>"

definition list_table :: "policy_item list \<Rightarrow> string \<times> string \<rightharpoonup> string" where
  "list_table s = map_of (map (\<lambda>i. (item_key i, item_members i)) s)"

lemma list_dynamo_table: "dynamo_table list_dynamo list_table"
proof -
  have "list_table (filter (\<lambda>i. item_key i \<noteq> k) s) j = (if j = k then None else list_table s j)" for s j k
    by (induction s) (auto simp: list_table_def)
  then have "list_table (i # filter (\<lambda>i. item_key i \<noteq> k) s) = (list_table s)(k \<mapsto> item_members i)" if "item_key i = k" for s i k
    using that by (auto simp: list_table_def fun_eq_iff)
  from this [of "\<lparr>item_resource = r, item_action = a, item_members = ms\<rparr>" "(r, a)" for r a ms]
  show ?thesis by (auto simp: dynamo_table_def list_dynamo_def list_table_def item_key_def)
qed

definition photo_items :: "policy_item list" where
  "photo_items =
     [\<lparr>item_resource = ''/photos'', item_action = ''GET'', item_members = ''['' @ marshal_string ''ann'' @ '']''\<rparr>,
      \<lparr>item_resource = ''/photos'', item_action = ''POST'', item_members = ''['' @ marshal_string ''eve'' @ '']''\<rparr>]"

definition photo_policy :: policy_info where
  "photo_policy = plain_policy [] ''http:GET'' ''/photos'' [''bob'']"


section \<open>Errors\<close>

text \<open>A provider that cannot make its clients reports status 502 without the error.\<close>

lemma apigw_service_error_lost:
  assumes "validate_arguments v appl ps = Inr ()" and "provider_service a (integration_key info) = Inl (Error e)"
  shows "apigw_set_policy_info a v info appl ps s = (s, Inr 502)"
  using assms by (simp add: apigw_set_policy_info_def run_bind_def pure_run_def)

text \<open>An item whose members are no array makes reading all the policies fail.\<close>

lemma apigw_bad_item_fails:
  assumes "db_scan db s = Inr (Some (Inr items))" and "i \<in> set items" and "json_texts (item_members i) = Inl e"
  shows "\<exists>e. apigw_get_policies db s = Inl e"
proof -
  have "mapM item_to_rar items \<noteq> Inr rars" for rars
  proof
    assume "mapM item_to_rar items = Inr rars"
    then have "list_all2 (\<lambda>i y. item_to_rar i = Inr y) items rars" by (simp add: mapM_Inr_iff)
    then have "\<exists>y. item_to_rar i = Inr y" using assms(2) by (induction rule: list_all2_induct) auto
    with assms(3) show False by (simp add: item_to_rar_def)
  qed
  then obtain f where "mapM item_to_rar items = Inl f" by (cases "mapM item_to_rar items") auto
  moreover have "items \<noteq> []" using assms(2) by auto
  ultimately show ?thesis using assms(1) by (simp add: apigw_get_policies_def get_resource_roles_def)
qed

end
