(* ===== verification/Sdk_Integration.thy ===== *)
theory Sdk_Integration
  imports Policy_Reconcile Opa_Provider Go_Files
begin

text \<open>
  The library's interface: an integration with a platform (\<^verbatim>\<open>sdk/provderTools.go\<close>), the choice of
  its provider (\<^verbatim>\<open>sdk/provider_integrations.go\<close>), its options (\<^verbatim>\<open>sdk/options.go\<close>) and reading policies
  from a file and writing them (\<^verbatim>\<open>pkg/hexapolicysupport\<close>).

  A provider is given by its methods, in a state \<open>'s\<close>; one that also implements \<open>V2Provider\<close> has a
  method to reconcile.  The values passed as HTTP client and as provider option may have any type, so
  the model keeps what the type switches ask of them.
\<close>

section \<open>Providers\<close>

record 's provider_api =
  api_discover :: "integration_info \<Rightarrow> ('s, application_info list) run"
  api_get :: "integration_info \<Rightarrow> application_info \<Rightarrow> ('s, policy_info slice) run"
  api_set :: "integration_info \<Rightarrow> application_info \<Rightarrow> policy_info list \<Rightarrow> ('s, nat) run"
  api_reconcile :: "(integration_info \<Rightarrow> application_info \<Rightarrow> policy_info list \<Rightarrow> bool \<Rightarrow> ('s, policy_dif list) run) option"

record client_value =
  client_name :: string
  is_aws_client :: bool
  is_google_client :: bool
  is_go_client :: bool

record aws_options =
  aws_http :: "client_value option"
  disable_retry :: bool

datatype option_value = AwsOption aws_options | ApigwOption | AzureOption | OtherOption

record sdk_options =
  opt_client :: "client_value option"
  opt_info :: "integration_info option"
  attribute_map :: "string go_map option"
  provider_opts :: "option_value option"

text \<open>What the constructors make.\<close>

datatype chosen_provider =
  ChosenAvp aws_options "string go_map"
| ChosenCognito aws_options
| ChosenApigw bool
| ChosenAzure bool
| ChosenGoogle "client_value option" "string go_map"
| ChosenOpa "client_value option"
| ChosenMock integration_info

definition unsupported_client :: "'a res" where
  "unsupported_client = Inl (Error ''HTTPClient type supported, use WithHttpClient(awscommon.AWSHttpClient)'')"

definition new_aws_options :: "sdk_options \<Rightarrow> aws_options res" where
  "new_aws_options opts =
     (case opt_client opts of
        Some c \<Rightarrow>
          if \<not> is_aws_client c then unsupported_client
          else Inr (case provider_opts opts of
              Some (AwsOption v) \<Rightarrow> v\<lparr>aws_http := Some c\<rparr>
            | _ \<Rightarrow> \<lparr>aws_http = Some c, disable_retry = True\<rparr>)
      | None \<Rightarrow>
          Inr (case provider_opts opts of Some (AwsOption v) \<Rightarrow> v | _ \<Rightarrow> \<lparr>aws_http = None, disable_retry = True\<rparr>))"

definition mapper_names :: "sdk_options \<Rightarrow> string go_map" where
  "mapper_names opts = (case attribute_map opts of None \<Rightarrow> [] | Some m \<Rightarrow> m)"

definition new_google_provider :: "sdk_options \<Rightarrow> chosen_provider res" where
  "new_google_provider opts =
     (if provider_opts opts \<noteq> None then Inl (Error ''provider options not currently supported for gcp_iap'')
      else if (case opt_client opts of None \<Rightarrow> False | Some c \<Rightarrow> \<not> is_google_client c) then unsupported_client
      else Inr (ChosenGoogle (opt_client opts) (mapper_names opts)))"

definition new_opa_provider :: "sdk_options \<Rightarrow> chosen_provider res" where
  "new_opa_provider opts =
     (if provider_opts opts \<noteq> None then Inl (Error ''provider options not currently supported for opa'')
      else if (case opt_client opts of None \<Rightarrow> False | Some c \<Rightarrow> \<not> is_go_client c)
        then Inl (Error ''HTTPClient type supported, use WithHttpClient(http.Client{})'')
      else Inr (ChosenOpa (opt_client opts)))"

text \<open>The name is that of the integration, or the one of the environment variable \<open>HEXA_TEST_PROVIDER\<close>.\<close>

definition choose_provider :: "string \<Rightarrow> sdk_options \<Rightarrow> chosen_provider res" where
  "choose_provider override opts =
     (case opt_info opts of
        None \<Rightarrow> Inl (Error ''missing PolicyProvider.IntegrationInfo object'')
      | Some info \<Rightarrow>
          (let name = (if override \<noteq> [] then override else integration_name info) in
           if name = ''avp'' then rbind (new_aws_options opts) (\<lambda>a. Inr (ChosenAvp a (mapper_names opts)))
           else if name = ''cognito'' then rbind (new_aws_options opts) (\<lambda>a. Inr (ChosenCognito a))
           else if name = ''awsapigw'' then Inr (ChosenApigw (provider_opts opts = Some ApigwOption))
           else if name = ''azure'' then Inr (ChosenAzure (provider_opts opts = Some AzureOption))
           else if name = ''google_cloud'' \<or> name = ''gcp_iap'' then new_google_provider opts
           else if name = ''opa'' then new_opa_provider opts
           else if name = ''mock'' then Inr (ChosenMock info)
           else Inl (Error ''provider not available in hexa policy SDK'')))"

section \<open>Integrations\<close>

record 's integration =
  int_alias :: string
  int_opts :: sdk_options
  int_apps :: "application_info go_map option"
  int_provider :: "'s provider_api option"

text \<open>What integrations are opened with: the override and the methods of the providers.\<close>

record 's sdk =
  test_override :: string
  provider_methods :: "chosen_provider \<Rightarrow> 's provider_api"

definition open_provider :: "'s sdk \<Rightarrow> 's integration \<Rightarrow> 's integration \<times> unit res" where
  "open_provider sdk i =
     (if int_provider i \<noteq> None then (i, Inr ())
      else
        (case choose_provider (test_override sdk) (int_opts i) of
           Inl e \<Rightarrow> (i, Inl e)
         | Inr c \<Rightarrow> (i\<lparr>int_provider := Some (provider_methods sdk c)\<rparr>, Inr ())))"

definition no_options :: sdk_options where
  "no_options = \<lparr>opt_client = None, opt_info = None, attribute_map = None, provider_opts = None\<rparr>"

text \<open>The options are functions, of which some may be nil.\<close>

definition open_integration ::
  "'s sdk \<Rightarrow> (sdk_options \<Rightarrow> sdk_options) option list \<Rightarrow> 's integration option \<times> unit res" where
  "open_integration sdk fs =
     (let opts = foldl (\<lambda>o1 f. case f of None \<Rightarrow> o1 | Some g \<Rightarrow> g o1) no_options fs in
      if opt_info opts = None
      then (None, Inl (Error ''insufficient integration information provided (missing Integration Info)''))
      else
        (let (i, r) = open_provider sdk \<lparr>int_alias = [], int_opts = opts, int_apps = None, int_provider = None\<rparr> in (Some i, r)))"

definition get_type :: "'s integration \<Rightarrow> string" where
  "get_type i = (case opt_info (int_opts i) of None \<Rightarrow> ''ERROR'' | Some info \<Rightarrow> integration_name info)"

text \<open>The error of opening is ignored.\<close>

definition check_open :: "'s sdk \<Rightarrow> 's integration \<Rightarrow> 's integration" where
  "check_open sdk i = fst (open_provider sdk i)"

definition alias_of_object :: "application_info go_map \<Rightarrow> string go_map" where
  "alias_of_object apps = foldl (\<lambda>m (k, a). AList.update (object_id a) k m) [] apps"

text \<open>The alias of an application: the one it had, else a generated one, else its object id.\<close>

definition application_alias :: "string go_map \<Rightarrow> (nat \<Rightarrow> string) option \<Rightarrow> nat \<Rightarrow> application_info \<Rightarrow> string \<times> nat" where
  "application_alias old gen n a =
     (case map_of old (object_id a) of
        Some k \<Rightarrow> (k, n)
      | None \<Rightarrow> (case gen of None \<Rightarrow> (object_id a, n) | Some g \<Rightarrow> (g n, Suc n)))"

fun name_applications ::
  "string go_map \<Rightarrow> (nat \<Rightarrow> string) option \<Rightarrow> nat \<Rightarrow> application_info list \<Rightarrow> (string \<times> application_info) list" where
  "name_applications old gen n [] = []"
| "name_applications old gen n (a # as) =
     (case application_alias old gen n a of (k, n') \<Rightarrow> (k, a) # name_applications old gen n' as)"

definition named_map :: "(string \<times> application_info) list \<Rightarrow> application_info go_map" where
  "named_map kas = foldl (\<lambda>m (k, a). AList.update k a m) [] kas"

text \<open>The integration afterwards, and the applications that were found.\<close>

type_synonym ('s, 'a) integration_run = "'s integration \<Rightarrow> 's \<Rightarrow> 's integration \<times> 's \<times> (run_fault + 'a)"

definition get_application_points ::
  "'s sdk \<Rightarrow> (nat \<Rightarrow> string) option \<Rightarrow> ('s, application_info list) integration_run" where
  "get_application_points sdk gen i s =
     (let i = check_open sdk i;
          old = (case int_apps i of None \<Rightarrow> [] | Some m \<Rightarrow> alias_of_object m) in
      case (int_provider i, opt_info (int_opts i)) of
        (Some p, Some info) \<Rightarrow>
          (case api_discover p info s of
             (t, Inl e) \<Rightarrow> (i, t, Inl e)
           | (t, Inr apps) \<Rightarrow> (i\<lparr>int_apps := Some (named_map (name_applications old gen 0 apps))\<rparr>, t, Inr apps))
      | _ \<Rightarrow> (i, s, Inl (Crashed ''nil pointer dereference'')))"

definition find_application :: "application_info go_map \<Rightarrow> string \<Rightarrow> application_info option" where
  "find_application apps pap =
     (case map_of apps pap of
        Some a \<Rightarrow> Some a
      | None \<Rightarrow> map_option snd (List.find (\<lambda>(k, a). object_id a = pap) apps))"

definition get_application_info :: "'s sdk \<Rightarrow> string \<Rightarrow> ('s, application_info) integration_run" where
  "get_application_info sdk pap i s =
     (case (if int_apps i = None then get_application_points sdk None i s else (i, s, Inr [])) of
        (j, t, Inl e) \<Rightarrow> (j, t, Inl e)
      | (j, t, Inr _) \<Rightarrow>
          (j, t,
           (case find_application (case int_apps j of None \<Rightarrow> [] | Some m \<Rightarrow> m) pap of
              Some a \<Rightarrow> Inr a
            | None \<Rightarrow> Inl (Failed 0 (''alias ['' @ pap @ ''] not found'')))))"

text \<open>A call of the provider for one application; a nil provider or integration info panics.\<close>

definition with_application ::
  "'s sdk \<Rightarrow> string \<Rightarrow> ('s provider_api \<Rightarrow> integration_info \<Rightarrow> application_info \<Rightarrow> ('s, 'a) run) \<Rightarrow> ('s, 'a) integration_run" where
  "with_application sdk pap f i s =
     (case get_application_info sdk pap (check_open sdk i) s of
        (j, t, Inl e) \<Rightarrow> (j, t, Inl e)
      | (j, t, Inr a) \<Rightarrow>
          (case (int_provider j, opt_info (int_opts j)) of
             (Some p, Some info) \<Rightarrow> (j, f p info a t)
           | _ \<Rightarrow> (j, t, Inl (Crashed ''nil pointer dereference''))))"

definition sdk_get_policies :: "'s sdk \<Rightarrow> string \<Rightarrow> ('s, policies) integration_run" where
  "sdk_get_policies sdk pap =
     with_application sdk pap (\<lambda>p info a.
       run_bind (api_get p info a) (\<lambda>ps. pure_run 0 (Inr \<lparr>policy_list = ps, app = Some (object_id a)\<rparr>)))"

definition sdk_set_policy_info :: "'s sdk \<Rightarrow> string \<Rightarrow> policy_info list \<Rightarrow> ('s, nat) integration_run" where
  "sdk_set_policy_info sdk pap ps = with_application sdk pap (\<lambda>p info a. api_set p info a ps)"

text \<open>Without a method of its own the policies are read and compared here.\<close>

definition sdk_reconcile_policy ::
  "(string \<Rightarrow> string) \<Rightarrow> 's sdk \<Rightarrow> string \<Rightarrow> policy_info list \<Rightarrow> bool \<Rightarrow> ('s, policy_dif list) integration_run" where
  "sdk_reconcile_policy hash sdk pap compare diffs_only =
     with_application sdk pap (\<lambda>p info a.
       case api_reconcile p of
         Some reconcile \<Rightarrow> reconcile info a compare diffs_only
       | None \<Rightarrow>
           run_bind (api_get p info a) (\<lambda>ps.
             pure_run 0 (reconcile_policies hash \<lparr>policy_list = ps, app = Some (object_id a)\<rparr> compare diffs_only)))"

section \<open>Options for Open Policy Agent\<close>

definition with_opa :: "(opa_credentials \<Rightarrow> string) \<Rightarrow> opa_credentials \<Rightarrow> sdk_options \<Rightarrow> sdk_options" where
  "with_opa encode c opts = opts\<lparr>opt_info := Some \<lparr>integration_name = ''opa'', integration_key = encode c\<rparr>\<rparr>"

definition plain_credentials :: opa_credentials where
  "plain_credentials = \<lparr>bundle_url = [], ca_cert = [], opa_authorization = [], gcp = None, aws = None, github = None,
     oauth_client = None\<rparr>"

definition with_opa_gcp :: "(opa_credentials \<Rightarrow> string) \<Rightarrow> string \<Rightarrow> string \<Rightarrow> string \<Rightarrow> sdk_options \<Rightarrow> sdk_options" where
  "with_opa_gcp encode bucket object key =
     with_opa encode (plain_credentials\<lparr>gcp := Some \<lparr>bucket_name = bucket, object_name = object, bucket_key = key\<rparr>\<rparr>)"

definition with_opa_aws :: "(opa_credentials \<Rightarrow> string) \<Rightarrow> string \<Rightarrow> string \<Rightarrow> string \<Rightarrow> sdk_options \<Rightarrow> sdk_options" where
  "with_opa_aws encode bucket object key =
     with_opa encode (plain_credentials\<lparr>aws := Some \<lparr>bucket_name = bucket, object_name = object, bucket_key = key\<rparr>\<rparr>)"

definition with_opa_github ::
  "(opa_credentials \<Rightarrow> string) \<Rightarrow> string \<Rightarrow> string \<Rightarrow> string \<Rightarrow> string \<Rightarrow> sdk_options \<Rightarrow> sdk_options" where
  "with_opa_github encode account repo path token =
     with_opa encode (plain_credentials\<lparr>github := Some \<lparr>gh_account = account, gh_repo = repo, gh_bundle_path = path,
       gh_key = token\<rparr>\<rparr>)"

definition target_url :: "urls \<Rightarrow> string \<Rightarrow> string" where
  "target_url u url =
     (case parse_url u url of
        Inl _ \<Rightarrow> url
      | Inr p \<Rightarrow> if url_path p = [] then url_text u (p\<lparr>url_path := bundle_path\<rparr>) else url)"

definition with_opa_oauth ::
  "urls \<Rightarrow> (opa_credentials \<Rightarrow> string) \<Rightarrow> string \<Rightarrow> string \<Rightarrow> client_config \<Rightarrow> sdk_options \<Rightarrow> sdk_options" where
  "with_opa_oauth u encode url cert config =
     with_opa encode (plain_credentials\<lparr>bundle_url := target_url u url, ca_cert := cert, oauth_client := Some config\<rparr>)"

text \<open>A token of at most seven bytes is dropped.\<close>

definition http_authorization :: "string option \<Rightarrow> string" where
  "http_authorization token =
     (case token of
        None \<Rightarrow> []
      | Some t \<Rightarrow>
          if length t \<le> 7 then []
          else if take 7 (to_lower t) \<noteq> ''bearer '' then ''Bearer '' @ t else t)"

definition with_opa_http ::
  "urls \<Rightarrow> (opa_credentials \<Rightarrow> string) \<Rightarrow> string \<Rightarrow> string \<Rightarrow> string option \<Rightarrow> sdk_options \<Rightarrow> sdk_options" where
  "with_opa_http u encode url cert token =
     with_opa encode (plain_credentials\<lparr>bundle_url := target_url u url, ca_cert := cert,
       opa_authorization := http_authorization token\<rparr>)"

section \<open>Policies from a file\<close>

text \<open>The three ways a text may decode: a set of policies, an array of them, or a single one.\<close>

record policy_decoders =
  as_policies :: "string \<Rightarrow> policies res"
  as_policy_array :: "string \<Rightarrow> policy_info slice res"
  as_policy :: "string \<Rightarrow> policy_info res"

definition parse_policies :: "policy_decoders \<Rightarrow> string \<Rightarrow> policy_info slice res" where
  "parse_policies d text =
     (case (case as_policies d text of Inl _ \<Rightarrow> None | Inr p \<Rightarrow> policy_list p) of
        Some ps \<Rightarrow> Inr (Some ps)
      | None \<Rightarrow>
          (case as_policy_array d text of
             Inr ps \<Rightarrow> Inr ps
           | Inl _ \<Rightarrow> rbind (as_policy d text) (\<lambda>p. Inr (Some [p]))))"

definition parse_policy_file :: "policy_decoders \<Rightarrow> (string \<Rightarrow> string res) \<Rightarrow> string \<Rightarrow> policy_info slice res" where
  "parse_policy_file d read_file path = rbind (read_file path) (parse_policies d)"

definition to_bytes :: "(policies \<Rightarrow> string res) \<Rightarrow> policy_info slice \<Rightarrow> string res" where
  "to_bytes encode ps = encode \<lparr>policy_list = ps, app = None\<rparr>"

definition write_policies ::
  "(policies \<Rightarrow> string res) \<Rightarrow> refusals \<Rightarrow> string \<Rightarrow> policy_info slice \<Rightarrow> file_system \<Rightarrow> file_system res" where
  "write_policies encode refused path ps fs = rbind (to_bytes encode ps) (\<lambda>text. os_write_file refused path text fs)"

section \<open>Aliases\<close>

lemma alias_of_object_snoc:
  "map_of (alias_of_object (m @ [(k, a)])) = (map_of (alias_of_object m))(object_id a \<mapsto> k)"
  by (simp add: alias_of_object_def update_conv')

text \<open>The aliases of applications whose object ids differ.\<close>

lemma alias_of_object_iff:
  assumes "distinct (map (object_id \<circ> snd) m)"
  shows "map_of (alias_of_object m) i = Some k \<longleftrightarrow> (\<exists>a. (k, a) \<in> set m \<and> object_id a = i)"
  using assms
proof (induction m rule: rev_induct)
  case (snoc ka m)
  obtain k' a' where ka: "ka = (k', a')" by (cases ka)
  from snoc.prems have "object_id a' \<notin> object_id ` snd ` set m" by (auto simp: ka image_image)
  with snoc show ?case by (force simp: ka alias_of_object_snoc)
qed (simp add: alias_of_object_def)

definition fresh_aliases :: "(nat \<Rightarrow> string) option \<Rightarrow> application_info go_map \<Rightarrow> application_info list \<Rightarrow> bool" where
  "fresh_aliases gen m apps \<longleftrightarrow>
     (case gen of
        Some g \<Rightarrow> inj g \<and> (\<forall>n. g n \<notin> fst ` set m)
      | None \<Rightarrow> \<forall>a \<in> set apps. object_id a \<in> object_id ` snd ` set m \<or> object_id a \<notin> fst ` set m)"

lemma named_snd: "map snd (name_applications old gen n as) = as"
  by (induction as arbitrary: n) (auto split: prod.splits)

lemma name_applications_cases:
  "(k, a) \<in> set (name_applications old gen n as) \<Longrightarrow> a \<in> set as \<and>
     (map_of old (object_id a) = Some k \<or>
      map_of old (object_id a) = None \<and> (case gen of None \<Rightarrow> k = object_id a | Some g \<Rightarrow> \<exists>i \<ge> n. k = g i))"
proof (induction as arbitrary: n)
  case (Cons b as)
  obtain k' n' where k': "application_alias old gen n b = (k', n')" by (cases "application_alias old gen n b")
  show ?case
  proof (cases "k = k' \<and> a = b")
    case True
    with k' show ?thesis by (auto simp: application_alias_def split: option.splits)
  next
    case False
    with Cons.prems k' have "(k, a) \<in> set (name_applications old gen n' as)" by auto
    moreover have "n \<le> n'" using k' by (auto simp: application_alias_def split: option.splits)
    ultimately show ?thesis using Cons.IH [of n'] by (cases gen) (auto intro: order_trans)
  qed
qed simp

lemma name_applications_distinct:
  assumes "distinct (map object_id as)" and "inj_on (map_of old) (dom (map_of old))"
    and "case gen of
        Some g \<Rightarrow> inj g \<and> (\<forall>n. g n \<notin> ran (map_of old))
      | None \<Rightarrow> \<forall>a \<in> set as. map_of old (object_id a) = None \<longrightarrow> object_id a \<notin> ran (map_of old)"
  shows "distinct (map fst (name_applications old gen n as))"
  using assms(1,3)
proof (induction as arbitrary: n)
  case (Cons b as)
  obtain k n' where k: "application_alias old gen n b = (k, n')" by (cases "application_alias old gen n b")
  have "k' \<noteq> k" if "(k', a) \<in> set (name_applications old gen n' as)" for k' a
  proof -
    from name_applications_cases [OF that] have a: "a \<in> set as" and
      k': "map_of old (object_id a) = Some k' \<or>
        map_of old (object_id a) = None \<and> (case gen of None \<Rightarrow> k' = object_id a | Some g \<Rightarrow> \<exists>i \<ge> n'. k' = g i)" by blast+
    from a Cons.prems(1) have ne: "object_id a \<noteq> object_id b" by (auto simp: image_iff)
    from k have b: "map_of old (object_id b) = Some k \<and> n' = n \<or>
        map_of old (object_id b) = None \<and> (case gen of None \<Rightarrow> k = object_id b | Some g \<Rightarrow> k = g n \<and> n' = Suc n)"
      by (auto simp: application_alias_def split: option.splits)
    have both: "x = y" if "map_of old x = Some z" "map_of old y = Some z" for x y z
      using assms(2) that by (auto simp: inj_on_def dom_def)
    have later: "i \<noteq> n" if "n' \<le> i" "n' = Suc n" for i using that by simp
    show ?thesis
      using k' b ne both Cons.prems(2) a later
      by (cases gen) (auto simp: ran_def dest: injD)
  qed
  then have "k \<notin> fst ` set (name_applications old gen n' as)" by fastforce
  moreover have "distinct (map fst (name_applications old gen n' as))"
    using Cons by (cases gen) auto
  ultimately show ?case using k by simp
qed simp

lemma named_map_distinct: "distinct (map fst kas) \<Longrightarrow> named_map kas = kas"
proof (induction kas rule: rev_induct)
  case (snoc ka kas)
  have "AList.update k a m = m @ [(k, a)]" if "k \<notin> fst ` set m" for k and a :: application_info and m
    using that by (induction m) auto
  with snoc show ?case by (cases ka) (auto simp: named_map_def)
qed (simp add: named_map_def)

section \<open>Properties\<close>


text \<open>A platform with two applications, found again after one of them was given an alias.\<close>

definition photo_app :: "string \<Rightarrow> application_info" where
  "photo_app i = \<lparr>object_id = i, app_name = ''photos'', app_description = [], app_service = []\<rparr>"

definition photo_sdk :: "unit sdk" where
  "photo_sdk = \<lparr>test_override = [], provider_methods = (\<lambda>_.
     \<lparr>api_discover = (\<lambda>_ s. (s, Inr [photo_app ''id2'', photo_app ''id1''])), api_get = (\<lambda>_ _ s. (s, Inr None)),
      api_set = (\<lambda>_ _ _ s. (s, Inr 201)), api_reconcile = None\<rparr>)\<rparr>"

definition photo_integration :: "unit integration" where
  "photo_integration = \<lparr>int_alias = [], int_opts = no_options\<lparr>opt_info := Some \<lparr>integration_name = ''mock'', integration_key = []\<rparr>\<rparr>,
     int_apps = Some [(''prod'', photo_app ''id1'')], int_provider = None\<rparr>"


section \<open>What is lost\<close>

text \<open>Of applications with one object id, as the resource servers of a Cognito user pool are, only the last is left.\<close>

lemma same_object_id_lost:
  assumes "int_apps i = None" and "get_application_points sdk None i s = (j, t, Inr [a, b])" and "object_id a = object_id b"
  shows "int_apps j = Some [(object_id b, b)]"
proof -
  have "int_apps (check_open sdk i) = int_apps i"
    by (auto simp: check_open_def open_provider_def split: sum.splits)
  with assms show ?thesis
    by (auto simp: get_application_points_def Let_def application_alias_def named_map_def
        split: option.splits prod.splits sum.splits)
qed

text \<open>An integration that was read from a file with an unknown provider panics instead of returning its error.\<close>

lemma unknown_provider_panics:
  assumes "int_provider i = None" and "choose_provider (test_override sdk) (int_opts i) = Inl e"
  shows "get_application_points sdk gen i s = (i, s, Inl (Crashed ''nil pointer dereference''))"
  using assms by (simp add: get_application_points_def check_open_def open_provider_def Let_def split: option.splits)

text \<open>A text that is an object without policies is read as one policy without contents.\<close>

lemma object_without_policies:
  assumes "as_policies d text = Inr \<lparr>policy_list = None, app = a\<rparr>" and "as_policy_array d text = Inl e" and "as_policy d text = Inr p"
  shows "parse_policies d text = Inr (Some [p])"
  using assms by (simp add: parse_policies_def)

text \<open>A file that was written is read as the policies it was written from; without policies it is read as one.\<close>

lemma written_policies_read_back:
  assumes "write_policies encode refused path (Some ps) fs = Inr gs"
    and "\<And>text. encode \<lparr>policy_list = Some ps, app = None\<rparr> = Inr text \<Longrightarrow>
      as_policies d text = Inr \<lparr>policy_list = Some ps, app = None\<rparr>"
  shows "parse_policy_file d (os_read_file refused gs) path = Inr (Some ps)"
  using assms
  by (auto simp: write_policies_def to_bytes_def parse_policy_file_def parse_policies_def rbind_iff update_conv')

lemma no_policies_read_as_one:
  assumes "write_policies encode refused path None fs = Inr gs"
    and "encode \<lparr>policy_list = None, app = None\<rparr> = Inr text" and "as_policies d text = Inr \<lparr>policy_list = None, app = a\<rparr>"
    and "as_policy_array d text = Inl e" and "as_policy d text = Inr p"
  shows "parse_policy_file d (os_read_file refused gs) path = Inr (Some [p])"
  using assms
  by (auto simp: write_policies_def to_bytes_def parse_policy_file_def parse_policies_def rbind_iff update_conv')

lemma short_token_dropped: "length t \<le> 7 \<Longrightarrow> http_authorization (Some t) = []"
  by (simp add: http_authorization_def)

end
