(* ===== verification/Cli_Config.thy ===== *)
theory Cli_Config
  imports Sdk_Integration Pim_Schema Go_Files
begin

text \<open>
  The command line's configuration, \<^verbatim>\<open>cmd/hexa/config.go\<close>: the integrations the user has defined, where
  they are kept, and finding the integration of an application; and what every command of \<^verbatim>\<open>cmd/hexa\<close>
  works on: the files, the terminal and the output file (\<open>OutputWriter\<close> of \<^verbatim>\<open>cmd/hexa/main.go\<close>).

  A command is a run on the state \<open>'s cli\<close>, whose last field is the state of the platforms.  The user's
  home directory, what the operating system refuses and the JSON form of the configuration are parameters.
  Only what JSON keeps of an integration is handed to its encoder.
\<close>

section \<open>The state of a session\<close>

record 's config_data =
  selected :: string
  integrations :: "'s integration go_map"

record 's cli =
  cli_config :: string
  config_file :: string
  data :: "'s config_data"
  loaded_models :: "namespaces option option"
  output_path :: string
  append_output :: bool
  files :: file_system
  console :: "string list"
  input_lines :: "string list"
  platforms :: 's

type_synonym ('s, 'a) command = "('s cli, 'a) run"

text \<open>What the program relies on.\<close>

record 's host =
  host_sdk :: "'s sdk"
  host_urls :: urls
  encode_credentials :: "opa_credentials \<Rightarrow> string"
  home_dir :: "string option"
  refused :: "string \<Rightarrow> string option"
  encode_config :: "'s config_data \<Rightarrow> string res"
  decode_config :: "string \<Rightarrow> 's config_data \<times> string option"

section \<open>Files\<close>

abbreviation stat_file :: "'s host \<Rightarrow> file_system \<Rightarrow> string \<Rightarrow> unit res" where
  "stat_file h \<equiv> os_stat (refused h)"

abbreviation read_file :: "'s host \<Rightarrow> file_system \<Rightarrow> string \<Rightarrow> string res" where
  "read_file h \<equiv> os_read_file (refused h)"

abbreviation put_file :: "'s host \<Rightarrow> string \<Rightarrow> string \<Rightarrow> file_system \<Rightarrow> file_system res" where
  "put_file h \<equiv> os_write_file (refused h)"

definition write_whole_file :: "'s host \<Rightarrow> string \<Rightarrow> string \<Rightarrow> ('s, unit) command" where
  "write_whole_file h p t c =
     (case put_file h p t (files c) of
        Inl e \<Rightarrow> (c, with_status 0 (Inl e))
      | Inr fs \<Rightarrow> (c\<lparr>files := fs\<rparr>, Inr ()))"

text \<open>A name that starts with a tilde is one below the home directory; without a user the program panics.\<close>

definition expand_home :: "'s host \<Rightarrow> string \<Rightarrow> string res" where
  "expand_home h p =
     (if has_prefix p ''~/'' then rbind (go_deref (home_dir h)) (\<lambda>d. Inr (path_join d (drop 2 p))) else Inr p)"

definition check_file :: "'s host \<Rightarrow> string \<Rightarrow> ('s, unit) command" where
  "check_file h p = read_run 0 (\<lambda>c. rbind (expand_home h p) (stat_file h (files c)))"

text \<open>The error of reading is ignored.\<close>

definition get_file :: "'s host \<Rightarrow> string \<Rightarrow> ('s, string) command" where
  "get_file h p = read_run 0 (\<lambda>c. rbind (expand_home h p) (\<lambda>q.
     case read_file h (files c) q of Inl (Panic m) \<Rightarrow> Inl (Panic m) | Inl (Error _) \<Rightarrow> Inr [] | Inr t \<Rightarrow> Inr t))"

section \<open>The terminal\<close>

definition line_end :: string where "line_end = [CHR 0x0A]"
definition tab :: string where "tab = [CHR 0x09]"

definition say :: "string \<Rightarrow> ('s, unit) command" where
  "say t c = (c\<lparr>console := console c @ [t]\<rparr>, Inr ())"

definition say_line :: "string \<Rightarrow> ('s, unit) command" where
  "say_line t = say (t @ line_end)"

definition fail :: "string \<Rightarrow> ('s, 'a) command" where
  "fail m = pure_run 0 (Inl (Error m))"

definition give :: "'a \<Rightarrow> ('s, 'a) command" where
  "give x = pure_run 0 (Inr x)"

text \<open>A line ends with a newline; at the end of the input there is none, and its first byte is missing.\<close>

definition confirm_proceed :: "string \<Rightarrow> ('s, bool) command" where
  "confirm_proceed msg =
     run_bind (say (if msg \<noteq> [] then msg else ''Proceed Y|[n]? '')) (\<lambda>_ c.
       case input_lines c of
         [] \<Rightarrow> (c, Inl (Crashed ''slice bounds out of range''))
       | l # ls \<Rightarrow> (c\<lparr>input_lines := ls\<rparr>, Inr (take 1 (l @ line_end) = ''Y'')))"

section \<open>The output file\<close>

text \<open>The path that is written to, when the writer is ready.\<close>

type_synonym output_writer = "string option"

definition get_output_writer :: "'s host \<Rightarrow> ('s, output_writer) command" where
  "get_output_writer h c =
     (if output_path c = [] then (c, Inr None)
      else
        (let p = output_path c;
             t = (if append_output c then (case map_of (file_texts (files c)) p of None \<Rightarrow> [] | Some t \<Rightarrow> t) else []) in
         case put_file h p t (files c) of
           Inl (Panic m) \<Rightarrow> (c, Inl (Crashed m))
         | Inl (Error e) \<Rightarrow> (c\<lparr>console := console c @ [e @ line_end]\<rparr>, Inr None)
         | Inr fs \<Rightarrow> (c\<lparr>files := fs\<rparr>, Inr (Some p))))"

definition write_output :: "output_writer \<Rightarrow> string \<Rightarrow> ('s, unit) command" where
  "write_output w t c =
     (case w of
        None \<Rightarrow> (c, Inr ())
      | Some p \<Rightarrow>
          (c\<lparr>files := (files c)\<lparr>file_texts := AList.update p
              ((case map_of (file_texts (files c)) p of None \<Rightarrow> [] | Some u \<Rightarrow> u) @ t) (file_texts (files c))\<rparr>\<rparr>, Inr ()))"

section \<open>The configuration\<close>

text \<open>The tags of \<open>Integration\<close> and \<open>Options\<close>: no provider, no HTTP client, no provider options.\<close>

definition stored_integration :: "'s integration \<Rightarrow> 's integration" where
  "stored_integration i =
     i\<lparr>int_provider := None, int_opts := (int_opts i)\<lparr>opt_client := None, provider_opts := None\<rparr>\<rparr>"

definition stored_config :: "'s config_data \<Rightarrow> 's config_data" where
  "stored_config d = d\<lparr>integrations := map (\<lambda>(k, i). (k, stored_integration i)) (integrations d)\<rparr>"

definition get_integration :: "'s config_data \<Rightarrow> string \<Rightarrow> 's integration option" where
  "get_integration d alias = map_of (integrations d) alias"

definition apps_of :: "'s integration \<Rightarrow> application_info go_map" where
  "apps_of i = (case int_apps i of None \<Rightarrow> [] | Some m \<Rightarrow> m)"

text \<open>The first integration that has the application, with its name in the configuration.\<close>

fun find_integration :: "'s integration go_map \<Rightarrow> string \<Rightarrow> (string \<times> application_info) option" where
  "find_integration [] alias = None"
| "find_integration ((k, i) # m) alias =
     (case find_application (apps_of i) alias of Some a \<Rightarrow> Some (k, a) | None \<Rightarrow> find_integration m alias)"

definition config_application :: "'s config_data \<Rightarrow> string \<Rightarrow> (string \<times> application_info) option" where
  "config_application d alias = find_integration (integrations d) alias"

definition put_integration :: "string \<Rightarrow> 's integration \<Rightarrow> 's config_data \<Rightarrow> 's config_data" where
  "put_integration k i d = d\<lparr>integrations := AList.update k i (integrations d)\<rparr>"

text \<open>Only the entry with this very alias is deleted, also when the application was found by its object id.\<close>

definition remove_application :: "string \<Rightarrow> 's config_data \<Rightarrow> 's config_data" where
  "remove_application alias d =
     (case config_application d alias of
        None \<Rightarrow> d
      | Some (k, _) \<Rightarrow>
          (case map_of (integrations d) k of
             None \<Rightarrow> d
           | Some i \<Rightarrow> put_integration k (i\<lparr>int_apps := map_option (AList.delete alias) (int_apps i)\<rparr>) d))"

definition remove_integration :: "string \<Rightarrow> 's config_data \<Rightarrow> 's config_data" where
  "remove_integration alias d = d\<lparr>integrations := AList.delete alias (integrations d)\<rparr>"

text \<open>
  The directory for the configuration is made; a slice of length 0 is compared with a slash, so a slash is
  always added.  The file is the path as given, also when that is the directory.
\<close>

definition default_config_path :: "'s host \<Rightarrow> string" where
  "default_config_path h =
     (let p = ''.hexa/config.json'' in case home_dir h of None \<Rightarrow> p | Some d \<Rightarrow> path_join d p)"

definition check_config_path :: "'s host \<Rightarrow> ('s, unit) command" where
  "check_config_path h c =
     (let path = (if cli_config c = [] then default_config_path h else cli_config c);
          dir = (if path_ext (path_base path) = [] then path else path_dir path @ ''/'') in
      if file_exists (files c) (path_clean dir) \<or> refused h (path_clean dir) \<noteq> None
      then (c\<lparr>config_file := path\<rparr>, Inr ())
      else
        (case os_mkdir (refused h) (path_clean dir) (files c) of
           Inl e \<Rightarrow> (c, with_status 0 (Inl e))
         | Inr fs \<Rightarrow> (c\<lparr>files := fs, config_file := path\<rparr>, Inr ())))"

text \<open>A file that is missing, unreadable or empty leaves the configuration as it is.\<close>

definition load_config :: "'s host \<Rightarrow> ('s, unit) command" where
  "load_config h c =
     (if refused h (config_file c) = None \<and> \<not> file_exists (files c) (config_file c) then (c, Inr ())
      else
        (case read_file h (files c) (config_file c) of
           Inl (Panic m) \<Rightarrow> (c, Inl (Crashed m))
         | Inl (Error e) \<Rightarrow> say_line (''Error reading configuration: '' @ e) c
         | Inr t \<Rightarrow>
             if t = [] then (c, Inr ())
             else
               (case decode_config h t of
                  (d, None) \<Rightarrow> (c\<lparr>data := d\<rparr>, Inr ())
                | (d, Some e) \<Rightarrow>
                    run_bind (say_line (''Error parsing stored configuration: '' @ e)) (\<lambda>_. fail e) (c\<lparr>data := d\<rparr>))))"

definition save_config :: "'s host \<Rightarrow> ('s, unit) command" where
  "save_config h c =
     (case encode_config h (stored_config (data c)) of
        Inl e \<Rightarrow> (c, with_status 0 (Inl e))
      | Inr t \<Rightarrow>
          (case put_file h (config_file c) t (files c) of
             Inl (Panic m) \<Rightarrow> (c, Inl (Crashed m))
           | Inl (Error e) \<Rightarrow> run_bind (say_line (''Error saving configuration: '' @ e)) (\<lambda>_. fail e) c
           | Inr fs \<Rightarrow> (c\<lparr>files := fs\<rparr>, Inr ())))"

end
