(* ===== verification/Cli_Commands.thy ===== *)
theory Cli_Commands
  imports Cli_Config Gcp_Bind Cedar_Mapper Pim_Validate
begin

text \<open>
  The commands of \<^verbatim>\<open>cmd/hexa/commands.go\<close> and \<^verbatim>\<open>cmd/hexa/policyInfoModel.go\<close>, as what is left of them
  after the argument parser: their arguments, the check before they run (\<open>AfterApply\<close>) and their \<open>Run\<close>.

  A command that draws aliases is given them as \<open>fresh\<close>; they are what \<open>generate_alias\<close> returns.  The JSON
  and Cedar texts of the results are parameters, the libraries' encoders, and a text that cannot be encoded is
  not written.  Maps are listed in the order of their association lists.
\<close>

section \<open>Reports\<close>

text \<open>The text of a policy, and what the encoder writes of the results.\<close>

record encoders =
  policy_text :: "policy_info option \<Rightarrow> string"
  policies_json :: "policies \<Rightarrow> string res"
  policy_array_json :: "policy_info slice \<Rightarrow> string res"
  bindings_json :: "bind_assignment list \<Rightarrow> string res"
  difs_json :: "policy_dif list \<Rightarrow> string res"

fun change_name :: "change_type \<Rightarrow> string" where
  "change_name ChangeNew = ''NEW''"
| "change_name ChangeEqual = ''MATCHED''"
| "change_name ChangeUpdate = ''UPDATE''"
| "change_name ChangeDelete = ''DELETE''"
| "change_name ChangeIgnore = ''UNSUPPORTED''"

fun difference_name :: "difference \<Rightarrow> string" where
  "difference_name CompareEqual = ''EQUAL''"
| "difference_name DifAction = ''ACTION''"
| "difference_name DifSubject = ''SUBJECT''"
| "difference_name DifObject = ''OBJECT''"
| "difference_name DifCondition = ''CONDITION''"

definition list_text :: "string list \<Rightarrow> string" where
  "list_text xs = ''['' @ join_str xs '' '' @ '']''"

definition dif_report :: "encoders \<Rightarrow> policy_dif \<Rightarrow> string" where
  "dif_report en d =
     ''DIF: '' @ change_name (dif_type d) @ '' '' @ get_identifier d @
     (case dif_type d of
        ChangeDelete \<Rightarrow> []
      | ChangeUpdate \<Rightarrow> '' '' @ list_text (map difference_name (elems (dif_types d))) @ line_end @ policy_text en (policy_compare d)
      | _ \<Rightarrow> line_end @ policy_text en (policy_compare d))"

definition say_all :: "string list \<Rightarrow> ('s, unit) command" where
  "say_all ts = run_all say ts"

definition say_reports :: "encoders \<Rightarrow> policy_dif list \<Rightarrow> ('s, unit) command" where
  "say_reports en ds =
     say_all (map (\<lambda>(i, d). nat_string i @ '': '' @ dif_report en d @ line_end) (enumerate 0 ds) @ [line_end])"

text \<open>\<open>MarshalJsonNoEscape\<close> to the terminal and to the output file; its errors are ignored.\<close>

definition text_or_empty :: "string res \<Rightarrow> string" where
  "text_or_empty r = (case r of Inl _ \<Rightarrow> [] | Inr t \<Rightarrow> t)"

definition show_json :: "'s host \<Rightarrow> string res \<Rightarrow> ('s, unit) command" where
  "show_json h r =
     run_bind (say (text_or_empty r)) (\<lambda>_.
     run_bind (get_output_writer h) (\<lambda>w. write_output w (text_or_empty r)))"

section \<open>Integrations in use\<close>

text \<open>A call of an integration of the configuration, which keeps what the call makes of it.\<close>

definition use_integration :: "string \<Rightarrow> ('s, 'a) integration_run \<Rightarrow> ('s, 'a) command" where
  "use_integration k f c =
     (case map_of (integrations (data c)) k of
        None \<Rightarrow> (c, Inl (Crashed ''nil pointer dereference''))
      | Some i \<Rightarrow>
          (case f i (platforms c) of
             (j, t, r) \<Rightarrow> (c\<lparr>data := put_integration k j (data c), platforms := t\<rparr>, r)))"

definition print_application :: "string \<Rightarrow> application_info \<Rightarrow> ('s, unit) command" where
  "print_application key a =
     say_all [''  PAP Alias: '' @ key @ line_end, ''    ObjectId:   '' @ tab @ object_id a @ line_end,
       ''    Name:       '' @ tab @ app_name a @ line_end, ''    Description:'' @ tab @ app_description a @ line_end,
       ''    Service:    '' @ tab @ app_service a @ line_end]"

definition print_integration_apps :: "'s integration \<Rightarrow> ('s, unit) command" where
  "print_integration_apps i =
     run_all (\<lambda>(k, a). run_bind (say line_end) (\<lambda>_. print_application k a)) (apps_of i)"

text \<open>The line below the title is cut from one of 79 characters.\<close>

definition print_integration_info :: "'s integration \<Rightarrow> ('s, unit) command" where
  "print_integration_info i =
     (let title = ''Integration: '' @ int_alias i in
      run_bind (say_line title) (\<lambda>_.
      run_bind (pure_run 0 (go_slice (replicate 79 (CHR ''='')) 0 (length title))) (\<lambda>rule_line.
      run_bind (say_line rule_line) (\<lambda>_.
      run_bind (say_line (''  Type:   '' @ tab @ get_type i)) (\<lambda>_.
        print_integration_apps i)))))"

section \<open>Adding integrations\<close>

definition report_apps :: "string \<Rightarrow> 's integration \<Rightarrow> ('s, 's integration) command" where
  "report_apps alias i =
     (if apps_of i = [] then
        run_bind (say_line ''No policy applications discovered.'') (\<lambda>_. fail ''no policy applications discovered'')
      else
        run_bind (say (''Successfully loaded '' @ nat_string (length (apps_of i)) @ '' policy application(s) from '' @
          alias @ line_end)) (\<lambda>_.
        run_bind (print_integration_apps i) (\<lambda>_. give i)))"

definition discover_apps :: "'s host \<Rightarrow> (nat \<Rightarrow> string) \<Rightarrow> 's integration \<Rightarrow> ('s, 's integration) command" where
  "discover_apps h fresh i c =
     (case get_application_points (host_sdk h) (Some fresh) i (platforms c) of
        (j, t, Inl e) \<Rightarrow> (c\<lparr>platforms := t\<rparr>, Inl e)
      | (j, t, Inr _) \<Rightarrow> report_apps (int_alias i) j (c\<lparr>platforms := t\<rparr>))"

definition open_integration_cmd ::
  "'s host \<Rightarrow> (nat \<Rightarrow> string) \<Rightarrow> string \<Rightarrow> (sdk_options \<Rightarrow> sdk_options) \<Rightarrow> ('s, 's integration) command" where
  "open_integration_cmd h fresh alias opt =
     (case open_integration (host_sdk h) [Some opt] of
        (Some i, Inr _) \<Rightarrow>
          run_bind (say_line (''Integration of type: '' @ get_type i @ '', alias: '' @ alias @ '' successfully defined'')) (\<lambda>_.
            discover_apps h fresh (i\<lparr>int_alias := alias\<rparr>))
      | (_, Inl e) \<Rightarrow> pure_run 0 (Inl e)
      | (None, Inr _) \<Rightarrow> pure_run 0 (Inl (Panic ''nil pointer dereference'')))"

definition store_new :: "'s host \<Rightarrow> string \<Rightarrow> 's integration \<Rightarrow> ('s, unit) command" where
  "store_new h alias i c = save_config h (c\<lparr>data := put_integration alias i (data c)\<rparr>)"

text \<open>A new alias is drawn when none is given, and then the others are those of the applications.\<close>

definition command_alias :: "(nat \<Rightarrow> string) \<Rightarrow> string \<Rightarrow> string \<times> (nat \<Rightarrow> string)" where
  "command_alias fresh alias = (if alias = [] then (fresh 0, fresh \<circ> Suc) else (alias, fresh))"

definition confirm_overwrite :: "string \<Rightarrow> ('s, unit) command" where
  "confirm_overwrite alias c =
     (if get_integration (data c) alias = None then (c, Inr ())
      else
        (let m = ''Alias '' @ [dq] @ alias @ [dq] @ '' exists'' in
         run_bind (confirm_proceed (m @ '', overwrite Y[n]'')) (\<lambda>yes. if yes then give () else fail m) c))"

definition with_info :: "string \<Rightarrow> string \<Rightarrow> sdk_options \<Rightarrow> sdk_options" where
  "with_info name key opts = opts\<lparr>opt_info := Some \<lparr>integration_name = name, integration_key = key\<rparr>\<rparr>"

definition add_gcp :: "'s host \<Rightarrow> (nat \<Rightarrow> string) \<Rightarrow> string \<Rightarrow> string \<Rightarrow> ('s, unit) command" where
  "add_gcp h fresh name file =
     (case command_alias fresh name of (alias, rest) \<Rightarrow>
      run_bind (confirm_overwrite alias) (\<lambda>_.
      run_bind (check_file h file) (\<lambda>_.
      run_bind (get_file h file) (\<lambda>key.
        if key = [] then fail ''invalid or empty Google integration file''
        else
          run_bind (open_integration_cmd h rest alias (with_info ''gcp_iap'' key)) (\<lambda>i. store_new h alias i)))))"

record opa_arguments =
  opa_kind :: string
  git_account :: string
  git_repo :: string
  git_path :: string
  bucket_arg :: string
  object_arg :: string
  credential_file :: string
  url_arg :: string
  ca_file :: string
  opa_file :: string
  client_id_arg :: string
  client_secret_arg :: string
  token_url_arg :: string
  scopes_arg :: "string list"

definition require :: "bool \<Rightarrow> string \<Rightarrow> ('s, unit) command" where
  "require b m = (if b then give () else fail m)"

text \<open>An error of the check with the text that is put before it.\<close>

definition check_named_file :: "'s host \<Rightarrow> string \<Rightarrow> string \<Rightarrow> ('s, unit) command" where
  "check_named_file h before p =
     (if p = [] then give ()
      else read_run 0 (\<lambda>c.
        case rbind (expand_home h p) (stat_file h (files c)) of
          Inl (Error e) \<Rightarrow> Inl (Error (before @ e)) | r \<Rightarrow> r))"

definition apostrophes :: "string \<Rightarrow> string" where
  "apostrophes t = [CHR 0x27] @ t @ [CHR 0x27]"

definition opa_after_apply :: "'s host \<Rightarrow> opa_arguments \<Rightarrow> ('s, unit) command" where
  "opa_after_apply h a =
     (if opa_file a \<noteq> [] then check_file h (opa_file a)
      else
        run_bind (check_named_file h ''Unable to open CaFile: '' (ca_file a)) (\<lambda>_.
        run_bind (check_named_file h ''Unable to locate credential file: '' (credential_file a)) (\<lambda>_.
          if opa_kind a = ''aws'' \<or> opa_kind a = ''gcp'' then
            run_bind (require (credential_file a \<noteq> []) ''missing client credential'') (\<lambda>_.
            run_bind (require (bucket_arg a \<noteq> []) ''missing storage bucket name (--bucket)'') (\<lambda>_.
              require (object_arg a \<noteq> []) ''missing storage object name (--object)''))
          else if opa_kind a = ''github'' then
            run_bind (require (credential_file a \<noteq> []) ''missing github credential'') (\<lambda>_.
            run_bind (require (git_account a \<noteq> []) ''missing --account parameter'') (\<lambda>_.
            run_bind (require (git_repo a \<noteq> []) ''missing --repo parameter'') (\<lambda>_.
              require (git_path a \<noteq> []) ''missing --path parameter for bundle'')))
          else if opa_kind a = ''http'' then
            run_bind (require (url_arg a \<noteq> []) ''missing --url for bundle location'') (\<lambda>_.
              require ((client_id_arg a = [] \<longleftrightarrow> client_secret_arg a = []) \<and>
                  (client_secret_arg a = [] \<longleftrightarrow> token_url_arg a = []))
                ''for OAuth2 Client Credentials support, provide all of --clientid, --secret, --tokenurl'')
          else fail (''specify a type of '' @ apostrophes ''aws'' @ '', '' @ apostrophes ''gcp'' @ '', '' @
            apostrophes ''github'' @ '', or '' @ apostrophes ''http''))))"

text \<open>The option made from the arguments; the check has left no kind but these four.\<close>

definition opa_option :: "'s host \<Rightarrow> opa_arguments \<Rightarrow> ('s, sdk_options \<Rightarrow> sdk_options) command" where
  "opa_option h a =
     (let file = (\<lambda>p. if p = [] then give [] else get_file h p); enc = encode_credentials h in
      run_bind (file (credential_file a)) (\<lambda>cred.
        if opa_kind a = ''aws'' then give (with_opa_aws enc (bucket_arg a) (object_arg a) cred)
        else if opa_kind a = ''gcp'' then give (with_opa_gcp enc (bucket_arg a) (object_arg a) cred)
        else if opa_kind a = ''github'' then give (with_opa_github enc (git_account a) (git_repo a) (git_path a) cred)
        else
          run_bind (file (ca_file a)) (\<lambda>cert.
            if client_id_arg a \<noteq> [] then
              give (with_opa_oauth (host_urls h) enc (url_arg a) cert
                \<lparr>cc_client_id = client_id_arg a, cc_secret = client_secret_arg a, cc_token_url = token_url_arg a,
                 cc_scopes = scopes_arg a\<rparr>)
            else give (with_opa_http (host_urls h) enc (url_arg a) cert (Some cred)))))"

text \<open>No confirmation is asked for here.\<close>

definition add_opa :: "'s host \<Rightarrow> (nat \<Rightarrow> string) \<Rightarrow> string \<Rightarrow> opa_arguments \<Rightarrow> ('s, unit) command" where
  "add_opa h fresh name a =
     (case command_alias fresh name of (alias, rest) \<Rightarrow>
      run_bind (opa_after_apply h a) (\<lambda>_.
      run_bind (if opa_file a \<noteq> [] then run_bind (get_file h (opa_file a)) (\<lambda>key. give (with_info ''opa'' key))
                else opa_option h a) (\<lambda>opt.
      run_bind (open_integration_cmd h rest alias opt) (\<lambda>i. store_new h alias i))))"

record aws_arguments =
  aws_kind :: string
  aws_region :: "string option"
  aws_keyid :: "string option"
  aws_secret :: "string option"
  aws_file :: string

definition aws_after_apply :: "'s host \<Rightarrow> aws_arguments \<Rightarrow> ('s, unit) command" where
  "aws_after_apply h a =
     (let m = ''must provide all of --keyid, --secret, and --region, or --file'' in
      run_bind
        (if aws_file a = [] then require (aws_secret a \<noteq> None \<and> aws_keyid a \<noteq> None \<and> aws_region a \<noteq> None) m
         else
           run_bind (check_file h (aws_file a)) (\<lambda>_.
             require (aws_secret a = None \<and> aws_keyid a = None \<and> aws_region a = None) m)) (\<lambda>_.
        require (aws_kind a \<in> {''avp'', ''cognito'', ''apigw''}) ''specify the AWS provider type: apigw, avp, or cognito''))"

text \<open>A JSON object written by hand, so a quote in an argument ends the text it is put into.\<close>

definition key_object :: "(string \<times> string) list \<Rightarrow> string" where
  "key_object kvs =
     ''{'' @ line_end @
     join_str (map (\<lambda>(k, v). ''  '' @ [dq] @ k @ [dq] @ '': '' @ [dq] @ v @ [dq]) kvs) ('','' @ line_end) @
     line_end @ ''}''"

definition arg_key :: "(string \<times> string option) list \<Rightarrow> string res" where
  "arg_key kvs = rbind (mapM (\<lambda>(k, v). rbind (go_deref v) (\<lambda>t. Inr (k, t))) kvs) (\<lambda>ts. Inr (key_object ts))"

definition aws_provider_type :: "string \<Rightarrow> string" where
  "aws_provider_type k =
     (if k = ''avp'' then ''avp'' else if k = ''apigw'' then ''awsapigw'' else if k = ''cognito'' then ''cognito'' else [])"

definition add_aws :: "'s host \<Rightarrow> (nat \<Rightarrow> string) \<Rightarrow> string \<Rightarrow> aws_arguments \<Rightarrow> ('s, unit) command" where
  "add_aws h fresh name a =
     (case command_alias fresh name of (alias, rest) \<Rightarrow>
      run_bind (aws_after_apply h a) (\<lambda>_.
      run_bind (confirm_overwrite alias) (\<lambda>_.
      run_bind (if aws_file a \<noteq> [] then get_file h (aws_file a)
                else pure_run 0 (arg_key [(''accessKeyID'', aws_keyid a), (''secretAccessKey'', aws_secret a),
                  (''region'', aws_region a)])) (\<lambda>key.
      run_bind (open_integration_cmd h rest alias (with_info (aws_provider_type (aws_kind a)) key)) (\<lambda>i.
        store_new h alias i)))))"

record azure_arguments =
  azure_tenant :: "string option"
  azure_clientid :: "string option"
  azure_secret :: "string option"
  azure_file :: string

definition azure_after_apply :: "'s host \<Rightarrow> azure_arguments \<Rightarrow> ('s, unit) command" where
  "azure_after_apply h a =
     (let m = ''must provide all of --tenant, --secret, and --appid, or --file'' in
      if azure_file a = [] then require (azure_secret a \<noteq> None \<and> azure_tenant a \<noteq> None \<and> azure_clientid a \<noteq> None) m
      else
        run_bind (check_file h (azure_file a)) (\<lambda>_.
          require (azure_secret a = None \<and> azure_tenant a = None \<and> azure_clientid a = None) m))"

definition add_azure :: "'s host \<Rightarrow> (nat \<Rightarrow> string) \<Rightarrow> string \<Rightarrow> azure_arguments \<Rightarrow> ('s, unit) command" where
  "add_azure h fresh name a =
     (case command_alias fresh name of (alias, rest) \<Rightarrow>
      run_bind (azure_after_apply h a) (\<lambda>_.
      run_bind (confirm_overwrite alias) (\<lambda>_.
      run_bind (if azure_file a = []
                then pure_run 0 (arg_key [(''appId'', azure_clientid a), (''secret'', azure_secret a), (''tenant'', azure_tenant a)])
                else get_file h (azure_file a)) (\<lambda>key.
      run_bind (open_integration_cmd h rest alias (with_info ''azure'' key)) (\<lambda>i. store_new h alias i)))))"

section \<open>Using and removing them\<close>

definition not_found :: "string \<Rightarrow> ('s, 'a) command" where
  "not_found m = fail (m @ '' not found'')"

definition export_integration :: "'s host \<Rightarrow> string \<Rightarrow> string \<Rightarrow> ('s, unit) command" where
  "export_integration h alias file c =
     (case get_integration (data c) alias of
        None \<Rightarrow> not_found (''alias '' @ alias) c
      | Some i \<Rightarrow>
          run_bind (pure_run 0 (go_deref (opt_info (int_opts i)))) (\<lambda>info.
          run_bind (say_line (''Exporting to: '' @ file @ '' ...'')) (\<lambda>_.
            write_whole_file h file (integration_key info))) c)"

text \<open>The applications found are kept in the session, but the configuration is not saved.\<close>

definition get_paps :: "'s host \<Rightarrow> (nat \<Rightarrow> string) \<Rightarrow> string \<Rightarrow> ('s, unit) command" where
  "get_paps h fresh alias c =
     (if get_integration (data c) alias = None then not_found (''alias '' @ alias) c
      else
        run_bind (use_integration alias (get_application_points (host_sdk h) (Some fresh))) (\<lambda>_ d.
          case get_integration (data d) alias of
            None \<Rightarrow> (d, Inl (Crashed ''nil pointer dereference''))
          | Some i \<Rightarrow>
              if apps_of i = [] then say_line ''No policy applications discovered.'' d else print_integration_apps i d) c)"

definition get_policies_cmd :: "'s host \<Rightarrow> encoders \<Rightarrow> string \<Rightarrow> ('s, unit) command" where
  "get_policies_cmd h en alias c =
     (case config_application (data c) alias of
        None \<Rightarrow> not_found (''pap alias '' @ alias) c
      | Some (k, _) \<Rightarrow>
          run_bind (use_integration k (sdk_get_policies (host_sdk h) alias)) (\<lambda>ps.
          run_bind (say_line (''Policies retrieved for '' @ alias @ '':'')) (\<lambda>_.
            show_json h (policies_json en ps))) c)"

text \<open>
  The comparison is for information only: its error is compared with a new error value, which is never the
  same one, so a comparison that fails prints an empty report and the policies are set all the same.
\<close>

definition show_differences ::
  "(string \<Rightarrow> string) \<Rightarrow> 's host \<Rightarrow> encoders \<Rightarrow> string \<Rightarrow> string \<Rightarrow> policy_info list \<Rightarrow> ('s, unit) command" where
  "show_differences hash h en k alias ps c =
     (case use_integration k (sdk_reconcile_policy hash (host_sdk h) alias ps False) c of
        (d, Inl (Crashed m)) \<Rightarrow> (d, Inl (Crashed m))
      | (d, r) \<Rightarrow>
          (let ds = (case r of Inl _ \<Rightarrow> [] | Inr ds \<Rightarrow> ds) in
           run_bind (say_reports en ds) (\<lambda>_.
           run_bind (get_output_writer h) (\<lambda>w. write_output w (text_or_empty (difs_json en ds)))) d))"

definition status_line :: "nat \<Rightarrow> string" where
  "status_line n =
     (if n = 202 \<or> n = 200 then ''Policies applied successfully.''
      else if n = 400 \<or> n = 500 then ''Bad request or internal processing error''
      else if n = 401 \<or> n = 403 then ''Request was unauthorized or forbidden''
      else ''Received HTTP Status: '' @ nat_string n)"

definition set_policies_cmd ::
  "(string \<Rightarrow> string) \<Rightarrow> 's host \<Rightarrow> encoders \<Rightarrow> policy_decoders \<Rightarrow> string \<Rightarrow> string \<Rightarrow> bool \<Rightarrow> ('s, unit) command" where
  "set_policies_cmd hash h en dec alias file differences c =
     (case config_application (data c) alias of
        None \<Rightarrow> not_found (''pap alias '' @ alias) c
      | Some (k, _) \<Rightarrow>
          run_bind (read_run 0 (\<lambda>c. parse_policy_file dec (read_file h (files c)) file)) (\<lambda>found.
          run_bind (if differences then show_differences hash h en k alias (elems found) else give ()) (\<lambda>_.
          run_bind (say_line (''Applying '' @ nat_string (length (elems found)) @ '' policies to '' @ alias)) (\<lambda>_.
          run_bind (confirm_proceed ''Update policies Y|[n]?'') (\<lambda>yes.
            if \<not> yes then give ()
            else
              run_bind (use_integration k (sdk_set_policy_info (host_sdk h) alias (elems found))) (\<lambda>n.
                say_line (status_line n)))))) c)"

definition show_integration :: "string \<Rightarrow> ('s, unit) command" where
  "show_integration alias c =
     (if alias = ''*'' \<or> alias = [] then
        (if integrations (data c) = [] then say_line (''No integrations defined. See '' @ apostrophes ''add'' @ '' command.'') c
         else run_all (\<lambda>(k, i). run_bind (print_integration_info i) (\<lambda>_. say line_end)) (integrations (data c)) c)
      else
        (case get_integration (data c) alias of
           None \<Rightarrow> not_found (''alias '' @ alias) c
         | Some i \<Rightarrow>
             run_bind (say_line ''Policy Application Points retrieved:'') (\<lambda>_.
             run_bind (say line_end) (\<lambda>_. print_integration_apps i)) c))"

definition list_applications :: "string \<Rightarrow> ('s, unit) command" where
  "list_applications alias c =
     (case get_integration (data c) alias of
        Some i \<Rightarrow>
          run_bind (say_line (''Listing applications for integration '' @ alias @ '':'')) (\<lambda>_. print_integration_apps i) c
      | None \<Rightarrow>
          (case config_application (data c) alias of
             None \<Rightarrow> not_found (''alias '' @ alias) c
           | Some (_, a) \<Rightarrow> print_application alias a c))"

definition delete_integration :: "'s host \<Rightarrow> string \<Rightarrow> ('s, unit) command" where
  "delete_integration h alias c =
     (if get_integration (data c) alias = None then not_found (''integration '' @ alias) c
      else save_config h (c\<lparr>data := remove_integration alias (data c)\<rparr>))"

definition delete_pap :: "'s host \<Rightarrow> string \<Rightarrow> ('s, unit) command" where
  "delete_pap h alias c =
     (if config_application (data c) alias = None then not_found (''policy application '' @ alias) c
      else save_config h (c\<lparr>data := remove_application alias (data c)\<rparr>))"

text \<open>Whether the program ends; with an error of saving the user may stay.\<close>

definition exit_session :: "'s host \<Rightarrow> ('s, bool) command" where
  "exit_session h c =
     (case save_config h c of
        (d, Inr _) \<Rightarrow> (d, Inr True)
      | (d, Inl (Crashed m)) \<Rightarrow> (d, Inl (Crashed m))
      | (d, Inl (Failed _ e)) \<Rightarrow>
          run_bind (say_line e) (\<lambda>_.
          run_bind (confirm_proceed ''Abort exit? Y|[n] '') (\<lambda>yes. give (\<not> yes))) d)"

section \<open>Comparing and translating\<close>

text \<open>What an argument stands for: an application of the configuration, or else a file.\<close>

definition policies_of ::
  "'s host \<Rightarrow> policy_decoders \<Rightarrow> string \<Rightarrow> (string \<times> application_info) option \<Rightarrow> ('s, policy_info slice) command" where
  "policies_of h dec arg found =
     (case found of
        None \<Rightarrow> read_run 0 (\<lambda>c. rbind (read_file h (files c) arg) (parse_policies dec))
      | Some (k, _) \<Rightarrow>
          run_bind (use_integration k (sdk_get_policies (host_sdk h) arg)) (\<lambda>ps. give (policy_list ps)))"

definition reconcile_cmd ::
  "(string \<Rightarrow> string) \<Rightarrow> 's host \<Rightarrow> encoders \<Rightarrow> policy_decoders \<Rightarrow> string \<Rightarrow> string \<Rightarrow> bool \<Rightarrow> ('s, unit) command" where
  "reconcile_cmd hash h en dec source compare differences c =
     (let app_source = config_application (data c) source in
      run_bind (policies_of h dec compare (config_application (data c) compare)) (\<lambda>ps.
      run_bind
        (case app_source of
           None \<Rightarrow>
             run_bind (policies_of h dec source None) (\<lambda>existing.
               pure_run 0 (reconcile_policies hash \<lparr>policy_list = existing, app = None\<rparr> (elems ps) differences))
         | Some (k, _) \<Rightarrow> use_integration k (sdk_reconcile_policy hash (host_sdk h) source (elems ps) differences)) (\<lambda>ds.
      run_bind (say_reports en ds) (\<lambda>_.
      run_bind (get_output_writer h) (\<lambda>w. write_output w (text_or_empty (difs_json en ds)))))) c)"

definition map_formats :: "string list" where
  "map_formats = [''gcp'', ''cedar'']"

definition format_known :: "string \<Rightarrow> ('s, unit) command" where
  "format_known fmt =
     require (to_lower fmt \<in> set map_formats) (''Invalid format. Valid values are: '' @ list_text map_formats)"

text \<open>The translators, with no names to map; the libraries' parsers of Cedar, of CEL and of the bindings.\<close>

record translators =
  decimal_parser :: "string \<Rightarrow> string option"
  cedar_parser :: "string \<Rightarrow> string + policy_json list"
  cel_parser :: "string \<Rightarrow> string + cel_expr"
  bindings_decoder :: "string \<Rightarrow> bind_document res"

definition cli_cedar_mapper :: "translators \<Rightarrow> cedar_mapper" where
  "cli_cedar_mapper tr = \<lparr>name_map = new_name_mapper [], parse_decimal = decimal_parser tr\<rparr>"

text \<open>The output file of the Cedar text is opened a second time, only to be closed.\<close>

definition map_to_cmd ::
  "'s host \<Rightarrow> encoders \<Rightarrow> policy_decoders \<Rightarrow> translators \<Rightarrow> string \<Rightarrow> string \<Rightarrow> ('s, unit) command" where
  "map_to_cmd h en dec tr fmt file =
     run_bind (format_known fmt) (\<lambda>_.
     run_bind (say_line (''Mapping IDQL to '' @ fmt)) (\<lambda>_.
     run_bind (read_run 0 (\<lambda>c. parse_policy_file dec (read_file h (files c)) file)) (\<lambda>ps.
       if to_lower fmt = ''gcp'' then
         run_bind (pure_run 0 (map_policies_to_bindings (new_name_mapper []) (elems ps))) (\<lambda>bs.
           show_json h (bindings_json en bs))
       else if to_lower fmt = ''cedar'' then
         run_bind (pure_run 0 (map_hexa_policies (cli_cedar_mapper tr) (elems ps))) (\<lambda>t.
         run_bind (say_line t) (\<lambda>_.
         run_bind (get_output_writer h) (\<lambda>w.
         run_bind (write_output w t) (\<lambda>_.
         run_bind (get_output_writer h) (\<lambda>_. give ())))))
       else give ())))"

definition map_from_cmd ::
  "'s host \<Rightarrow> encoders \<Rightarrow> translators \<Rightarrow> string \<Rightarrow> string \<Rightarrow> ('s, unit) command" where
  "map_from_cmd h en tr fmt file =
     run_bind (format_known fmt) (\<lambda>_.
     run_bind (say_line (''Mapping from '' @ fmt @ '' to IDQL'')) (\<lambda>_.
     run_bind
       (if to_lower fmt = ''gcp'' then
          read_run 0 (\<lambda>c. rbind (read_file h (files c) file) (\<lambda>t. rbind (bindings_decoder tr t) (\<lambda>doc.
            rbind (map_assignments_to_policy (cel_parser tr) (new_name_mapper []) (parse_bindings doc)) (\<lambda>ps.
              Inr (if ps = [] then None else Some ps)))))
        else if to_lower fmt = ''cedar'' then
          read_run 0 (\<lambda>c. rbind (read_file h (files c) file) (\<lambda>t.
            rbind (map_cedar_policies (cedar_parser tr) file t) (\<lambda>ps. Inr (policy_list ps))))
        else give None) (\<lambda>ps.
       show_json h (policy_array_json en ps))))"

end
