(* ===== verification/Cli_Models.thy ===== *)
theory Cli_Models
  imports Cli_Commands
begin

text \<open>
  The commands on policy information models, \<^verbatim>\<open>cmd/hexa/policyInfoModel.go\<close>: loading models into the
  session, showing them and validating the policies of a file against them; and the words of a command line
  that are put into lower case (\<^verbatim>\<open>cmd/hexa/main.go\<close>).  The decoder of a model is a parameter.
\<close>

section \<open>Loading\<close>

text \<open>
  The decoder's result is a pointer that is never nil, so the test for no data is never met.  The map it points to is
  nil for the document \<open>null\<close>, and a map that is nil cannot be written to.
\<close>

definition add_namespaces :: "namespaces option \<Rightarrow> namespaces option \<Rightarrow> namespaces option res" where
  "add_namespaces old new =
     foldM (\<lambda>m (k, s).
         case m of
           None \<Rightarrow> Inl (Panic ''assignment to entry in nil map'')
         | Some n \<Rightarrow> Inr (Some (AList.update k s n)))
       old (elems new)"

definition load_model_cmd :: "'s host \<Rightarrow> (string \<Rightarrow> namespaces option res) \<Rightarrow> string \<Rightarrow> ('s, unit) command" where
  "load_model_cmd h parse file =
     run_bind (read_run 0 (\<lambda>c. rbind (read_file h (files c) file) parse)) (\<lambda>ns.
     run_bind (read_run 0 (\<lambda>c. case loaded_models c of None \<Rightarrow> Inr ns | Some old \<Rightarrow> add_namespaces old ns)) (\<lambda>all c.
       run_bind (say_line ''Namespaces loaded:'') (\<lambda>_. say_all (map (\<lambda>(k, _). tab @ k @ line_end) (elems ns)))
         (c\<lparr>loaded_models := Some all\<rparr>)))"

section \<open>Showing\<close>

text \<open>A line for the terminal and for the output file.\<close>

definition emit :: "output_writer \<Rightarrow> string \<Rightarrow> ('s, unit) command" where
  "emit w t = run_bind (say t) (\<lambda>_. write_output w t)"

definition pad_right :: "nat \<Rightarrow> string \<Rightarrow> string" where
  "pad_right n t = t @ replicate (n - length (runes t)) (CHR '' '')"

definition print_attrs :: "output_writer \<Rightarrow> attr_type go_map option \<Rightarrow> ('s, unit) command" where
  "print_attrs w m =
     (if elems m = [] then emit w (''No attributes defined'' @ line_end @ line_end)
      else
        run_bind (run_all (\<lambda>(k, a). emit w (pad_right 20 k @ tab @ at_type a @ line_end)) (elems m)) (\<lambda>_.
          emit w line_end))"

text \<open>A title and a line of the same length below it.\<close>

definition divider :: "char \<Rightarrow> string \<Rightarrow> string" where
  "divider c line = replicate (length line - 1) c @ line_end"

definition member_text :: "string \<Rightarrow> string slice \<Rightarrow> string" where
  "member_text before ms = (case ms of None \<Rightarrow> [] | Some xs \<Rightarrow> before @ ''MemberOf: '' @ list_text xs)"

definition show_entity :: "output_writer \<Rightarrow> string \<times> entity_type \<Rightarrow> ('s, unit) command" where
  "show_entity w = (\<lambda>(k, e).
     let line = k @ member_text '' '' (member_of_types e) @ line_end in
     run_bind (say_all [line, divider (CHR ''-'') line]) (\<lambda>_.
     run_bind (write_output w (line @ divider (CHR ''-'') line)) (\<lambda>_.
       print_attrs w (shape_attributes (shape e)))))"

definition show_common_type :: "output_writer \<Rightarrow> string \<times> context_type \<Rightarrow> ('s, unit) command" where
  "show_common_type w = (\<lambda>(k, e).
     let line = k @ line_end in
     run_bind (emit w line) (\<lambda>_.
     run_bind (emit w (divider (CHR ''-'') line)) (\<lambda>_.
       print_attrs w (context_attributes e))))"

definition applies_line :: "string \<Rightarrow> string list option \<Rightarrow> string list" where
  "applies_line title ts = (case ts of None \<Rightarrow> [] | Some xs \<Rightarrow> ['' '' @ title @ '' ->'' @ tab @ join_str xs '', '' @ line_end])"

definition show_action :: "output_writer \<Rightarrow> string \<times> action_type \<Rightarrow> ('s, unit) command" where
  "show_action w = (\<lambda>(k, e).
     run_all (emit w)
       ([k @ '', '' @ (case member_of e of None \<Rightarrow> [] | Some xs \<Rightarrow> ''MemberOf: '' @ list_text xs @ '', ''),
         ''applies to'' @ line_end] @
        applies_line ''Subjects'' (principal_types (applies_to e)) @
        applies_line ''Objects'' (resource_types (applies_to e))))"

text \<open>The terminal and the file differ in a colon, and the terminal gets a stray \<open>false\<close>.\<close>

definition display_namespace :: "output_writer \<Rightarrow> string \<Rightarrow> schema_type \<Rightarrow> ('s, unit) command" where
  "display_namespace w name schema =
     (let line = line_end @ ''Namespace: '' @ name @ line_end;
          under = replicate (length line - 2) (CHR ''='') @ line_end @ line_end in
      run_bind (say_all [line, under, ''Entities:'' @ line_end]) (\<lambda>_.
      run_bind (write_output w (line @ under @ ''Entities'' @ line_end)) (\<lambda>_.
      run_bind (run_all (show_entity w) (schema_entity_types schema)) (\<lambda>_.
      run_bind
        (if common_types schema \<noteq> [] then
           run_bind (emit w (''Common Types:'' @ line_end @ line_end)) (\<lambda>_.
             run_all (show_common_type w) (common_types schema))
         else emit w (line_end @ ''No Common Types'' @ line_end @ line_end)) (\<lambda>_.
        if schema_actions schema \<noteq> [] then
          run_bind (emit w (''Actions:'' @ line_end @ line_end)) (\<lambda>_. run_all (show_action w) (schema_actions schema))
        else
          (let none = line_end @ ''No Actions'' @ line_end @ line_end in
           run_bind (say (none @ ''false'')) (\<lambda>_. write_output w none)))))))"

definition no_namespaces :: "('s, 'a) command" where
  "no_namespaces = fail (''no namespaces loaded. Use the `load model` command'')"

definition show_model_cmd :: "'s host \<Rightarrow> string \<Rightarrow> ('s, unit) command" where
  "show_model_cmd h name =
     run_bind (get_output_writer h) (\<lambda>w c.
       case loaded_models c of
         None \<Rightarrow> no_namespaces c
       | Some m \<Rightarrow>
           (if name = ''*'' then run_all (\<lambda>(k, s). display_namespace w k s) (elems m) c
            else
              (case map_of (elems m) name of
                 None \<Rightarrow> fail ''namespace not found or not loaded'' c
               | Some s \<Rightarrow> display_namespace w name s c)))"

section \<open>Validating\<close>

definition validate_one :: "nat \<Rightarrow> output_writer \<Rightarrow> validator \<Rightarrow> nat \<times> policy_info \<Rightarrow> ('s, unit) command" where
  "validate_one depth w v = (\<lambda>(i, p).
     run_bind (emit w (case policy_id (meta p) of None \<Rightarrow> ''Policy-'' @ nat_string i | Some t \<Rightarrow> t)) (\<lambda>_.
     run_bind (pure_run 0 (validate_policy depth v p)) (\<lambda>errs.
       if errs = [] then emit w (''...Valid'' @ line_end @ line_end)
       else
         run_bind (run_all (\<lambda>e. emit w (line_end @ ''  '' @ e)) errs) (\<lambda>_. emit w line_end))))"

definition validate_policy_cmd ::
  "nat \<Rightarrow> 's host \<Rightarrow> policy_decoders \<Rightarrow> string \<Rightarrow> string \<Rightarrow> ('s, unit) command" where
  "validate_policy_cmd depth h dec name file =
     run_bind (get_output_writer h) (\<lambda>w c.
       case loaded_models c of
         None \<Rightarrow> no_namespaces c
       | Some m \<Rightarrow>
           run_bind (read_run 0 (\<lambda>c. parse_policy_file dec (read_file h (files c)) file)) (\<lambda>ps.
             if elems ps = [] then fail ''no policies found''
             else run_all (validate_one depth w (get_validator (elems m) name)) (enumerate 0 (elems ps))) c)"

section \<open>The words of a command\<close>

definition keywords_list :: "string list" where
  "keywords_list = [''add'', ''aws'', ''cognito'', ''apigw'', ''avp'', ''gcp'', ''azure'', ''integration'', ''int'', ''paps'',
     ''app'', ''applications'', ''policies'', ''map'', ''to'', ''from'', ''reconcile'', ''set'', ''show'', ''exit'', ''help'',
     ''--file='']"

definition lowercase_keywords :: "string list \<Rightarrow> string list" where
  "lowercase_keywords args =
     map (\<lambda>v. let t = (if to_lower v \<in> set keywords_list then to_lower v else v) in
        if has_prefix t ''--file='' then replace_all t ([bslash] @ '' '') '' '' else t) args"

section \<open>Lemmas\<close>

lemma add_namespaces_lookup:
  assumes "add_namespaces (Some old) new = Inr all" and "distinct (map fst (elems new))"
  shows "\<exists>m. all = Some m \<and> map_of m = map_of old ++ map_of (elems new)"
proof -
  have "\<exists>m. all = Some m \<and> map_of m = map_of old ++ map_of ns"
    if "add_namespaces (Some old) (Some ns) = Inr all" and "distinct (map fst ns)" for ns
    using that
  proof (induction ns arbitrary: old)
    case (Cons p ns)
    obtain k s where p: "p = (k, s)" by (cases p)
    with Cons.prems Cons.IH [of "AList.update k s old"] obtain m where
      "all = Some m" and m: "map_of m = map_of (AList.update k s old) ++ map_of ns"
      by (auto simp: add_namespaces_def)
    moreover have "k \<notin> dom (map_of ns)" using Cons.prems by (simp add: p dom_map_of_conv_image_fst)
    ultimately show ?case by (auto simp: p update_conv' map_add_def fun_eq_iff split: option.splits)
  qed (auto simp: add_namespaces_def)
  with assms show ?thesis by (cases new) (auto simp: add_namespaces_def)
qed

text \<open>Models that are loaded after a file that was \<open>null\<close> panic.\<close>

lemma models_after_null_panic:
  assumes "elems new \<noteq> []"
  shows "add_namespaces None new = Inl (Panic ''assignment to entry in nil map'')"
  using assms by (cases "elems new") (auto simp: add_namespaces_def)

end
