(* ===== verification/Cli_Sync.thy ===== *)
theory Cli_Sync
  imports Cli_Models
begin

text \<open>
  What the commands do to the saved configuration.  Every command that changes it on purpose saves it, so a new
  session has the changes (\<open>changes_survive_restart\<close>); finding the applications again does not save
  (\<open>discovered_aliases_unsaved\<close>), deleting an application by its object id deletes nothing
  (\<open>delete_by_object_id_keeps\<close>), and the Cedar text that is written to an output file is erased again
  (\<open>cedar_output_erased\<close>).
\<close>

section \<open>The commands that change the configuration\<close>

datatype config_change =
  AddGcp string string
| AddOpa string opa_arguments
| AddAws string aws_arguments
| AddAzure string azure_arguments
| DeleteIntegration string
| DeletePap string

fun run_change :: "'s host \<Rightarrow> (nat \<Rightarrow> string) \<Rightarrow> config_change \<Rightarrow> ('s, unit) command" where
  "run_change h fresh (AddGcp name file) = add_gcp h fresh name file"
| "run_change h fresh (AddOpa name a) = add_opa h fresh name a"
| "run_change h fresh (AddAws name a) = add_aws h fresh name a"
| "run_change h fresh (AddAzure name a) = add_azure h fresh name a"
| "run_change h fresh (DeleteIntegration alias) = delete_integration h alias"
| "run_change h fresh (DeletePap alias) = delete_pap h alias"

text \<open>A new session, which has only the files of the one before.\<close>

definition new_session :: "'s cli \<Rightarrow> 's cli" where
  "new_session c = c\<lparr>data := \<lparr>selected = [], integrations = []\<rparr>, loaded_models := None, console := []\<rparr>"

text \<open>What JSON encodes it decodes, and no object is an empty text.\<close>

definition config_codec :: "'s host \<Rightarrow> bool" where
  "config_codec h \<longleftrightarrow> (\<forall>d t. encode_config h (stored_config d) = Inr t \<longrightarrow>
     t \<noteq> [] \<and> decode_config h t = (stored_config d, None))"

section \<open>Saving and loading\<close>

definition is_saved :: "'s host \<Rightarrow> 's cli \<Rightarrow> bool" where
  "is_saved h c \<longleftrightarrow> (\<exists>t. encode_config h (stored_config (data c)) = Inr t \<and>
     read_file h (files c) (config_file c) = Inr t \<and> file_exists (files c) (config_file c))"

lemma say_Inr [rbind_iff]: "say t c = (d, Inr u) \<longleftrightarrow> d = c\<lparr>console := console c @ [t]\<rparr>"
  by (auto simp: say_def)

lemma give_Inr [rbind_iff]: "give x c = (d, Inr y) \<longleftrightarrow> d = c \<and> y = x"
  by (auto simp: give_def rbind_iff)

lemma fail_Inr [rbind_iff]: "fail m c \<noteq> (d, Inr y)"
  by (simp add: fail_def rbind_iff)

lemma save_config_saved: "save_config h c = (d, Inr u) \<Longrightarrow> is_saved h d"
  using os_write_file_read
  by (fastforce simp: save_config_def is_saved_def rbind_iff split: sum.splits fault.splits)

lemma saved_loads:
  assumes "config_codec h" and "is_saved h d"
  shows "load_config h (new_session d) = ((new_session d)\<lparr>data := stored_config (data d)\<rparr>, Inr ())"
  using assms by (auto simp: config_codec_def is_saved_def load_config_def new_session_def)

lemma store_new_saved: "store_new h alias i c = (d, Inr u) \<Longrightarrow> is_saved h d"
  unfolding store_new_def by (rule save_config_saved)

lemma change_saved: "run_change h fresh ch c = (d, Inr u) \<Longrightarrow> is_saved h d"
  by (cases ch)
    (auto simp: add_gcp_def add_opa_def add_aws_def add_azure_def delete_integration_def delete_pap_def not_found_def
      rbind_iff split: prod.splits if_splits intro: store_new_saved save_config_saved)

section \<open>What a command leaves alone\<close>

text \<open>A part of the state that a command never changes, whatever its result.\<close>

definition keeps :: "('s cli \<Rightarrow> 'b) \<Rightarrow> ('s, 'a) command \<Rightarrow> bool" where
  "keeps f m \<longleftrightarrow> (\<forall>c. f (fst (m c)) = f c)"

named_theorems keeping

lemma keeps_give [keeping]: "keeps f (give x)" and keeps_fail [keeping]: "keeps f (fail m)"
  and keeps_pure [keeping]: "keeps f (pure_run n r)" and keeps_read [keeping]: "keeps f (read_run n g)"
  by (simp_all add: keeps_def give_def fail_def pure_run_def read_run_def)

lemma keeps_bind [keeping]: "keeps f m \<Longrightarrow> (\<And>x. keeps f (g x)) \<Longrightarrow> keeps f (run_bind m g)"
  by (auto simp: keeps_def run_bind_def split: prod.splits sum.splits) (metis fst_conv)+

lemma keeps_all [keeping]: "(\<And>x. keeps f (g x)) \<Longrightarrow> keeps f (run_all g xs)"
proof (induction xs)
  case (Cons x xs)
  have "run_all g (x # xs) = run_bind (g x) (\<lambda>_. run_all g xs)" by (rule ext) simp
  with Cons keeps_bind show ?case by metis
qed (simp add: keeps_def)

lemma keeps_fst: "keeps f m \<Longrightarrow> m c = (d, r) \<Longrightarrow> f d = f c"
  unfolding keeps_def by (metis fst_conv)

lemma say_keeps [keeping]: "keeps data (say t)" "keeps files (say t)"
  by (simp_all add: keeps_def say_def)

lemma print_application_keeps [keeping]: "keeps data (print_application k a)" "keeps files (print_application k a)"
  unfolding print_application_def say_all_def by (intro keeping)+

lemma print_apps_keeps [keeping]:
  "keeps data (print_integration_apps i)" "keeps files (print_integration_apps i)"
  unfolding print_integration_apps_def by (auto intro!: keeping)

lemma confirm_keeps [keeping]: "keeps data (confirm_proceed m)"
  unfolding confirm_proceed_def
  by (rule keeps_bind [OF say_keeps(1)]) (simp add: keeps_def split: list.splits)

lemma keeps_if [keeping]: "keeps f m \<Longrightarrow> keeps f n \<Longrightarrow> keeps f (\<lambda>c. if P c then m c else n c)"
  and keeps_here [keeping]: "keeps f (\<lambda>c. (c, r))"
  by (simp_all add: keeps_def)

lemma overwrite_keeps [keeping]: "keeps data (confirm_overwrite alias)"
  unfolding confirm_overwrite_def [abs_def] Let_def by (intro keeping) (auto intro: keeping)

lemma file_keeps [keeping]: "keeps f (check_file h p)" "keeps f (get_file h p)" "keeps f (check_named_file h b p)"
  "keeps f (require q m)"
  by (auto simp: check_file_def get_file_def check_named_file_def require_def intro!: keeping)

lemma after_apply_keeps [keeping]:
  "keeps f (opa_after_apply h a)" "keeps f (aws_after_apply h b)" "keeps f (azure_after_apply h e)" "keeps f (opa_option h a)"
  by (auto simp: opa_after_apply_def aws_after_apply_def azure_after_apply_def opa_option_def Let_def intro!: keeping)

lemma report_keeps [keeping]: "keeps data (report_apps alias i)" "keeps files (report_apps alias i)"
  by (auto simp: report_apps_def say_line_def intro!: keeping)

lemma discover_keeps [keeping]: "keeps data (discover_apps h fresh i)"
  by (auto simp: keeps_def discover_apps_def report_keeps(1) [unfolded keeps_def, rule_format] split: prod.splits sum.splits)

lemma open_keeps [keeping]: "keeps data (open_integration_cmd h fresh alias opt)"
  by (auto simp: open_integration_cmd_def say_line_def intro!: keeping split: prod.splits option.splits sum.splits)

lemma reported_apps: "report_apps alias i c = (d, Inr j) \<Longrightarrow> apps_of j \<noteq> []"
  by (auto simp: report_apps_def rbind_iff split: if_splits)

lemma discovered_apps: "discover_apps h fresh i c = (d, Inr j) \<Longrightarrow> apps_of j \<noteq> []"
  by (auto simp: discover_apps_def split: prod.splits sum.splits dest: reported_apps)

lemma opened_has_apps: "open_integration_cmd h fresh alias opt c = (d, Inr i) \<Longrightarrow> apps_of i \<noteq> []"
  by (cases "open_integration (host_sdk h) [Some opt]")
    (auto simp: open_integration_cmd_def run_bind_Inr pure_run_Inr split: option.splits sum.splits dest: discovered_apps)

text \<open>Saving writes the file of the configuration and nothing else of it.\<close>

lemma save_config_data: "save_config h c = (d, Inr u) \<Longrightarrow> data d = data c"
  by (auto simp: save_config_def rbind_iff split: sum.splits fault.splits)

section \<open>Changes survive\<close>

text \<open>The integration a change is about, and what it has done.\<close>

fun changed_alias :: "(nat \<Rightarrow> string) \<Rightarrow> 's config_data \<Rightarrow> config_change \<Rightarrow> string option" where
  "changed_alias fresh d (AddGcp name _) = Some (fst (command_alias fresh name))"
| "changed_alias fresh d (AddOpa name _) = Some (fst (command_alias fresh name))"
| "changed_alias fresh d (AddAws name _) = Some (fst (command_alias fresh name))"
| "changed_alias fresh d (AddAzure name _) = Some (fst (command_alias fresh name))"
| "changed_alias fresh d (DeleteIntegration alias) = Some alias"
| "changed_alias fresh d (DeletePap alias) = map_option fst (config_application d alias)"

definition has_apps :: "'s config_data \<Rightarrow> string \<Rightarrow> bool" where
  "has_apps d k \<longleftrightarrow> (\<exists>i. get_integration d k = Some i \<and> apps_of i \<noteq> [])"

definition lacks_app :: "'s config_data \<Rightarrow> string \<Rightarrow> string \<Rightarrow> bool" where
  "lacks_app d k alias \<longleftrightarrow> (\<exists>i. get_integration d k = Some i \<and> map_of (apps_of i) alias = None)"

fun change_done :: "config_change \<Rightarrow> string \<Rightarrow> 's config_data \<Rightarrow> bool" where
  "change_done (DeleteIntegration alias) k d = (get_integration d k = None)"
| "change_done (DeletePap alias) k d = lacks_app d k alias"
| "change_done ch k d = has_apps d k"

lemma stored_apps [simp]: "apps_of (stored_integration i) = apps_of i"
  by (simp add: apps_of_def stored_integration_def)

lemma get_stored: "get_integration (stored_config d) k = map_option stored_integration (get_integration d k)"
  by (simp add: get_integration_def stored_config_def map_of_map)

lemma get_put: "get_integration (put_integration k i d) j = (if j = k then Some i else get_integration d j)"
  by (simp add: get_integration_def put_integration_def update_conv')

lemma store_new_data: "store_new h alias i c = (d, Inr u) \<Longrightarrow> data d = put_integration alias i (data c)"
  by (auto simp: store_new_def dest: save_config_data)

text \<open>A command that, when it succeeds, has put an integration with applications under one alias, and nothing else.\<close>

definition adds :: "string \<Rightarrow> ('s, unit) command \<Rightarrow> bool" where
  "adds k m \<longleftrightarrow> (\<forall>c d. m c = (d, Inr ()) \<longrightarrow>
     (\<exists>i. apps_of i \<noteq> [] \<and> data d = put_integration k i (data c)))"

lemma adds_opened: "adds k (run_bind (open_integration_cmd h fresh k opt) (\<lambda>i. store_new h k i))"
  by (fastforce simp: adds_def run_bind_Inr dest: opened_has_apps store_new_data keeps_fst [OF open_keeps])

lemma adds_bind: "keeps data m \<Longrightarrow> (\<And>x. adds k (g x)) \<Longrightarrow> adds k (run_bind m g)"
  by (fastforce simp: adds_def run_bind_Inr dest: keeps_fst)

lemma adds_fail: "adds k (fail m)"
  by (simp add: adds_def rbind_iff)

lemma adds_cond: "adds k m \<Longrightarrow> adds k n \<Longrightarrow> adds k (if b then m else n)"
  and keeps_cond: "keeps f m' \<Longrightarrow> keeps f n' \<Longrightarrow> keeps f (if b then m' else n')"
  by simp_all

lemmas adding = adds_opened adds_fail adds_cond adds_bind keeps_cond keeping

lemma additions:
  "adds (fst (command_alias fresh name)) (add_gcp h fresh name file)"
  "adds (fst (command_alias fresh name)) (add_opa h fresh name oa)"
  "adds (fst (command_alias fresh name)) (add_aws h fresh name wa)"
  "adds (fst (command_alias fresh name)) (add_azure h fresh name za)"
  unfolding add_gcp_def add_opa_def add_aws_def add_azure_def case_prod_beta by (intro adding)+

lemma removed_application:
  assumes "config_application d al = Some (k, a)"
  shows "lacks_app (remove_application al d) k al" and "j \<noteq> k \<Longrightarrow> get_integration (remove_application al d) j = get_integration d j"
proof -
  have "find_integration m al = Some (k, a) \<Longrightarrow> \<exists>i. map_of m k = Some i" for m :: "'a integration go_map"
    by (induction m al rule: find_integration.induct) (auto split: option.splits)
  with assms obtain i where "map_of (integrations d) k = Some i" unfolding config_application_def by blast
  with assms show "lacks_app (remove_application al d) k al"
    "j \<noteq> k \<Longrightarrow> get_integration (remove_application al d) j = get_integration d j"
    by (auto simp: remove_application_def lacks_app_def get_put apps_of_def delete_conv' split: option.splits)
qed

lemma removed_integration:
  "get_integration (remove_integration al d) k = (if k = al then None else get_integration d k)"
  by (simp add: remove_integration_def get_integration_def delete_conv')

lemma change_effect:
  assumes "run_change h fresh ch c = (d, Inr ())"
  shows "\<exists>k. changed_alias fresh (data c) ch = Some k \<and> change_done ch k (data d) \<and>
    (\<forall>j. j \<noteq> k \<longrightarrow> get_integration (data d) j = get_integration (data c) j)"
proof -
  have add: "\<exists>k'. Some k = Some k' \<and> has_apps (data d) k' \<and>
      (\<forall>j. j \<noteq> k' \<longrightarrow> get_integration (data d) j = get_integration (data c) j)" if "adds k (run_change h fresh ch)" for k
    using that assms unfolding adds_def has_apps_def by (metis get_put)
  show ?thesis
  proof (cases ch)
    case (DeleteIntegration al)
    with assms show ?thesis
      by (auto simp: delete_integration_def not_found_def rbind_iff removed_integration split: if_splits dest!: save_config_data)
  next
    case (DeletePap al)
    with assms show ?thesis
      by (auto simp: delete_pap_def not_found_def rbind_iff removed_application split: if_splits dest!: save_config_data)
  next
    case (AddGcp name f)
    with add [of "fst (command_alias fresh name)"] show ?thesis by (simp only: run_change.simps additions changed_alias.simps change_done.simps)
  next
    case (AddOpa name a)
    with add [of "fst (command_alias fresh name)"] show ?thesis by (simp only: run_change.simps additions changed_alias.simps change_done.simps)
  next
    case (AddAws name a)
    with add [of "fst (command_alias fresh name)"] show ?thesis by (simp only: run_change.simps additions changed_alias.simps change_done.simps)
  next
    case (AddAzure name a)
    with add [of "fst (command_alias fresh name)"] show ?thesis by (simp only: run_change.simps additions changed_alias.simps change_done.simps)
  qed
qed


text \<open>A host with the mock platform and one key file, whose JSON knows one configuration.\<close>

definition work_integration :: "unit integration" where
  "work_integration = \<lparr>int_alias = ''work'', int_opts = no_options\<lparr>opt_info := Some \<lparr>integration_name = ''gcp_iap'',
     integration_key = ''{}''\<rparr>\<rparr>, int_apps = Some [(''a'', photo_app ''id2''), (''aa'', photo_app ''id1'')],
     int_provider = None\<rparr>"

definition work_provider :: "unit provider_api" where
  "work_provider = provider_methods photo_sdk (ChosenGoogle None [])"

definition opened_work :: "unit integration" where
  "opened_work = \<lparr>int_alias = [], int_opts = with_info ''gcp_iap'' ''{}'' no_options, int_apps = None,
     int_provider = Some work_provider\<rparr>"

definition found_work :: "unit integration" where
  "found_work = work_integration\<lparr>int_provider := Some work_provider\<rparr>"

definition work_config :: "unit config_data" where
  "work_config = \<lparr>selected = [], integrations = [(''work'', work_integration)]\<rparr>"

definition work_host :: "unit host" where
  "work_host = \<lparr>host_sdk = photo_sdk,
     host_urls = \<lparr>parse_url = (\<lambda>_. Inl (Error [])), url_text = (\<lambda>_. []), query_escape = id\<rparr>,
     encode_credentials = (\<lambda>_. []), home_dir = Some ''/home'', refused = (\<lambda>_. None),
     encode_config = (\<lambda>d. if d = work_config then Inr ''{saved}'' else Inl (Error [])),
     decode_config = (\<lambda>_. (work_config, None))\<rparr>"

definition work_session :: "unit cli" where
  "work_session = \<lparr>cli_config = [], config_file = ''/home/config.json'', data = \<lparr>selected = [], integrations = []\<rparr>,
     loaded_models = None, output_path = [], append_output = False,
     files = \<lparr>file_texts = [(''/home/key.json'', ''{}'')], folders = [''/home'']\<rparr>, console = [], input_lines = [],
     platforms = ()\<rparr>"

definition letter_aliases :: "nat \<Rightarrow> string" where
  "letter_aliases n = replicate (Suc n) (CHR ''a'')"

text \<open>A command that only prints.\<close>

definition prints :: "('s, unit) command \<Rightarrow> bool" where
  "prints m \<longleftrightarrow> (\<forall>c. \<exists>t. m c = (c\<lparr>console := t\<rparr>, Inr ()))"

lemma prints_say: "prints (say t)"
  by (auto simp: prints_def say_def)

lemma prints_bind: "prints m \<Longrightarrow> prints n \<Longrightarrow> prints (run_bind m (\<lambda>_. n))"
proof -
  assume m: "prints m" and n: "prints n"
  have "\<exists>t. run_bind m (\<lambda>_. n) c = (c\<lparr>console := t\<rparr>, Inr ())" for c
  proof -
    from m obtain t where t: "m c = (c\<lparr>console := t\<rparr>, Inr ())" unfolding prints_def by blast
    from n obtain u where "n (c\<lparr>console := t\<rparr>) = (c\<lparr>console := t\<rparr>\<lparr>console := u\<rparr>, Inr ())" unfolding prints_def by blast
    with t show ?thesis by (auto simp: run_bind_def)
  qed
  then show ?thesis unfolding prints_def by blast
qed

lemma prints_all: "(\<And>x. prints (g x)) \<Longrightarrow> prints (run_all g xs)"
proof (induction xs)
  case Nil
  show ?case unfolding prints_def
  proof
    fix c
    have "run_all g [] c = (c\<lparr>console := console c\<rparr>, Inr ())" by simp
    then show "\<exists>t. run_all g [] c = (c\<lparr>console := t\<rparr>, Inr ())" by blast
  qed
next
  case (Cons x xs)
  have "run_all g (x # xs) = run_bind (g x) (\<lambda>_. run_all g xs)" by (rule ext) simp
  with Cons show ?case by (simp add: prints_bind)
qed

lemma prints_apps: "prints (print_integration_apps i)"
  unfolding print_integration_apps_def print_application_def say_all_def case_prod_beta
  by (intro prints_all prints_bind prints_say)

lemma reports_apps: "apps_of i \<noteq> [] \<Longrightarrow> \<exists>t. report_apps alias i c = (c\<lparr>console := t\<rparr>, Inr i)"
proof -
  assume a: "apps_of i \<noteq> []"
  let ?m = "\<lambda>t. run_bind (say t) (\<lambda>_. print_integration_apps i)"
  have "\<exists>u. ?m t c = (c\<lparr>console := u\<rparr>, Inr ())" for t
    using prints_bind [OF prints_say prints_apps] unfolding prints_def by blast
  with a show ?thesis
    by (fastforce simp: report_apps_def run_bind_def give_def pure_run_def split: prod.splits sum.splits)
qed

lemma work_codec: "config_codec work_host"
  by (auto simp: config_codec_def work_host_def)

lemma work_added:
  "\<exists>d. run_change work_host letter_aliases (AddGcp ''work'' ''/home/key.json'') work_session = (d, Inr ())"
proof -
  have w: "confirm_overwrite ''work'' work_session = (work_session, Inr ())"
    by (simp add: confirm_overwrite_def work_session_def get_integration_def)
  have f: "check_file work_host ''/home/key.json'' work_session = (work_session, Inr ())"
    by (simp add: check_file_def read_run_def expand_home_def has_prefix_def os_stat_def file_exists_def work_host_def
        work_session_def go_error_def)
  have g: "get_file work_host ''/home/key.json'' work_session = (work_session, Inr ''{}'')"
    by (simp add: get_file_def read_run_def expand_home_def has_prefix_def os_read_file_def work_host_def
        work_session_def go_error_def)
  have o: "open_integration photo_sdk [Some (with_info ''gcp_iap'' ''{}'')] = (Some opened_work, Inr ())"
    by (simp add: open_integration_def open_provider_def choose_provider_def new_google_provider_def with_info_def
        no_options_def photo_sdk_def opened_work_def work_provider_def mapper_names_def Let_def)
  have p: "get_application_points photo_sdk (Some letter_aliases) (opened_work\<lparr>int_alias := ''work''\<rparr>) () =
      (found_work, (), Inr [photo_app ''id2'', photo_app ''id1''])"
    by (simp add: get_application_points_def check_open_def open_provider_def opened_work_def found_work_def
        work_provider_def work_integration_def with_info_def photo_sdk_def letter_aliases_def named_map_def application_alias_def photo_app_def
        no_options_def Let_def)
  have "\<exists>t. open_integration_cmd work_host letter_aliases ''work'' (with_info ''gcp_iap'' ''{}'') work_session =
      (work_session\<lparr>console := t\<rparr>, Inr found_work)"
  proof -
    let ?m = "''Integration of type: '' @ get_type opened_work @ '', alias: '' @ ''work'' @ '' successfully defined'' @ line_end"
    let ?c = "work_session\<lparr>console := console work_session @ [?m], platforms := ()\<rparr>"
    have "apps_of found_work \<noteq> []" by (simp add: found_work_def work_integration_def apps_of_def)
    from reports_apps [OF this, of "''work''" ?c] obtain t where
      "report_apps ''work'' found_work ?c = (?c\<lparr>console := t\<rparr>, Inr found_work)" by blast
    moreover have "host_sdk work_host = photo_sdk" by (simp add: work_host_def)
    moreover have "work_session\<lparr>platforms := (), console := u\<rparr> = work_session\<lparr>console := u\<rparr>" for u
      by (simp add: work_session_def)
    ultimately show ?thesis using o p
      by (auto simp: open_integration_cmd_def discover_apps_def say_line_def say_def run_bind_def)
  qed
  then obtain t where o: "open_integration_cmd work_host letter_aliases ''work'' (with_info ''gcp_iap'' ''{}'') work_session =
      (work_session\<lparr>console := t\<rparr>, Inr found_work)" by blast
  have s: "\<exists>d. store_new work_host ''work'' found_work (work_session\<lparr>console := t\<rparr>) = (d, Inr ())"
  proof -
    have "stored_config (put_integration ''work'' found_work (data work_session)) = work_config"
      by (simp add: stored_config_def put_integration_def stored_integration_def found_work_def work_integration_def
          work_config_def work_session_def no_options_def)
    then have "encode_config work_host (stored_config (put_integration ''work'' found_work (data work_session))) =
        Inr ''{saved}''" by (simp add: work_host_def)
    moreover have "path_dir ''/home/config.json'' = ''/home''" by code_simp
    then have "\<exists>fs. put_file work_host (config_file work_session) ''{saved}'' (files work_session) = Inr fs"
      by (simp add: os_write_file_def work_host_def work_session_def go_error_def)
    ultimately show ?thesis by (auto simp: store_new_def save_config_def)
  qed
  have "add_gcp work_host letter_aliases ''work'' ''/home/key.json'' work_session =
    store_new work_host ''work'' found_work (work_session\<lparr>console := t\<rparr>)"
    using o by (simp add: add_gcp_def command_alias_def run_bind_def w f g)
  with s show ?thesis by simp
qed


section \<open>What is not saved\<close>

lemma keeps_apply: "keeps f m \<Longrightarrow> f (fst (m c)) = f c"
  by (simp add: keeps_def)

lemma use_integration_keeps [keeping]: "keeps files (use_integration k f)"
  by (auto simp: keeps_def use_integration_def split: option.splits prod.splits)

text \<open>The aliases that \<open>get paps\<close> has drawn and printed are not in the file, unless a later command saves them.\<close>

lemma discovered_aliases_unsaved: "files (fst (get_paps h fresh alias c)) = files c"
proof -
  have "keeps files (run_bind (use_integration k f) (\<lambda>_ d. case get_integration (data d) alias of
      None \<Rightarrow> (d, Inl e) | Some i \<Rightarrow> if apps_of i = [] then say_line t d else print_integration_apps i d))" for k f e t
    by (rule keeps_bind [OF use_integration_keeps(1)])
      (auto simp: keeps_def say_line_def say_keeps(2) [THEN keeps_apply] print_apps_keeps(2) [THEN keeps_apply]
        split: option.splits)
  note kept = keeps_apply [OF this]
  show ?thesis
    by (simp add: get_paps_def not_found_def fail_def pure_run_def kept)
qed

text \<open>An application that was found by its object id is reported as deleted and is still there.\<close>

lemma delete_by_object_id_keeps:
  assumes "config_application (data c) oid = Some (k, a)" and "get_integration (data c) k = Some i"
    and "map_of (apps_of i) oid = None" and "delete_pap h oid c = (d, Inr ())"
  shows "get_integration (data d) j = get_integration (data c) j"
proof -
  have "map_option (AList.delete oid) (int_apps i) = int_apps i"
    using assms(3) by (cases "int_apps i") (auto simp: apps_of_def delete_idem map_of_eq_None_iff)
  then have "i\<lparr>int_apps := map_option (AList.delete oid) (int_apps i)\<rparr> = i" by simp
  with assms(1,2) have "remove_application oid (data c) = put_integration k i (data c)"
    by (simp add: remove_application_def get_integration_def)
  with assms(2) have "get_integration (remove_application oid (data c)) j = get_integration (data c) j"
    by (simp add: get_put)
  with assms(1,4) show ?thesis by (auto simp: delete_pap_def dest!: save_config_data)
qed

section \<open>The output file\<close>

lemma require_Inr [rbind_iff]: "require b m c = (d, Inr u) \<longleftrightarrow> b \<and> d = c"
  by (auto simp: require_def rbind_iff)

lemma put_file_text: "put_file h p t fs = Inr gs \<Longrightarrow> gs = fs\<lparr>file_texts := AList.update p t (file_texts fs)\<rparr> \<and>
  refused h p = None \<and> p \<notin> set (folders fs) \<and> path_dir p \<in> set (folders fs)"
  by (auto simp: os_write_file_def rbind_iff split: if_splits)

text \<open>Property C40.  When the Cedar text of a file of policies is to be written to an output file that is not
  appended to, the text is printed and the file is empty in the end.\<close>

theorem cedar_output_erased:
  assumes "map_to_cmd h en dec tr fmt file c = (d, Inr ())" and "to_lower fmt = ''cedar''"
    and "output_path c \<noteq> []" and "\<not> append_output c" and "put_file h (output_path c) [] (files c) = Inr fs"
  shows "\<exists>ps t. parse_policy_file dec (read_file h (files c)) file = Inr ps \<and>
    map_hexa_policies (cli_cedar_mapper tr) (elems ps) = Inr t \<and> t @ line_end \<in> set (console d) \<and>
    map_of (file_texts (files d)) (output_path c) = Some []"
proof -
  let ?p = "output_path c"
  from put_file_text [OF assms(5)] have ok: "refused h ?p = None" "?p \<notin> set (folders (files c))"
    "path_dir ?p \<in> set (folders (files c))" by auto
  from assms(1,2) obtain ps t c1 c2 c3 w w2 where
    ps: "parse_policy_file dec (read_file h (files c)) file = Inr ps" and
    t: "map_hexa_policies (cli_cedar_mapper tr) (elems ps) = Inr t" and
    c1: "c1 = c\<lparr>console := console c @ [''Mapping IDQL to '' @ fmt @ line_end, t @ line_end]\<rparr>" and
    run: "get_output_writer h c1 = (c2, Inr w)" "write_output w t c2 = (c3, Inr ())" "get_output_writer h c3 = (d, Inr w2)"
    by (auto simp: map_to_cmd_def format_known_def say_line_def rbind_iff)
  have "w = Some ?p \<and> output_path c2 = ?p \<and> \<not> append_output c2 \<and> folders (files c2) = folders (files c) \<and>
      console c2 = console c1"
    using run(1) ok assms(3,4) c1 by (auto simp: get_output_writer_def os_write_file_def Let_def go_error_def)
  with run(2,3) ok assms(3) have "map_of (file_texts (files d)) ?p = Some [] \<and> console d = console c1"
    by (auto simp: write_output_def get_output_writer_def os_write_file_def Let_def go_error_def update_conv')
  with ps t c1 show ?thesis by auto
qed

text \<open>A file with one policy that is open to everyone.\<close>

definition open_policy_info :: policy_info where
  "open_policy_info = \<lparr>meta = sample_meta None, subjects = Some [''any''], actions = Some [], object_info = [],
     condition = None, scope = None\<rparr>"

definition work_decoders :: policy_decoders where
  "work_decoders = \<lparr>as_policies = (\<lambda>_. Inr \<lparr>policy_list = Some [open_policy_info], app = None\<rparr>),
     as_policy_array = (\<lambda>_. Inl (Error [])), as_policy = (\<lambda>_. Inl (Error []))\<rparr>"

definition work_translators :: translators where
  "work_translators = \<lparr>decimal_parser = (\<lambda>_. None), cedar_parser = (\<lambda>_. Inl []), cel_parser = (\<lambda>_. Inl []),
     bindings_decoder = (\<lambda>_. Inl (Error []))\<rparr>"

definition work_encoders :: encoders where
  "work_encoders = \<lparr>policy_text = (\<lambda>_. []), policies_json = (\<lambda>_. Inl (Error [])), policy_array_json = (\<lambda>_. Inl (Error [])),
     bindings_json = (\<lambda>_. Inl (Error [])), difs_json = (\<lambda>_. Inl (Error []))\<rparr>"

definition output_session :: "unit cli" where
  "output_session = work_session\<lparr>output_path := ''/home/out.txt''\<rparr>"

lemma work_cedar:
  "\<exists>t. t \<noteq> [] \<and> map_hexa_policies (cli_cedar_mapper work_translators) [open_policy_info] = Inr t"
  by (simp add: map_hexa_policies_def map_hexa_policy_def open_policy_info_def map_condition_to_cedar_def
      map_hexa_subjects_def equal_fold_def to_lower_def write_cedar_policy_def)

lemma work_mapped:
  "\<exists>d. map_to_cmd work_host work_encoders work_decoders work_translators ''cedar'' ''/home/key.json'' output_session = (d, Inr ())"
proof -
  obtain t where t: "map_hexa_policies (cli_cedar_mapper work_translators) [open_policy_info] = Inr t"
    using work_cedar by blast
  have dir: "path_dir ''/home/out.txt'' = ''/home''"
    by code_simp
  have lower: "to_lower ''cedar'' = ''cedar''" by code_simp
  show ?thesis
    by (simp add: map_to_cmd_def format_known_def require_def map_formats_def lower run_bind_def say_line_def say_def give_def
        pure_run_def read_run_def parse_policy_file_def parse_policies_def work_decoders_def os_read_file_def go_error_def
        work_host_def output_session_def work_session_def t get_output_writer_def os_write_file_def dir write_output_def Let_def)
qed

lemma cedar_output_erased_witness:
  "\<exists>d t. map_to_cmd work_host work_encoders work_decoders work_translators ''cedar'' ''/home/key.json'' output_session = (d, Inr ()) \<and>
     t @ line_end \<in> set (console d) \<and> map_of (file_texts (files d)) ''/home/out.txt'' = Some []"
proof -
  obtain d where d: "map_to_cmd work_host work_encoders work_decoders work_translators ''cedar'' ''/home/key.json'' output_session = (d, Inr ())"
    using work_mapped by blast
  have lower: "to_lower ''cedar'' = ''cedar''" by code_simp
  have dir: "path_dir ''/home/out.txt'' = ''/home''" by code_simp
  have out: "output_path output_session = ''/home/out.txt''" by (simp add: output_session_def)
  obtain fs where "put_file work_host (output_path output_session) [] (files output_session) = Inr fs"
    by (simp add: out os_write_file_def dir work_host_def output_session_def work_session_def go_error_def)
  from cedar_output_erased [OF d lower _ _ this] d show ?thesis
    by (auto simp: output_session_def work_session_def)
qed

end
