(* ===== verification/Cli_Main.thy ===== *)
theory Cli_Main
  imports Cli_Models
begin

text \<open>
  The program of the command line, \<open>main\<close> of \<^verbatim>\<open>cmd/hexa/main.go\<close>: its arguments, the configuration it
  starts with, and the loop that reads commands and runs them.

  Splitting a line into words and the argument parser are libraries and parameters: the parser gives an error or the
  command, which tells whether it ends the program.  A session ends with the lines of the terminal.
\<close>

section \<open>Arguments\<close>

text \<open>
  The loop ranges over the array of the arguments as it was, while removing an argument moves the later ones in the
  same array: \<open>arr\<close> is the array and \<open>m\<close> the length that is left.
\<close>

fun config_scan :: "nat list \<Rightarrow> string list \<Rightarrow> nat \<Rightarrow> string option \<Rightarrow> string option res" where
  "config_scan [] arr m cfg = Inr cfg"
| "config_scan (i # is) arr m cfg =
     (let arg = arr ! i in
      rbind (go_slice arg 0 8) (\<lambda>prefix.
        if equal_fold ''--config'' prefix then
          (if m < i + 1 then Inl (Panic ''slice bounds out of range'')
           else
             config_scan is (take i arr @ take (m - (i + 1)) (drop (i + 1) arr) @ drop (m - 1) arr) (m - 1)
               (Some (case index_str arg ''='' of None \<Rightarrow> arg | Some k \<Rightarrow> drop (Suc k) arg)))
        else config_scan is arr m cfg))"

text \<open>The command that is given as arguments, if it is one, and the path of the configuration.\<close>

definition initial_arguments :: "string list \<Rightarrow> (string list option \<times> string option) res" where
  "initial_arguments os_args =
     (if length os_args \<le> 1 then Inr (None, None)
      else
        (let args = tl os_args in
         rbind (go_slice (hd args) 0 1) (\<lambda>first.
           if first \<noteq> ''-'' then Inr (Some args, None)
           else rbind (config_scan [0..<length args] args (length args) None) (\<lambda>cfg. Inr (None, cfg)))))"

section \<open>Running commands\<close>

record 's program =
  program_host :: "'s host"
  break_args :: "string \<Rightarrow> string list"
  parse_args :: "string list \<Rightarrow> string + ('s, bool) command"
  error_text :: "string \<Rightarrow> string"

datatype command_end = Succeeded | Reported | Exited

definition report_error :: "'s program \<Rightarrow> string \<Rightarrow> ('s, command_end) command" where
  "report_error p e = run_bind (say (error_text p e)) (\<lambda>_. give Reported)"

definition run_args :: "'s program \<Rightarrow> string list \<Rightarrow> ('s, command_end) command" where
  "run_args p args c =
     (case parse_args p (lowercase_keywords args) of
        Inl e \<Rightarrow> report_error p e c
      | Inr cmd \<Rightarrow>
          (case cmd c of
             (d, Inr exits) \<Rightarrow> (d, Inr (if exits then Exited else Succeeded))
           | (d, Inl (Failed _ e)) \<Rightarrow> report_error p e d
           | (d, Inl (Crashed m)) \<Rightarrow> (d, Inl (Crashed m))))"

text \<open>The end of the terminal's input is an error that is raised.\<close>

fun interactive :: "'s program \<Rightarrow> string list \<Rightarrow> ('s, unit) command" where
  "interactive p [] = pure_run 0 (Inl (Panic ''EOF''))"
| "interactive p (l # ls) =
     run_bind (run_args p (break_args p l)) (\<lambda>e. if e = Exited then give () else interactive p ls)"

text \<open>After an error the loop goes on, and asks for the first of the arguments, which are used up.\<close>

definition one_command :: "'s program \<Rightarrow> string list \<Rightarrow> ('s, unit) command" where
  "one_command p args =
     run_bind (run_args p args) (\<lambda>e. if e = Reported then pure_run 0 (rbind (go_index ([] :: string list) 0) (\<lambda>_. Inr ())) else give ())"

text \<open>The configuration is looked for and loaded, where an error of loading is ignored.\<close>

definition start_session :: "'s program \<Rightarrow> ('s, unit) command" where
  "start_session p c =
     (case check_config_path (program_host p) c of
        (d, Inl (Crashed m)) \<Rightarrow> (d, Inl (Crashed m))
      | (d, Inl (Failed _ e)) \<Rightarrow> run_bind (say_line (''Error reading config directory: '' @ e)) (\<lambda>_. pure_run 0 (Inl (Panic ''-1''))) d
      | (d, Inr _) \<Rightarrow>
          (case load_config (program_host p) d of
             (e, Inl (Crashed m)) \<Rightarrow> (e, Inl (Crashed m))
           | (e, _) \<Rightarrow> (e, Inr ())))"

definition main_program :: "'s program \<Rightarrow> string list \<Rightarrow> string list \<Rightarrow> ('s, unit) command" where
  "main_program p os_args ls =
     run_bind (pure_run 0 (initial_arguments os_args)) (\<lambda>(args, cfg).
     run_bind (\<lambda>c. start_session p (case cfg of None \<Rightarrow> c | Some path \<Rightarrow> c\<lparr>cli_config := path\<rparr>)) (\<lambda>_.
       case args of Some as \<Rightarrow> one_command p as | None \<Rightarrow> interactive p ls))"

section \<open>Lemmas\<close>

text \<open>An interactive session returns only by a command that ends it, whatever was reported before.\<close>

inductive session_of :: "'s program \<Rightarrow> string list \<Rightarrow> 's cli \<Rightarrow> 's cli \<Rightarrow> bool" for p where
  last_command: "run_args p (break_args p l) c = (d, Inr Exited) \<Longrightarrow> session_of p [l] c d"
| next_command: "run_args p (break_args p l) c = (d, Inr e) \<Longrightarrow> e \<noteq> Exited \<Longrightarrow> session_of p ls d f \<Longrightarrow> session_of p (l # ls) c f"

inductive_cases session_ofE: "session_of p ls c d"

lemma give_returns: "give x c = (d, Inr y) \<longleftrightarrow> d = c \<and> y = x"
  by (auto simp: give_def pure_run_def)

lemma interactive_ends_by_exit:
  "interactive p ls c = (d, Inr ()) \<longleftrightarrow> (\<exists>us vs. ls = us @ vs \<and> session_of p us c d)"
proof
  show "interactive p ls c = (d, Inr ()) \<Longrightarrow> \<exists>us vs. ls = us @ vs \<and> session_of p us c d"
  proof (induction ls arbitrary: c)
    case (Cons l ls)
    then obtain u e where step: "run_args p (break_args p l) c = (u, Inr e)"
      and rest: "(if e = Exited then give () else interactive p ls) u = (d, Inr ())"
      by (auto simp: run_bind_Inr)
    show ?case
    proof (cases "e = Exited")
      case True
      with rest have "d = u" by (simp add: give_returns)
      with step True have "session_of p [l] c d" by (simp add: last_command)
      then show ?thesis by (intro exI [of _ "[l]"] exI [of _ ls]) simp
    next
      case False
      with rest Cons.IH [of u] obtain us vs where "ls = us @ vs" "session_of p us u d" by auto
      with step False have "session_of p (l # us) c d" by (intro next_command)
      with \<open>ls = us @ vs\<close> show ?thesis by (intro exI [of _ "l # us"] exI [of _ vs]) simp
    qed
  qed (simp add: pure_run_def)
  show "\<exists>us vs. ls = us @ vs \<and> session_of p us c d \<Longrightarrow> interactive p ls c = (d, Inr ())"
  proof (elim exE conjE)
    fix us vs
    assume "session_of p us c d" and ls: "ls = us @ vs"
    then show "interactive p ls c = (d, Inr ())"
      unfolding ls by (induction) (simp_all add: run_bind_def give_returns)
  qed
qed

text \<open>The command of the arguments: its error stops the program with a panic after it was reported.\<close>

lemma one_command_error_panics:
  assumes "run_args p args c = (d, Inr Reported)"
  shows "\<exists>m. one_command p args c = (d, Inl (Crashed m))"
  using assms by (simp add: one_command_def run_bind_def go_index_def pure_run_def)

lemma one_command_succeeds:
  assumes "run_args p args c = (d, Inr Succeeded)"
  shows "one_command p args c = (d, Inr ())"
  using assms by (simp add: one_command_def run_bind_def give_def pure_run_def)

lemma unknown_command_panics:
  assumes "parse_args p (lowercase_keywords args) = Inl e"
  shows "\<exists>d m. one_command p args c = (d, Inl (Crashed m)) \<and> console d = console c @ [error_text p e]"
  using assms
  by (simp add: one_command_def run_args_def report_error_def run_bind_def say_def give_def pure_run_def go_index_def)

text \<open>An option is ignored but for the configuration, and two of them, or a short one, panic.\<close>

lemma config_argument: "initial_arguments [''hexa'', ''--config=c.json''] = Inr (None, Some ''c.json'')"
  and two_configs_panic: "\<exists>e. initial_arguments [''hexa'', ''--config=a'', ''--config=b''] = Inl (Panic e)"
  and short_option_panics: "\<exists>e. initial_arguments [''hexa'', ''-h''] = Inl (Panic e)"
  and option_before_command_ignored: "initial_arguments [''hexa'', ''--config=c'', ''show-all''] = Inr (None, Some ''c'')"
proof -
  show "initial_arguments [''hexa'', ''--config=c.json''] = Inr (None, Some ''c.json'')"
    "initial_arguments [''hexa'', ''--config=c'', ''show-all''] = Inr (None, Some ''c'')" by code_simp+
  have "initial_arguments [''hexa'', ''--config=a'', ''--config=b''] = Inl (Panic ''slice bounds out of range'')"
    "initial_arguments [''hexa'', ''-h''] = Inl (Panic ''slice bounds out of range'')" by code_simp+
  then show "\<exists>e. initial_arguments [''hexa'', ''--config=a'', ''--config=b''] = Inl (Panic e)"
    "\<exists>e. initial_arguments [''hexa'', ''-h''] = Inl (Panic e)" by blast+
qed

end
